theory Spec2Isabelle
  imports Main "HOL-Library.AList"
begin

section \<open>Data model of watcher.go\<close>

text \<open>
  The watch handler of the operator (src/watcher/watcher.go) keeps three correlation
  structures and updates them from pod events, from a periodic full listing, and reads
  them when storage artifacts are observed. The cluster and the storage are collaborators:
  what they answer is an input of the model.
\<close>

datatype error =
    ErrUnsupportedObject
  | ErrUnknownImageHash
  | ErrMissingWLIDAnnotation
  | ErrMissingInstanceIDAnnotation
  | ErrAPI string

datatype PodPhase = PodPending | PodRunning | PodSucceeded | PodFailed | PodUnknown

text \<open>One entry of \<^verbatim>\<open>pod.Status.ContainerStatuses\<close>; \<open>csRunning\<close> is \<^verbatim>\<open>State.Running != nil\<close>.\<close>

record ContainerStatus =
  csName :: string
  csImageID :: string
  csRunning :: bool

record Pod =
  podName :: string
  podNamespace :: string
  podPhase :: PodPhase
  containerStatuses :: "ContainerStatus list"

record PodList =
  items :: "Pod list"
  resourceVersion :: string

text \<open>What \<^verbatim>\<open>workloadinterface.IWorkload\<close> is asked for: namespace, kind, name.\<close>

record Workload =
  wlNamespace :: string
  wlKind :: string
  wlName :: string

record ObjectMeta =
  metaName :: string
  metaNamespace :: string
  metaAnnotations :: "string \<rightharpoonup> string"

text \<open>
  \<^verbatim>\<open>watch.Event\<close>: an event type and an object of any runtime type; the handlers
  assert the type they expect. \<open>VulnerabilityManifest m r\<close> carries
  \<^verbatim>\<open>Spec.Metadata.WithRelevancy\<close> as \<open>r\<close>; \<open>Status\<close> stands for every other object.
\<close>

datatype EventType = Added | Modified | Deleted | Bookmark | ErrorEvent

datatype Object =
    PodObject Pod
  | SBOMSPDXv2p3 ObjectMeta
  | SBOMSPDXv2p3Filtered ObjectMeta
  | VulnerabilityManifest ObjectMeta bool
  | Status

record Event =
  evType :: EventType
  evObject :: Object

text \<open>
  Modelled from the spec: \<^verbatim>\<open>apis.Command\<close> as built by \<^verbatim>\<open>getImageScanCommand\<close>, which is
  not in watcher.go. The spec gives the outbound message as
  \<open>{targetWorkload, containers: mapping containerName \<rightarrow> imageReference}\<close>.
\<close>

record ScanCommand =
  targetWorkload :: string
  containers :: "string \<rightharpoonup> string"

definition getImageScanCommand :: "string \<Rightarrow> (string \<rightharpoonup> string) \<Rightarrow> ScanCommand" where
  "getImageScanCommand wlid containerToImageIDs =
     \<lparr>targetWorkload = wlid, containers = containerToImageIDs\<rparr>"

text \<open>
  \<^verbatim>\<open>type WatchHandler struct\<close> (lines 41-50), without the two clients and the two mutexes.
  \<open>iwMap\<close> is the ImageHashIndex, \<open>wlidsToContainerToImageIDMap\<close> the
  WorkloadContainerIndex, \<open>hashedInstanceIDs\<close> the InstanceIDSet (a slice in the source,
  appended to only when the element is absent).
\<close>

record WatchHandler =
  iwMap :: "string \<rightharpoonup> string set"
  hashedInstanceIDs :: "string list"
  wlidsToContainerToImageIDMap :: "string \<rightharpoonup> (string \<rightharpoonup> string)"
  currentPodListResourceVersion :: string

text \<open>
  The cluster API and the libraries the handler calls, as one record of answers.
  \<open>NewWorkload\<close> is \<^verbatim>\<open>json.Marshal\<close> followed by \<^verbatim>\<open>workloadinterface.NewWorkload\<close>;
  \<open>CalculateWorkloadParentRecursive\<close> returns kind, name and an error, all three read by
  the source; \<open>GetWLID\<close> is \<^verbatim>\<open>pkgwlid.GetWLID\<close> at the configured cluster name;
  \<open>GenerateInstanceIDFromPod\<close> gives the hashed form (\<^verbatim>\<open>GetHashed()\<close>) of each instance
  id, the only part the source reads. \<open>extractImageHash\<close> is a function of the repository
  that is not in watcher.go; the source drops its error, so only the hash it returns is
  taken, as a parameter.
\<close>

record Cluster =
  GetWorkload :: "string \<Rightarrow> string \<Rightarrow> string \<Rightarrow> error + Workload"
  NewWorkload :: "Pod \<Rightarrow> error + Workload"
  CalculateWorkloadParentRecursive :: "Workload \<Rightarrow> string \<times> string \<times> error option"
  GetWLID :: "string \<Rightarrow> string \<Rightarrow> string \<Rightarrow> string"
  GenerateInstanceIDFromPod :: "Pod \<Rightarrow> error + string list"
  extractImageHash :: "string \<Rightarrow> string"

section \<open>The correlation store\<close>

text \<open>
  Modelled from the spec: the type \<^verbatim>\<open>imageHashWLIDMap\<close> and its methods Load, Add and
  Clear are not in watcher.go. The spec gives the ImageHashIndex as a mapping from image
  hash to a set of workload identifiers, insertion order irrelevant, duplicates deduped,
  with a lookup that tells whether the hash is present.
\<close>

definition iwLoad :: "(string \<rightharpoonup> string set) \<Rightarrow> string \<Rightarrow> string set option" where
  "iwLoad m imageHash = m imageHash"

definition iwAdd :: "(string \<rightharpoonup> string set) \<Rightarrow> string \<Rightarrow> string list \<Rightarrow> (string \<rightharpoonup> string set)" where
  "iwAdd m imageHash wlids =
     m(imageHash \<mapsto> (case m imageHash of None \<Rightarrow> set wlids | Some s \<Rightarrow> s \<union> set wlids))"

definition iwClear :: "string \<rightharpoonup> string set" where
  "iwClear = Map.empty"

definition NewImageHashWLIDsMapFrom :: "(string \<rightharpoonup> string list) \<Rightarrow> (string \<rightharpoonup> string set)" where
  "NewImageHashWLIDsMapFrom imageIDsToWLIDsMap = (\<lambda>h. map_option set (imageIDsToWLIDsMap h))"

text \<open>Lines 426-443.\<close>

definition cleanUpInstanceIDs :: "WatchHandler \<Rightarrow> WatchHandler" where
  "cleanUpInstanceIDs wh = wh\<lparr>hashedInstanceIDs := []\<rparr>"

definition cleanUpWlidsToContainerToImageIDMap :: "WatchHandler \<Rightarrow> WatchHandler" where
  "cleanUpWlidsToContainerToImageIDMap wh = wh\<lparr>wlidsToContainerToImageIDMap := Map.empty\<rparr>"

definition cleanUpIDs :: "WatchHandler \<Rightarrow> WatchHandler" where
  "cleanUpIDs wh =
     cleanUpWlidsToContainerToImageIDMap (cleanUpInstanceIDs (wh\<lparr>iwMap := iwClear\<rparr>))"

text \<open>Lines 453-462.\<close>

definition GetContainerToImageIDForWlid :: "WatchHandler \<Rightarrow> string \<Rightarrow> (string \<rightharpoonup> string)" where
  "GetContainerToImageIDForWlid wh wlid =
     (case wlidsToContainerToImageIDMap wh wlid of
        None \<Rightarrow> Map.empty
      | Some containerToImageIds \<Rightarrow> containerToImageIds)"

text \<open>Lines 464-472: the hash is appended only when the slice does not hold it.\<close>

definition addToInstanceIDsList :: "string \<Rightarrow> WatchHandler \<Rightarrow> WatchHandler" where
  "addToInstanceIDsList h wh =
     (if h \<notin> set (hashedInstanceIDs wh)
      then wh\<lparr>hashedInstanceIDs := hashedInstanceIDs wh @ [h]\<rparr>
      else wh)"

text \<open>Lines 474-480: no workload, no change; else the hash of the image id is the key.\<close>

definition addToImageIDToWlidsMap :: "Cluster \<Rightarrow> string \<Rightarrow> string list \<Rightarrow> WatchHandler \<Rightarrow> WatchHandler" where
  "addToImageIDToWlidsMap k imageID wlids wh =
     (if length wlids = 0 then wh
      else wh\<lparr>iwMap := iwAdd (iwMap wh) (extractImageHash k imageID) wlids\<rparr>)"

text \<open>Lines 482-491: the inner map is created on the workload's first pair.\<close>

definition addToWlidsToContainerToImageIDMap ::
  "string \<Rightarrow> string \<Rightarrow> string \<Rightarrow> WatchHandler \<Rightarrow> WatchHandler" where
  "addToWlidsToContainerToImageIDMap wlid containerName imageID wh =
     (let m = wlidsToContainerToImageIDMap wh;
          inner = (case m wlid of None \<Rightarrow> Map.empty | Some c \<Rightarrow> c)
      in wh\<lparr>wlidsToContainerToImageIDMap := m(wlid \<mapsto> inner(containerName \<mapsto> imageID))\<rparr>)"

text \<open>Lines 721-727.\<close>

definition isWlidInMap :: "WatchHandler \<Rightarrow> string \<Rightarrow> bool" where
  "isWlidInMap wh wlid = (wlidsToContainerToImageIDMap wh wlid \<noteq> None)"

section \<open>What a pod reports\<close>

text \<open>
  A Go map built from a pod is an association list with distinct keys: a write to a key
  that is present replaces its value (\<open>AList.update\<close>). Go ranges over a map in no
  fixed order; the model ranges in the order of the list.

  Modelled from the spec: \<^verbatim>\<open>extractImageIDsToContainersFromPod\<close> and
  \<^verbatim>\<open>utils.ExtractContainersToImageIDsFromPod\<close> are not in watcher.go. The spec's step
  "extract images" gives, per container, the name and the image reference of the
  containers currently reporting Running state; the first groups the names by image
  reference, the second maps each name to its image reference.
\<close>

definition extractImageIDsToContainersFromPod :: "Pod \<Rightarrow> (string \<times> string list) list" where
  "extractImageIDsToContainersFromPod pod =
     fold (\<lambda>cs m.
            if csRunning cs
            then AList.update (csImageID cs)
                   ((case map_of m (csImageID cs) of None \<Rightarrow> [] | Some names \<Rightarrow> names) @ [csName cs]) m
            else m)
          (containerStatuses pod) []"

definition ExtractContainersToImageIDsFromPod :: "Pod \<Rightarrow> (string \<times> string) list" where
  "ExtractContainersToImageIDsFromPod pod =
     fold (\<lambda>cs m. if csRunning cs then AList.update (csName cs) (csImageID cs) m else m)
          (containerStatuses pod) []"

text \<open>
  Lines 572-586: the containers whose image hash is not a key of the ImageHashIndex,
  each with its image id.
\<close>

definition getNewContainerToImageIDsFromPod :: "Cluster \<Rightarrow> WatchHandler \<Rightarrow> Pod \<Rightarrow> (string \<times> string) list" where
  "getNewContainerToImageIDsFromPod k wh pod =
     fold (\<lambda>(imageID, names) newContainerToImageIDs.
            fold (\<lambda>container acc.
                   if iwLoad (iwMap wh) (extractImageHash k imageID) = None
                   then AList.update container imageID acc
                   else acc)
                 names newContainerToImageIDs)
          (extractImageIDsToContainersFromPod pod) []"

section \<open>Parent resolution\<close>

text \<open>Lines 589-611: the pod of a Modified event, if it is Running and still exists.\<close>

definition getPodFromEventIfRunning :: "Cluster \<Rightarrow> Event \<Rightarrow> Pod option" where
  "getPodFromEventIfRunning k event =
     (if evType event \<noteq> Modified then None
      else case evObject event of
        PodObject pod \<Rightarrow>
          if podPhase pod \<noteq> PodRunning then None
          else (case GetWorkload k (podNamespace pod) ''pod'' (podName pod) of
                  Inl err \<Rightarrow> None
                | Inr w \<Rightarrow> Some pod)
      | _ \<Rightarrow> None)"

text \<open>Lines 613-629.\<close>

definition getParentIDForPod :: "Cluster \<Rightarrow> Pod \<Rightarrow> error + string" where
  "getParentIDForPod k pod =
     (case NewWorkload k pod of
        Inl err \<Rightarrow> Inl err
      | Inr wl \<Rightarrow>
          (case CalculateWorkloadParentRecursive k wl of
             (kind, name, Some err) \<Rightarrow> Inl err
           | (kind, name, None) \<Rightarrow> Inr (GetWLID k (wlNamespace wl) kind name)))"

text \<open>Lines 631-655: the kind is compared with Node before the error is read.\<close>

definition getParentWorkloadForPod :: "Cluster \<Rightarrow> Pod \<Rightarrow> error + Workload" where
  "getParentWorkloadForPod k pod =
     (case NewWorkload k pod of
        Inl err \<Rightarrow> Inl err
      | Inr wl \<Rightarrow>
          (case CalculateWorkloadParentRecursive k wl of
             (kind, name, err) \<Rightarrow>
               if kind = ''Node'' then Inr wl
               else (case err of
                       Some e \<Rightarrow> Inl e
                     | None \<Rightarrow> GetWorkload k (wlNamespace wl) kind name)))"

section \<open>The pod event pipeline\<close>

text \<open>
  Lines 680-703 of \<^verbatim>\<open>handlePodWatcher\<close>, the decision on one pod whose parent is
  \<open>parentWlid\<close>: the handler after it and the command it built; \<open>None\<close> is the
  \<^verbatim>\<open>continue\<close> of line 695.
\<close>

definition podDecision :: "Cluster \<Rightarrow> WatchHandler \<Rightarrow> Pod \<Rightarrow> string \<Rightarrow> WatchHandler \<times> ScanCommand option" where
  "podDecision k wh pod parentWlid =
     (let newContainersToImageIDs = getNewContainerToImageIDsFromPod k wh pod in
      if length newContainersToImageIDs > 0 then
        (fold (\<lambda>(container, imgID) w.
                 addToWlidsToContainerToImageIDMap parentWlid container imgID
                   (addToImageIDToWlidsMap k imgID [parentWlid] w))
              newContainersToImageIDs wh,
         Some (getImageScanCommand parentWlid (map_of newContainersToImageIDs)))
      else if isWlidInMap wh parentWlid then (wh, None)
      else
        (let containersToImageIds = ExtractContainersToImageIDsFromPod pod in
         (fold (\<lambda>(container, imgID) w.
                  addToWlidsToContainerToImageIDMap parentWlid container imgID w)
               containersToImageIds wh,
          Some (getImageScanCommand parentWlid (map_of containersToImageIds)))))"

text \<open>
  One turn of the loop of \<^verbatim>\<open>handlePodWatcher\<close> (lines 669-717) on an event that was
  received: the handler after it and the commands given to
  \<^verbatim>\<open>utils.AddCommandToChannel\<close>. Every \<^verbatim>\<open>continue\<close> of the source is a branch that
  returns no command.
\<close>

definition handlePodEvent :: "Cluster \<Rightarrow> WatchHandler \<Rightarrow> Event \<Rightarrow> WatchHandler \<times> ScanCommand list" where
  "handlePodEvent k wh event =
     (case getPodFromEventIfRunning k event of
        None \<Rightarrow> (wh, [])
      | Some pod \<Rightarrow>
          (case getParentIDForPod k pod of
             Inl err \<Rightarrow> (wh, [])
           | Inr parentWlid \<Rightarrow>
               (case podDecision k wh pod parentWlid of
                  (wh', None) \<Rightarrow> (wh', [])
                | (wh', Some cmd) \<Rightarrow>
                    (case GenerateInstanceIDFromPod k pod of
                       Inl err \<Rightarrow> (wh', [])
                     | Inr instanceID \<Rightarrow> (fold addToInstanceIDsList instanceID wh', [cmd])))))"



section \<open>Rebuilding from a listing\<close>

text \<open>The body of the loop of \<^verbatim>\<open>buildIDs\<close> (lines 494-542) on one pod of the listing.\<close>

definition buildPod :: "Cluster \<Rightarrow> Pod \<Rightarrow> WatchHandler \<Rightarrow> WatchHandler" where
  "buildPod k pod wh =
     (if podPhase pod \<noteq> PodRunning then wh
      else if \<not> list_ex csRunning (containerStatuses pod) then wh
      else case getParentWorkloadForPod k pod of
        Inl err \<Rightarrow> wh
      | Inr wl \<Rightarrow>
          (let parentWlid = GetWLID k (wlNamespace wl) (wlKind wl) (wlName wl);
               imgIDsToContainers = extractImageIDsToContainersFromPod pod
           in case GenerateInstanceIDFromPod k pod of
                Inl err \<Rightarrow> wh
              | Inr instanceID \<Rightarrow>
                  fold (\<lambda>(imgID, names) w.
                         fold (\<lambda>containerName. addToWlidsToContainerToImageIDMap parentWlid containerName imgID)
                              names (addToImageIDToWlidsMap k imgID [parentWlid] w))
                       imgIDsToContainers
                       (fold addToInstanceIDsList instanceID wh)))"

definition buildIDs :: "Cluster \<Rightarrow> PodList \<Rightarrow> WatchHandler \<Rightarrow> WatchHandler" where
  "buildIDs k podList wh = fold (buildPod k) (items podList) wh"

text \<open>Lines 53-64: \<open>listing\<close> is what \<^verbatim>\<open>ListPods\<close> answers.\<close>

definition cleanUp :: "Cluster \<Rightarrow> error + PodList \<Rightarrow> WatchHandler \<Rightarrow> WatchHandler" where
  "cleanUp k listing wh =
     (case listing of
        Inl err \<Rightarrow> wh
      | Inr podsList \<Rightarrow> buildIDs k podsList (cleanUpIDs wh))"

text \<open>
  Lines 67-92: \<open>listing\<close> is what \<^verbatim>\<open>ListPods\<close> answers. The result is the error, or the
  handler together with the goroutines the constructor has started.
\<close>

datatype Goroutine = CleanUpAndTriggerScanRoutine

definition NewWatchHandler ::
  "Cluster \<Rightarrow> (string \<rightharpoonup> string list) \<Rightarrow> string list \<Rightarrow> error + PodList
   \<Rightarrow> error + (WatchHandler \<times> Goroutine list)" where
  "NewWatchHandler k imageIDsToWLIDsMap instanceIDs listing =
     (let wh = \<lparr>iwMap = NewImageHashWLIDsMapFrom imageIDsToWLIDsMap,
                hashedInstanceIDs = instanceIDs,
                wlidsToContainerToImageIDMap = Map.empty,
                currentPodListResourceVersion = []\<rparr>
      in case listing of
           Inl err \<Rightarrow> Inl err
         | Inr podsList \<Rightarrow>
             Inr ((buildIDs k podsList wh)\<lparr>currentPodListResourceVersion := resourceVersion podsList\<rparr>,
                  [CleanUpAndTriggerScanRoutine]))"

section \<open>Handlers of storage events\<close>

text \<open>
  What a handler does on one event: the \<^verbatim>\<open>Delete\<close> calls it makes on the storage client
  (namespace and name), the commands it sends on \<^verbatim>\<open>producedCommands\<close> and the errors it
  sends on \<^verbatim>\<open>errorCh\<close>. \<^verbatim>\<open>HandleVulnerabilityManifestEvents\<close> and
  \<^verbatim>\<open>HandleSBOMEvents\<close> have no command channel.
\<close>

record Effects =
  deleteCalls :: "(string \<times> string) list"
  producedCommands :: "ScanCommand list"
  errorSignals :: "error list"

definition noEffects :: Effects where
  "noEffects = \<lparr>deleteCalls = [], producedCommands = [], errorSignals = []\<rparr>"

definition andThen :: "Effects \<Rightarrow> Effects \<Rightarrow> Effects" where
  "andThen a b =
     \<lparr>deleteCalls = deleteCalls a @ deleteCalls b,
      producedCommands = producedCommands a @ producedCommands b,
      errorSignals = errorSignals a @ errorSignals b\<rparr>"

text \<open>Lines 106-111.\<close>

definition listInstanceIDs :: "WatchHandler \<Rightarrow> string list" where
  "listInstanceIDs wh = hashedInstanceIDs wh"

text \<open>
  The body of the loop of \<^verbatim>\<open>HandleVulnerabilityManifestEvents\<close> (lines 190-215): the
  event type is read before the object's type; the result of \<^verbatim>\<open>Delete\<close> is dropped.
\<close>

definition handleVulnerabilityManifestEvent :: "WatchHandler \<Rightarrow> Event \<Rightarrow> Effects" where
  "handleVulnerabilityManifestEvent wh e =
     (if evType e = Deleted then noEffects
      else case evObject e of
        VulnerabilityManifest obj withRelevancy \<Rightarrow>
          (let manifestName = metaName obj;
               hasObject = (if withRelevancy
                            then manifestName \<in> set (listInstanceIDs wh)
                            else iwLoad (iwMap wh) manifestName \<noteq> None)
           in if \<not> hasObject
              then noEffects\<lparr>deleteCalls := [(metaNamespace obj, manifestName)]\<rparr>
              else noEffects)
      | _ \<Rightarrow> noEffects\<lparr>errorSignals := [ErrUnsupportedObject]\<rparr>)"

definition HandleVulnerabilityManifestEvents :: "WatchHandler \<Rightarrow> Event list \<Rightarrow> Effects" where
  "HandleVulnerabilityManifestEvents wh vmEvents =
     fold (\<lambda>e done. andThen done (handleVulnerabilityManifestEvent wh e)) vmEvents noEffects"

text \<open>
  The body of the loop of \<^verbatim>\<open>HandleSBOMFilteredEvents\<close> (lines 223-249): the object's
  type is asserted before the event type is read. \<open>wlidAnnotationKey\<close> is
  \<^verbatim>\<open>instanceidhandlerv1.WlidAnnotationKey\<close>, a constant of a library.
\<close>

definition handleSBOMFilteredEvent :: "string \<Rightarrow> WatchHandler \<Rightarrow> Event \<Rightarrow> Effects" where
  "handleSBOMFilteredEvent wlidAnnotationKey wh e =
     (case evObject e of
        SBOMSPDXv2p3Filtered obj \<Rightarrow>
          if evType e = Deleted then noEffects
          else
            (let hashedInstanceID = metaName obj in
             if hashedInstanceID \<notin> set (hashedInstanceIDs wh)
             then noEffects\<lparr>deleteCalls := [(metaNamespace obj, metaName obj)]\<rparr>
             else (case metaAnnotations obj wlidAnnotationKey of
                     None \<Rightarrow> noEffects\<lparr>errorSignals := [ErrMissingWLIDAnnotation]\<rparr>
                   | Some wlid \<Rightarrow>
                       noEffects\<lparr>producedCommands :=
                         [getImageScanCommand wlid (GetContainerToImageIDForWlid wh wlid)]\<rparr>))
      | _ \<Rightarrow> noEffects\<lparr>errorSignals := [ErrUnsupportedObject]\<rparr>)"

definition HandleSBOMFilteredEvents :: "string \<Rightarrow> WatchHandler \<Rightarrow> Event list \<Rightarrow> Effects" where
  "HandleSBOMFilteredEvents wlidAnnotationKey wh sfEvents =
     fold (\<lambda>e done. andThen done (handleSBOMFilteredEvent wlidAnnotationKey wh e)) sfEvents noEffects"

text \<open>
  The body of the loop of \<^verbatim>\<open>HandleSBOMEvents\<close> (lines 260-280): the object's type is
  asserted before the event type is read; \<open>storageDelete\<close> is what the storage answers
  to the \<^verbatim>\<open>Delete\<close> call, and its error is sent on.
\<close>

definition handleSBOMEvent :: "(string \<Rightarrow> string \<Rightarrow> error option) \<Rightarrow> WatchHandler \<Rightarrow> Event \<Rightarrow> Effects" where
  "handleSBOMEvent storageDelete wh event =
     (case evObject event of
        SBOMSPDXv2p3 obj \<Rightarrow>
          if evType event = Deleted then noEffects
          else
            (let imageHash = metaName obj in
             if iwLoad (iwMap wh) imageHash = None
             then (case storageDelete (metaNamespace obj) (metaName obj) of
                     Some err \<Rightarrow>
                       noEffects\<lparr>deleteCalls := [(metaNamespace obj, metaName obj)],
                                 errorSignals := [err]\<rparr>
                   | None \<Rightarrow> noEffects\<lparr>deleteCalls := [(metaNamespace obj, metaName obj)]\<rparr>)
             else noEffects)
      | _ \<Rightarrow> noEffects\<lparr>errorSignals := [ErrUnsupportedObject]\<rparr>)"

definition HandleSBOMEvents :: "(string \<Rightarrow> string \<Rightarrow> error option) \<Rightarrow> WatchHandler \<Rightarrow> Event list \<Rightarrow> Effects" where
  "HandleSBOMEvents storageDelete wh sbomEvents =
     fold (\<lambda>event done. andThen done (handleSBOMEvent storageDelete wh event)) sbomEvents noEffects"

section \<open>Locks and accesses\<close>

text \<open>
  The handler holds one reader/writer mutex for the InstanceIDSet and one for the
  WorkloadContainerIndex (lines 46 and 48). What a function does to the three structures is
  recorded as the sequence of its lock operations and of its reads and writes, in program
  order (a deferred unlock comes last).

  Modelled from the spec: the ImageHashIndex is the type \<^verbatim>\<open>imageHashWLIDMap\<close>, which is not
  in watcher.go; the spec gives each of the three structures its own mutual exclusion, so
  its Load, Add and Clear are taken to lock around their access.
\<close>

datatype Structure = ImageHashIndex | WorkloadContainerIndex | InstanceIDSet

datatype Access =
    RLock Structure | RUnlock Structure
  | Lock Structure | Unlock Structure
  | Read Structure | Write Structure

datatype Held = Free | Shared | Exclusive

text \<open>
  A sequence is guarded when every read of a structure happens with the structure's mutex
  held (shared or exclusive) and every write with it held exclusively.
\<close>

fun guardedFrom :: "(Structure \<Rightarrow> Held) \<Rightarrow> Access list \<Rightarrow> bool" where
  "guardedFrom h [] = True"
| "guardedFrom h (RLock s # rest) = guardedFrom (h(s := Shared)) rest"
| "guardedFrom h (RUnlock s # rest) = guardedFrom (h(s := Free)) rest"
| "guardedFrom h (Lock s # rest) = guardedFrom (h(s := Exclusive)) rest"
| "guardedFrom h (Unlock s # rest) = guardedFrom (h(s := Free)) rest"
| "guardedFrom h (Read s # rest) = (h s \<noteq> Free \<and> guardedFrom h rest)"
| "guardedFrom h (Write s # rest) = (h s = Exclusive \<and> guardedFrom h rest)"

definition guarded :: "Access list \<Rightarrow> bool" where
  "guarded accesses = guardedFrom (\<lambda>s. Free) accesses"

definition iwLoad_accesses :: "Access list" where
  "iwLoad_accesses = [RLock ImageHashIndex, Read ImageHashIndex, RUnlock ImageHashIndex]"

definition iwAdd_accesses :: "Access list" where
  "iwAdd_accesses =
     [Lock ImageHashIndex, Read ImageHashIndex, Write ImageHashIndex, Unlock ImageHashIndex]"

definition iwClear_accesses :: "Access list" where
  "iwClear_accesses = [Lock ImageHashIndex, Write ImageHashIndex, Unlock ImageHashIndex]"

text \<open>Lines 106-111, 426-430, 438-443, 453-462, 464-472, 482-491, 721-727.\<close>

definition listInstanceIDs_accesses :: "Access list" where
  "listInstanceIDs_accesses = [RLock InstanceIDSet, Read InstanceIDSet, RUnlock InstanceIDSet]"

definition cleanUpInstanceIDs_accesses :: "Access list" where
  "cleanUpInstanceIDs_accesses = [Lock InstanceIDSet, Write InstanceIDSet, Unlock InstanceIDSet]"

definition cleanUpWlidsToContainerToImageIDMap_accesses :: "Access list" where
  "cleanUpWlidsToContainerToImageIDMap_accesses =
     [Lock WorkloadContainerIndex, Write WorkloadContainerIndex, Unlock WorkloadContainerIndex]"

definition GetContainerToImageIDForWlid_accesses :: "Access list" where
  "GetContainerToImageIDForWlid_accesses =
     [RLock WorkloadContainerIndex, Read WorkloadContainerIndex, RUnlock WorkloadContainerIndex]"

definition addToInstanceIDsList_accesses :: "string \<Rightarrow> WatchHandler \<Rightarrow> Access list" where
  "addToInstanceIDsList_accesses h wh =
     [Lock InstanceIDSet, Read InstanceIDSet]
     @ (if h \<notin> set (hashedInstanceIDs wh) then [Write InstanceIDSet] else [])
     @ [Unlock InstanceIDSet]"

definition addToWlidsToContainerToImageIDMap_accesses :: "string \<Rightarrow> WatchHandler \<Rightarrow> Access list" where
  "addToWlidsToContainerToImageIDMap_accesses wlid wh =
     [Lock WorkloadContainerIndex, Read WorkloadContainerIndex]
     @ (if wlidsToContainerToImageIDMap wh wlid = None then [Write WorkloadContainerIndex] else [])
     @ [Write WorkloadContainerIndex, Unlock WorkloadContainerIndex]"

definition isWlidInMap_accesses :: "Access list" where
  "isWlidInMap_accesses =
     [RLock WorkloadContainerIndex, Read WorkloadContainerIndex, RUnlock WorkloadContainerIndex]"

text \<open>Lines 432-436.\<close>

definition cleanUpIDs_accesses :: "Access list" where
  "cleanUpIDs_accesses =
     iwClear_accesses @ cleanUpInstanceIDs_accesses @ cleanUpWlidsToContainerToImageIDMap_accesses"

text \<open>
  The accesses of the three handlers' loop bodies, along the branches of
  \<open>handleVulnerabilityManifestEvent\<close> (instance ids through \<^verbatim>\<open>listInstanceIDs\<close>, line 206),
  \<open>handleSBOMFilteredEvent\<close> (the field \<^verbatim>\<open>wh.hashedInstanceIDs\<close> itself, line 236) and
  \<open>handleSBOMEvent\<close>.
\<close>

definition handleVulnerabilityManifestEvent_accesses :: "WatchHandler \<Rightarrow> Event \<Rightarrow> Access list" where
  "handleVulnerabilityManifestEvent_accesses wh e =
     (if evType e = Deleted then []
      else case evObject e of
        VulnerabilityManifest obj withRelevancy \<Rightarrow>
          if withRelevancy then listInstanceIDs_accesses else iwLoad_accesses
      | _ \<Rightarrow> [])"

definition handleSBOMFilteredEvent_accesses :: "string \<Rightarrow> WatchHandler \<Rightarrow> Event \<Rightarrow> Access list" where
  "handleSBOMFilteredEvent_accesses wlidAnnotationKey wh e =
     (case evObject e of
        SBOMSPDXv2p3Filtered obj \<Rightarrow>
          if evType e = Deleted then []
          else [Read InstanceIDSet]
               @ (if metaName obj \<notin> set (hashedInstanceIDs wh) then []
                  else (case metaAnnotations obj wlidAnnotationKey of
                          None \<Rightarrow> []
                        | Some wlid \<Rightarrow> GetContainerToImageIDForWlid_accesses))
      | _ \<Rightarrow> [])"

definition handleSBOMEvent_accesses :: "Event \<Rightarrow> Access list" where
  "handleSBOMEvent_accesses event =
     (case evObject event of
        SBOMSPDXv2p3 obj \<Rightarrow> if evType event = Deleted then [] else iwLoad_accesses
      | _ \<Rightarrow> [])"

section \<open>The watch loops\<close>

text \<open>
  What a loop and its handler do that another party can observe: subscriptions, stops,
  listings, sleeps (in nanoseconds, as \<^verbatim>\<open>time.Duration\<close>), the goroutine that re-arms the
  unavailable signal, events forwarded to the handler, delete calls on the storage,
  commands given to the queue, errors logged.
\<close>

datatype WatchedKind = Pods | SBOMs | FilteredSBOMs | VulnerabilityManifests

datatype Action =
    Subscribe WatchedKind string
  | Stop
  | ListPods
  | Sleep nat
  | NotifyWatcherDown
  | Forward Event
  | DeleteCall string string
  | Emit ScanCommand
  | Log error

text \<open>Line 29: \<^verbatim>\<open>retryInterval = 3 * time.Second\<close>.\<close>

definition retryInterval :: nat where
  "retryInterval = 3 * 1000000000"





text \<open>
  \<^verbatim>\<open>VulnerabilityManifestWatch\<close> (lines 134-184), \<^verbatim>\<open>SBOMWatch\<close> (lines 289-346) and
  \<^verbatim>\<open>SBOMFilteredWatch\<close> (lines 353-410) are one loop up to the kind they watch and the
  handler they start. Each is several goroutines that meet on channels made without a
  capacity, so a send completes only when the other side receives:

  \<^item> the loop, which is either at its \<^verbatim>\<open>select\<close> or inside \<^verbatim>\<open>inputEvents <- event\<close>;
  \<^item> the handler (\<open>HandlerState\<close>), which is either at \<^verbatim>\<open>range\<close>, ready to receive the
    next event, or inside \<^verbatim>\<open>errorCh <- err\<close> or \<^verbatim>\<open>producedCommands <- cmd\<close>, or has
    returned, which closes the error channel; it returns only when its input channel is
    closed, and no loop closes it;
  \<^item> the goroutines started by \<^verbatim>\<open>notifyWatcherDown\<close> and the one started before the loop,
    each inside \<^verbatim>\<open>watcherDownCh <- struct{}{}\<close> until the loop receives the signal;
    \<open>pendingDown\<close> counts them.

  The loop keeps \<^verbatim>\<open>watcher\<close> (\<open>watcherSet\<close>: it is not nil; a refused subscription
  returns no watcher) and the channel it reads events from (\<open>stream\<close>): the channel made
  at the start, which nobody writes or closes, or the result channel of the last watcher
  obtained, which stays closed once it is closed.

  \<^verbatim>\<open>VulnerabilityManifestWatch\<close> has no command channel, and the handler of
  \<^verbatim>\<open>SBOMWatch\<close> is not given the one the loop reads: their handlers produce no command,
  so in these two loops the command case is never taken.

  Modelled from the spec: \<^verbatim>\<open>utils.AddCommandToChannel\<close> is not in watcher.go; it puts the
  command on the outbound queue, and is taken to return.
\<close>

datatype HandlerState = Receiving | SendingError error | SendingCommand ScanCommand | Returned

datatype StreamState = Unset | Live | Closed

record WatchLoop =
  watcherSet :: bool
  stream :: StreamState
  pendingDown :: nat
  handlerAt :: HandlerState
  blockedForward :: "Event option"


text \<open>
  The case a \<^verbatim>\<open>select\<close> takes, with what is received; \<open>None\<close> is a receive from a closed
  channel. For the unavailable signal the input is what the subscription attempt answers.
\<close>

datatype Selected =
    EventReceived "Event option"
  | CommandReceived "ScanCommand option"
  | ErrorReceived "error option"
  | WatcherUnavailable "error option"


text \<open>
  Where the handler stops after it has taken an event: the body of each handler sends at
  most once, an error or a command, and then returns to \<^verbatim>\<open>range\<close>.
\<close>

definition nextSend :: "Effects \<Rightarrow> HandlerState" where
  "nextSend did =
     (case errorSignals did of
        err # rest \<Rightarrow> SendingError err
      | [] \<Rightarrow> (case producedCommands did of
                 cmd # rest \<Rightarrow> SendingCommand cmd
               | [] \<Rightarrow> Receiving))"

text \<open>
  \<^verbatim>\<open>notifyWatcherDown\<close> (lines 150-153, 306-309, 370-373): one more goroutine sends the
  signal, and the loop sleeps.
\<close>

definition notifyWatcherDown :: "WatchLoop \<Rightarrow> WatchLoop \<times> Action list" where
  "notifyWatcherDown st =
     (st\<lparr>pendingDown := Suc (pendingDown st)\<rparr>, [NotifyWatcherDown, Sleep retryInterval])"

text \<open>
  The body of the \<^verbatim>\<open>select\<close> (lines 158-182, 314-344, 378-408) on the case taken. \<open>wh\<close>
  is the store as the handler finds it when it works on the event, \<open>handle\<close> the body of
  the handler's loop. An event is handed to the handler when the handler is at \<^verbatim>\<open>range\<close>;
  when it is inside a send of its own, the loop stays inside \<^verbatim>\<open>inputEvents <- event\<close>:
  the handler's send waits for the loop's \<^verbatim>\<open>select\<close> and the loop's send waits for the
  handler.
\<close>

definition watchSelect ::
  "WatchedKind \<Rightarrow> (WatchHandler \<Rightarrow> Event \<Rightarrow> Effects) \<Rightarrow> WatchHandler \<Rightarrow> Selected \<Rightarrow> WatchLoop
   \<Rightarrow> WatchLoop \<times> Action list" where
  "watchSelect kind handle wh selected st =
     (case selected of
        EventReceived (Some event) \<Rightarrow>
          (if handlerAt st = Receiving
           then (st\<lparr>handlerAt := nextSend (handle wh event)\<rparr>,
                 Forward event # map (\<lambda>(ns, name). DeleteCall ns name) (deleteCalls (handle wh event)))
           else (st\<lparr>blockedForward := Some event\<rparr>, []))
      | EventReceived None \<Rightarrow> notifyWatcherDown (st\<lparr>stream := Closed\<rparr>)
      | CommandReceived (Some cmd) \<Rightarrow> (st\<lparr>handlerAt := Receiving\<rparr>, [Emit cmd])
      | CommandReceived None \<Rightarrow> notifyWatcherDown st
      | ErrorReceived (Some err) \<Rightarrow> (st\<lparr>handlerAt := Receiving\<rparr>, [Log err])
      | ErrorReceived None \<Rightarrow> notifyWatcherDown st
      | WatcherUnavailable result \<Rightarrow>
          (let received = st\<lparr>pendingDown := pendingDown st - 1\<rparr>;
               acts = (if watcherSet st then [Stop] else []) @ [Subscribe kind []]
           in case result of
                Some err \<Rightarrow>
                  (case notifyWatcherDown (received\<lparr>watcherSet := False\<rparr>) of
                     (st', down) \<Rightarrow> (st', acts @ down))
              | None \<Rightarrow> (received\<lparr>watcherSet := True, stream := Live\<rparr>, acts)))"






section \<open>The store under concurrent use\<close>

text \<open>
  The handler is shared by the pod loop, the cleanup routine and the storage handlers.
  Each method of the store locks around its own body and no lock spans two methods, so
  what one goroutine does to the store is a sequence of operations, one per call, and
  the operations of the goroutines interleave.
\<close>

datatype StoreOp =
    ClearImageHashIndex
  | ClearInstanceIDSet
  | ClearWorkloadContainerIndex
  | AddInstanceID string
  | AddImageWorkloads string "string list"
  | AddContainerImage string string string

definition applyOp :: "Cluster \<Rightarrow> StoreOp \<Rightarrow> WatchHandler \<Rightarrow> WatchHandler" where
  "applyOp k op wh =
     (case op of
        ClearImageHashIndex \<Rightarrow> wh\<lparr>iwMap := iwClear\<rparr>
      | ClearInstanceIDSet \<Rightarrow> cleanUpInstanceIDs wh
      | ClearWorkloadContainerIndex \<Rightarrow> cleanUpWlidsToContainerToImageIDMap wh
      | AddInstanceID h \<Rightarrow> addToInstanceIDsList h wh
      | AddImageWorkloads imageID wlids \<Rightarrow> addToImageIDToWlidsMap k imageID wlids wh
      | AddContainerImage wlid containerName imageID \<Rightarrow>
          addToWlidsToContainerToImageIDMap wlid containerName imageID wh)"

definition isReset :: "StoreOp \<Rightarrow> bool" where
  "isReset op \<longleftrightarrow> op \<in> {ClearImageHashIndex, ClearInstanceIDSet, ClearWorkloadContainerIndex}"

text \<open>Lines 432-436: the three calls of \<^verbatim>\<open>cleanUpIDs\<close>, in order.\<close>

definition cleanUpIDs_ops :: "StoreOp list" where
  "cleanUpIDs_ops = [ClearImageHashIndex, ClearInstanceIDSet, ClearWorkloadContainerIndex]"

text \<open>Lines 494-542: the calls of \<^verbatim>\<open>buildIDs\<close> for one pod of the listing, in order.\<close>

definition buildPod_ops :: "Cluster \<Rightarrow> Pod \<Rightarrow> StoreOp list" where
  "buildPod_ops k pod =
     (if podPhase pod \<noteq> PodRunning then []
      else if \<not> list_ex csRunning (containerStatuses pod) then []
      else case getParentWorkloadForPod k pod of
        Inl err \<Rightarrow> []
      | Inr wl \<Rightarrow>
          (let parentWlid = GetWLID k (wlNamespace wl) (wlKind wl) (wlName wl);
               imgIDsToContainers = extractImageIDsToContainersFromPod pod
           in case GenerateInstanceIDFromPod k pod of
                Inl err \<Rightarrow> []
              | Inr instanceID \<Rightarrow>
                  map AddInstanceID instanceID
                  @ concat (map (\<lambda>(imgID, names).
                                   AddImageWorkloads imgID [parentWlid]
                                   # map (\<lambda>containerName. AddContainerImage parentWlid containerName imgID) names)
                                imgIDsToContainers)))"

definition buildIDs_ops :: "Cluster \<Rightarrow> PodList \<Rightarrow> StoreOp list" where
  "buildIDs_ops k podList = concat (map (buildPod_ops k) (items podList))"

text \<open>Lines 53-64: what one cleanup cycle does to the store.\<close>

definition cleanUp_ops :: "Cluster \<Rightarrow> error + PodList \<Rightarrow> StoreOp list" where
  "cleanUp_ops k listing =
     (case listing of
        Inl err \<Rightarrow> []
      | Inr podsList \<Rightarrow> cleanUpIDs_ops @ buildIDs_ops k podsList)"

text \<open>
  Lines 680-715: what the pod loop does to the store on one event, when it reads the
  store as \<open>wh\<close>.
\<close>

definition podDecision_ops :: "Cluster \<Rightarrow> WatchHandler \<Rightarrow> Pod \<Rightarrow> string \<Rightarrow> StoreOp list" where
  "podDecision_ops k wh pod parentWlid =
     (let newContainersToImageIDs = getNewContainerToImageIDsFromPod k wh pod in
      if length newContainersToImageIDs > 0 then
        concat (map (\<lambda>(container, imgID).
                       [AddImageWorkloads imgID [parentWlid], AddContainerImage parentWlid container imgID])
                    newContainersToImageIDs)
      else if isWlidInMap wh parentWlid then []
      else map (\<lambda>(container, imgID). AddContainerImage parentWlid container imgID)
               (ExtractContainersToImageIDsFromPod pod))"

definition handlePodEvent_ops :: "Cluster \<Rightarrow> WatchHandler \<Rightarrow> Event \<Rightarrow> StoreOp list" where
  "handlePodEvent_ops k wh event =
     (case getPodFromEventIfRunning k event of
        None \<Rightarrow> []
      | Some pod \<Rightarrow>
          (case getParentIDForPod k pod of
             Inl err \<Rightarrow> []
           | Inr parentWlid \<Rightarrow>
               podDecision_ops k wh pod parentWlid
               @ (case snd (podDecision k wh pod parentWlid) of
                    None \<Rightarrow> []
                  | Some cmd \<Rightarrow>
                      (case GenerateInstanceIDFromPod k pod of
                         Inl err \<Rightarrow> []
                       | Inr instanceID \<Rightarrow> map AddInstanceID instanceID))))"

text \<open>
  The store and the outbound queue (\<^verbatim>\<open>sessionObjChan\<close>, written through
  \<^verbatim>\<open>utils.AddCommandToChannel\<close> at lines 387 and 717), and one step of one goroutine:
  an operation of the cleanup routine (lines 98-99: it calls \<^verbatim>\<open>cleanUp\<close> and nothing else,
  the relevancy scan of line 101 is commented out in the source), an operation of the pod
  loop, or a command given to the queue by the pod loop or by the filtered SBOM loop. The
  storage handlers only read the store.
\<close>

record System =
  handler :: WatchHandler
  sessionObjChan :: "ScanCommand list"

datatype Step =
    CleanUpOp StoreOp
  | PodOp StoreOp
  | PodEmit ScanCommand
  | FilteredEmit ScanCommand

definition systemStep :: "Cluster \<Rightarrow> Step \<Rightarrow> System \<Rightarrow> System" where
  "systemStep k s sys =
     (case s of
        CleanUpOp op \<Rightarrow> sys\<lparr>handler := applyOp k op (handler sys)\<rparr>
      | PodOp op \<Rightarrow> sys\<lparr>handler := applyOp k op (handler sys)\<rparr>
      | PodEmit cmd \<Rightarrow> sys\<lparr>sessionObjChan := sessionObjChan sys @ [cmd]\<rparr>
      | FilteredEmit cmd \<Rightarrow> sys\<lparr>sessionObjChan := sessionObjChan sys @ [cmd]\<rparr>)"

definition systemRun :: "Cluster \<Rightarrow> Step list \<Rightarrow> System \<Rightarrow> System" where
  "systemRun k schedule sys = fold (systemStep k) schedule sys"

text \<open>The operations of the cleanup routine in a schedule, and the commands given in it.\<close>

fun cleanUpPart :: "Step list \<Rightarrow> StoreOp list" where
  "cleanUpPart [] = []"
| "cleanUpPart (CleanUpOp op # rest) = op # cleanUpPart rest"
| "cleanUpPart (s # rest) = cleanUpPart rest"

fun emitted :: "Step list \<Rightarrow> ScanCommand list" where
  "emitted [] = []"
| "emitted (PodEmit cmd # rest) = cmd # emitted rest"
| "emitted (FilteredEmit cmd # rest) = cmd # emitted rest"
| "emitted (s # rest) = emitted rest"

text \<open>
  A schedule in which one cleanup cycle runs from its first operation to its last while
  the pod loop works: the operations of the cleanup routine are those of the cycle, in
  order, and the pod loop, which calls no reset, adds what it adds in between.
\<close>

definition interleaves :: "Cluster \<Rightarrow> error + PodList \<Rightarrow> Step list \<Rightarrow> bool" where
  "interleaves k listing schedule \<longleftrightarrow>
     cleanUpPart schedule = cleanUp_ops k listing
     \<and> list_all (\<lambda>s. case s of PodOp op \<Rightarrow> \<not> isReset op | _ \<Rightarrow> True) schedule"

text \<open>A step that resets nothing: it adds to the store, or gives a command to the queue.\<close>

definition adds :: "Step \<Rightarrow> bool" where
  "adds s \<longleftrightarrow> (case s of CleanUpOp op \<Rightarrow> \<not> isReset op | PodOp op \<Rightarrow> \<not> isReset op | _ \<Rightarrow> True)"

text \<open>The steps of the pod loop on one event, when it reads the store as \<open>wh\<close>.\<close>

definition handlePodEvent_steps :: "Cluster \<Rightarrow> WatchHandler \<Rightarrow> Event \<Rightarrow> Step list" where
  "handlePodEvent_steps k wh event =
     map PodOp (handlePodEvent_ops k wh event) @ map PodEmit (snd (handlePodEvent k wh event))"

section \<open>Notions used to state the properties\<close>

text \<open>
  The container name and image reference of every container of the pod that reports
  Running state, in the order of the pod's status.
\<close>

definition runningPairs :: "Pod \<Rightarrow> (string \<times> string) list" where
  "runningPairs pod = map (\<lambda>cs. (csName cs, csImageID cs)) (filter csRunning (containerStatuses pod))"

text \<open>The (container, image) pairs held by a grouping of container names by image.\<close>

definition pairsOf :: "(string \<times> string list) list \<Rightarrow> (string \<times> string) list" where
  "pairsOf g = concat (map (\<lambda>(imageID, names). map (\<lambda>c. (c, imageID)) names) g)"

text \<open>
  The workload index after the pairs \<open>ps\<close> were written under \<open>wlid\<close>, one after the
  other, by \<open>addToWlidsToContainerToImageIDMap\<close>.
\<close>

definition wcPuts :: "string \<Rightarrow> (string \<times> string) list \<Rightarrow> (string \<rightharpoonup> (string \<rightharpoonup> string)) \<Rightarrow> (string \<rightharpoonup> (string \<rightharpoonup> string))" where
  "wcPuts wlid ps m =
     (if ps = [] then m
      else m(wlid \<mapsto> (case m wlid of None \<Rightarrow> Map.empty | Some x \<Rightarrow> x) ++ map_of (rev ps)))"

text \<open>
  Step 4 of the pipeline: a running container is new when the hash of its image is not
  a key of the ImageHashIndex.
\<close>

definition newContainer :: "Cluster \<Rightarrow> WatchHandler \<Rightarrow> ContainerStatus \<Rightarrow> bool" where
  "newContainer k wh cs \<longleftrightarrow> csRunning cs \<and> iwLoad (iwMap wh) (extractImageHash k (csImageID cs)) = None"

text \<open>
  The workload under which \<open>buildPod\<close> registers a pod, when it does: the pod is Running,
  one of its containers is running, its parent workload resolves and its instance ids are
  generated.
\<close>

definition registeredAs :: "Cluster \<Rightarrow> Pod \<Rightarrow> string option" where
  "registeredAs k pod =
     (if podPhase pod \<noteq> PodRunning \<or> \<not> list_ex csRunning (containerStatuses pod) then None
      else case getParentWorkloadForPod k pod of
        Inl err \<Rightarrow> None
      | Inr wl \<Rightarrow>
          (case GenerateInstanceIDFromPod k pod of
             Inl err \<Rightarrow> None
           | Inr ids \<Rightarrow> Some (GetWLID k (wlNamespace wl) (wlKind wl) (wlName wl))))"

section \<open>A concrete cluster\<close>

text \<open>
  The scenario of the specification: pod P1 in namespace N, owned by Deployment D, one
  container app with image repo/img@sha256:aaa. Every workload exists, every pod is owned
  by D, and the image hash is what follows the 16 characters of the repository prefix.
\<close>

definition exCluster :: Cluster where
  "exCluster =
     \<lparr>GetWorkload = (\<lambda>ns kind name. Inr \<lparr>wlNamespace = ns, wlKind = kind, wlName = name\<rparr>),
      NewWorkload = (\<lambda>pod. Inr \<lparr>wlNamespace = podNamespace pod, wlKind = ''Pod'', wlName = podName pod\<rparr>),
      CalculateWorkloadParentRecursive = (\<lambda>wl. (''Deployment'', ''D'', None)),
      GetWLID = (\<lambda>ns kind name. ns @ ''/'' @ kind @ ''/'' @ name),
      GenerateInstanceIDFromPod = (\<lambda>pod. Inr (map (\<lambda>cs. ''iid-'' @ csName cs) (containerStatuses pod))),
      extractImageHash = (\<lambda>imageID. drop 16 imageID)\<rparr>"

definition exApp :: ContainerStatus where
  "exApp = \<lparr>csName = ''app'', csImageID = ''repo/img@sha256:aaa'', csRunning = True\<rparr>"

definition exPod :: Pod where
  "exPod = \<lparr>podName = ''P1'', podNamespace = ''N'', podPhase = PodRunning, containerStatuses = [exApp]\<rparr>"

definition exEvent :: Event where
  "exEvent = \<lparr>evType = Modified, evObject = PodObject exPod\<rparr>"

definition exWlid :: string where
  "exWlid = ''N/Deployment/D''"

definition exEmpty :: WatchHandler where
  "exEmpty = \<lparr>iwMap = Map.empty, hashedInstanceIDs = [], wlidsToContainerToImageIDMap = Map.empty,
              currentPodListResourceVersion = ''1''\<rparr>"

text \<open>The image is known from another workload; then also the workload is known.\<close>

definition exKnownImage :: WatchHandler where
  "exKnownImage = exEmpty\<lparr>iwMap := [''aaa'' \<mapsto> {''N/Deployment/Other''}]\<rparr>"

definition exKnownWorkload :: WatchHandler where
  "exKnownWorkload =
     exKnownImage\<lparr>wlidsToContainerToImageIDMap := [exWlid \<mapsto> [''side'' \<mapsto> ''repo/img@sha256:aaa'']],
                  hashedInstanceIDs := [''iid-side'']\<rparr>"

text \<open>
  The workload became known through an earlier pod of the Deployment, which ran the same
  image in a container named side.
\<close>

definition exSide :: ContainerStatus where
  "exSide = \<lparr>csName = ''side'', csImageID = ''repo/img@sha256:aaa'', csRunning = True\<rparr>"

definition exSidePod :: Pod where
  "exSidePod = \<lparr>podName = ''P0'', podNamespace = ''N'', podPhase = PodRunning,
                containerStatuses = [exSide]\<rparr>"

definition exSideEvent :: Event where
  "exSideEvent = \<lparr>evType = Modified, evObject = PodObject exSidePod\<rparr>"

text \<open>Storage artifacts: one named by a hash and an instance id nobody holds, one known.\<close>

definition exOrphan :: ObjectMeta where
  "exOrphan = \<lparr>metaName = ''zzz'', metaNamespace = ''kubescape'', metaAnnotations = Map.empty\<rparr>"

definition exKept :: ObjectMeta where
  "exKept = \<lparr>metaName = ''aaa'', metaNamespace = ''kubescape'', metaAnnotations = Map.empty\<rparr>"

definition exStore :: WatchHandler where
  "exStore = exKnownWorkload\<lparr>hashedInstanceIDs := [''aaa'', ''bbb'']\<rparr>"

definition exAnnotated :: ObjectMeta where
  "exAnnotated = \<lparr>metaName = ''bbb'', metaNamespace = ''kubescape'',
                  metaAnnotations = [''wlid'' \<mapsto> ''N/Deployment/D'']\<rparr>"

definition exManifestAdded :: Event where
  "exManifestAdded = \<lparr>evType = Added, evObject = VulnerabilityManifest exOrphan True\<rparr>"

definition exManifestDeleted :: Event where
  "exManifestDeleted = \<lparr>evType = Deleted, evObject = VulnerabilityManifest exOrphan True\<rparr>"

definition exSBOMModified :: Event where
  "exSBOMModified = \<lparr>evType = Modified, evObject = SBOMSPDXv2p3 exKept\<rparr>"

definition exSBOMAdded :: Event where
  "exSBOMAdded = \<lparr>evType = Added, evObject = SBOMSPDXv2p3 exOrphan\<rparr>"

definition exSBOMDeleted :: Event where
  "exSBOMDeleted = \<lparr>evType = Deleted, evObject = SBOMSPDXv2p3 exOrphan\<rparr>"

definition exFilteredAdded :: Event where
  "exFilteredAdded = \<lparr>evType = Added, evObject = SBOMSPDXv2p3Filtered exAnnotated\<rparr>"

definition exFilteredOrphan :: Event where
  "exFilteredOrphan = \<lparr>evType = Modified, evObject = SBOMSPDXv2p3Filtered exOrphan\<rparr>"

definition exFilteredDeleted :: Event where
  "exFilteredDeleted = \<lparr>evType = Deleted, evObject = SBOMSPDXv2p3Filtered exAnnotated\<rparr>"

definition exStatusDeleted :: Event where
  "exStatusDeleted = \<lparr>evType = Deleted, evObject = Status\<rparr>"

text \<open>A rolling update: a second pod of the same Deployment runs the next image.\<close>

definition exAppNext :: ContainerStatus where
  "exAppNext = \<lparr>csName = ''app'', csImageID = ''repo/img@sha256:bbb'', csRunning = True\<rparr>"

definition exPodNext :: Pod where
  "exPodNext = \<lparr>podName = ''P2'', podNamespace = ''N'', podPhase = PodRunning,
                containerStatuses = [exAppNext]\<rparr>"

definition exListing :: PodList where
  "exListing = \<lparr>items = [exPod], resourceVersion = ''7''\<rparr>"

definition exRollingListing :: PodList where
  "exRollingListing = \<lparr>items = [exPod, exPodNext], resourceVersion = ''8''\<rparr>"

definition exNoPods :: PodList where
  "exNoPods = \<lparr>items = [], resourceVersion = ''9''\<rparr>"

text \<open>
  The store after the pod of the scenario was observed once; the same store after the
  first operation of a cleanup cycle; and a schedule in which the pod loop works on the
  event of the scenario again between that operation and the rest of the cycle.
\<close>

definition exRegistered :: WatchHandler where
  "exRegistered =
     \<lparr>iwMap = [''aaa'' \<mapsto> {exWlid}],
      hashedInstanceIDs = [''iid-app''],
      wlidsToContainerToImageIDMap = [exWlid \<mapsto> [''app'' \<mapsto> ''repo/img@sha256:aaa'']],
      currentPodListResourceVersion = ''1''\<rparr>"

definition exSystem :: System where
  "exSystem = \<lparr>handler = exRegistered, sessionObjChan = []\<rparr>"

definition exHalfReset :: WatchHandler where
  "exHalfReset = applyOp exCluster ClearImageHashIndex exRegistered"

definition exSchedule :: "Step list" where
  "exSchedule =
     CleanUpOp ClearImageHashIndex
     # handlePodEvent_steps exCluster exHalfReset exEvent
     @ map CleanUpOp (tl (cleanUp_ops exCluster (Inr exListing)))"

text \<open>What the constructor is given at start: one image of an old workload, one instance id.\<close>

definition exGiven :: "string \<rightharpoonup> string list" where
  "exGiven = [''zzz'' \<mapsto> [''N/Deployment/Old'']]"

definition exGivenIDs :: "string list" where
  "exGivenIDs = [''iid-old'']"




section \<open>Facts about the store and about what a pod reports\<close>

lemma pairsOf_Nil [simp]: "pairsOf [] = []"
  by (simp add: pairsOf_def)

lemma pairsOf_Cons [simp]: "pairsOf ((i, ns) # g) = map (\<lambda>c. (c, i)) ns @ pairsOf g"
  by (simp add: pairsOf_def)

lemma map_of_functional:
  assumes "\<And>c i i'. (c, i) \<in> set xs \<Longrightarrow> (c, i') \<in> set xs \<Longrightarrow> i = i'"
  shows "map_of xs c = Some i \<longleftrightarrow> (c, i) \<in> set xs"
proof
  assume "map_of xs c = Some i" then show "(c, i) \<in> set xs" by (rule map_of_SomeD)
next
  assume in_xs: "(c, i) \<in> set xs"
  then obtain i' where i': "map_of xs c = Some i'"
    by (metis weak_map_of_SomeI)
  then have "(c, i') \<in> set xs" by (rule map_of_SomeD)
  with in_xs assms have "i = i'" by blast
  with i' show "map_of xs c = Some i" by simp
qed

subsection \<open>Store operations, field by field\<close>

lemma addWC_fields [simp]:
  "iwMap (addToWlidsToContainerToImageIDMap w c i wh) = iwMap wh"
  "hashedInstanceIDs (addToWlidsToContainerToImageIDMap w c i wh) = hashedInstanceIDs wh"
  "currentPodListResourceVersion (addToWlidsToContainerToImageIDMap w c i wh) = currentPodListResourceVersion wh"
  by (simp_all add: addToWlidsToContainerToImageIDMap_def Let_def)

lemma addIW_fields [simp]:
  "wlidsToContainerToImageIDMap (addToImageIDToWlidsMap k i ws wh) = wlidsToContainerToImageIDMap wh"
  "hashedInstanceIDs (addToImageIDToWlidsMap k i ws wh) = hashedInstanceIDs wh"
  "currentPodListResourceVersion (addToImageIDToWlidsMap k i ws wh) = currentPodListResourceVersion wh"
  by (simp_all add: addToImageIDToWlidsMap_def)

lemma addInst_fields [simp]:
  "iwMap (addToInstanceIDsList h wh) = iwMap wh"
  "wlidsToContainerToImageIDMap (addToInstanceIDsList h wh) = wlidsToContainerToImageIDMap wh"
  "currentPodListResourceVersion (addToInstanceIDsList h wh) = currentPodListResourceVersion wh"
  by (simp_all add: addToInstanceIDsList_def)

lemma fold_addInst_fields [simp]:
  "iwMap (fold addToInstanceIDsList ids wh) = iwMap wh"
  "wlidsToContainerToImageIDMap (fold addToInstanceIDsList ids wh) = wlidsToContainerToImageIDMap wh"
  "currentPodListResourceVersion (fold addToInstanceIDsList ids wh) = currentPodListResourceVersion wh"
  by (induction ids rule: rev_induct) simp_all

lemma fold_addInst_set:
  "set (hashedInstanceIDs (fold addToInstanceIDsList ids wh)) = set (hashedInstanceIDs wh) \<union> set ids"
  by (induction ids rule: rev_induct) (auto simp: addToInstanceIDsList_def)

lemma fold_addInst_known:
  "set ids \<subseteq> set (hashedInstanceIDs wh) \<Longrightarrow> fold addToInstanceIDsList ids wh = wh"
  by (induction ids rule: rev_induct) (auto simp: addToInstanceIDsList_def)

subsection \<open>Writes to the workload index\<close>

lemma wcPuts_Nil [simp]: "wcPuts wlid [] m = m"
  by (simp add: wcPuts_def)

lemma addWC_wcPuts:
  "wlidsToContainerToImageIDMap (addToWlidsToContainerToImageIDMap wlid c i wh)
   = wcPuts wlid [(c, i)] (wlidsToContainerToImageIDMap wh)"
  by (simp add: addToWlidsToContainerToImageIDMap_def Let_def wcPuts_def)

lemma wcPuts_snoc:
  "wcPuts wlid [(c, i)] (wcPuts wlid ps m) = wcPuts wlid (ps @ [(c, i)]) m"
  by (simp add: wcPuts_def)

lemma wcPuts_append:
  "wcPuts wlid qs (wcPuts wlid ps m) = wcPuts wlid (ps @ qs) m"
proof (induction qs rule: rev_induct)
  case Nil
  then show ?case by simp
next
  case (snoc q qs)
  obtain c i where q: "q = (c, i)" by (cases q)
  have "wcPuts wlid (qs @ [q]) (wcPuts wlid ps m)
        = wcPuts wlid [(c, i)] (wcPuts wlid qs (wcPuts wlid ps m))"
    by (simp only: q wcPuts_snoc)
  also have "\<dots> = wcPuts wlid [(c, i)] (wcPuts wlid (ps @ qs) m)"
    by (simp only: snoc.IH)
  also have "\<dots> = wcPuts wlid (ps @ qs @ [q]) m"
    by (simp only: q wcPuts_snoc append_assoc)
  finally show ?case .
qed

lemma iwAdd_apply:
  "iwAdd m h' [w] h =
     (if h = h' then Some ((case m h of None \<Rightarrow> {} | Some s \<Rightarrow> s) \<union> {w}) else m h)"
  by (simp add: iwAdd_def split: option.splits)

lemma addIW_iw:
  "iwMap (addToImageIDToWlidsMap k i [w] wh) h =
     (if h = extractImageHash k i then Some ((case iwMap wh h of None \<Rightarrow> {} | Some s \<Rightarrow> s) \<union> {w})
      else iwMap wh h)"
  by (simp add: addToImageIDToWlidsMap_def iwAdd_apply)

lemma regNew_fields [simp]:
  "hashedInstanceIDs (fold (\<lambda>(container, imgID) w.
       addToWlidsToContainerToImageIDMap wlid container imgID
         (addToImageIDToWlidsMap k imgID [wlid] w)) ps wh) = hashedInstanceIDs wh"
  "currentPodListResourceVersion (fold (\<lambda>(container, imgID) w.
       addToWlidsToContainerToImageIDMap wlid container imgID
         (addToImageIDToWlidsMap k imgID [wlid] w)) ps wh) = currentPodListResourceVersion wh"
  by (induction ps rule: rev_induct) (simp_all add: case_prod_unfold)

lemma regNew_wc:
  "wlidsToContainerToImageIDMap (fold (\<lambda>(container, imgID) w.
       addToWlidsToContainerToImageIDMap wlid container imgID
         (addToImageIDToWlidsMap k imgID [wlid] w)) ps wh)
   = wcPuts wlid ps (wlidsToContainerToImageIDMap wh)"
proof (induction ps rule: rev_induct)
  case Nil
  then show ?case by simp
next
  case (snoc p ps)
  obtain c i where p: "p = (c, i)" by (cases p)
  show ?case
    by (simp add: p addWC_wcPuts snoc.IH wcPuts_snoc)
qed

lemma regNew_iw:
  "iwMap (fold (\<lambda>(container, imgID) w.
       addToWlidsToContainerToImageIDMap wlid container imgID
         (addToImageIDToWlidsMap k imgID [wlid] w)) ps wh) h
   = (if h \<in> (\<lambda>p. extractImageHash k (snd p)) ` set ps
      then Some ((case iwMap wh h of None \<Rightarrow> {} | Some s \<Rightarrow> s) \<union> {wlid})
      else iwMap wh h)"
proof (induction ps rule: rev_induct)
  case Nil
  then show ?case by simp
next
  case (snoc p ps)
  obtain c i where p: "p = (c, i)" by (cases p)
  show ?case
  proof (cases "h = extractImageHash k i")
    case True
    with snoc.IH show ?thesis by (auto simp add: p addIW_iw split: if_splits)
  next
    case False
    then show ?thesis by (simp add: p addIW_iw snoc.IH image_iff)
  qed
qed

lemma regAll_fields [simp]:
  "iwMap (fold (\<lambda>(container, imgID) w.
       addToWlidsToContainerToImageIDMap wlid container imgID w) ps wh) = iwMap wh"
  "hashedInstanceIDs (fold (\<lambda>(container, imgID) w.
       addToWlidsToContainerToImageIDMap wlid container imgID w) ps wh) = hashedInstanceIDs wh"
  "currentPodListResourceVersion (fold (\<lambda>(container, imgID) w.
       addToWlidsToContainerToImageIDMap wlid container imgID w) ps wh) = currentPodListResourceVersion wh"
  by (induction ps rule: rev_induct) (simp_all add: case_prod_unfold)

lemma regAll_wc:
  "wlidsToContainerToImageIDMap (fold (\<lambda>(container, imgID) w.
       addToWlidsToContainerToImageIDMap wlid container imgID w) ps wh)
   = wcPuts wlid ps (wlidsToContainerToImageIDMap wh)"
proof (induction ps rule: rev_induct)
  case Nil
  then show ?case by simp
next
  case (snoc p ps)
  obtain c i where p: "p = (c, i)" by (cases p)
  show ?case
    by (simp add: p addWC_wcPuts snoc.IH wcPuts_snoc)
qed

subsection \<open>What the extraction functions hold\<close>

lemma extract_step_pairs:
  assumes "distinct (map fst m)"
  shows "set (pairsOf (AList.update i ((case map_of m i of None \<Rightarrow> [] | Some ns \<Rightarrow> ns) @ [c]) m))
         = insert (c, i) (set (pairsOf m))"
  using assms
proof (induction m)
  case Nil
  then show ?case by simp
next
  case (Cons a m)
  obtain i' ns where a: "a = (i', ns)" by (cases a)
  show ?case
  proof (cases "i' = i")
    case True
    then show ?thesis using Cons.prems by (auto simp: a)
  next
    case False
    then show ?thesis using Cons by (auto simp: a)
  qed
qed

lemma extract_pairs_aux:
  assumes "distinct (map fst m)"
  shows "distinct (map fst (fold (\<lambda>cs m.
            if csRunning cs
            then AList.update (csImageID cs)
                   ((case map_of m (csImageID cs) of None \<Rightarrow> [] | Some names \<Rightarrow> names) @ [csName cs]) m
            else m) css m))
       \<and> set (pairsOf (fold (\<lambda>cs m.
            if csRunning cs
            then AList.update (csImageID cs)
                   ((case map_of m (csImageID cs) of None \<Rightarrow> [] | Some names \<Rightarrow> names) @ [csName cs]) m
            else m) css m))
         = set (pairsOf m) \<union> set (map (\<lambda>cs. (csName cs, csImageID cs)) (filter csRunning css))"
  using assms
proof (induction css rule: rev_induct)
  case Nil
  then show ?case by simp
next
  case (snoc cs css)
  then show ?case
    by (auto simp: distinct_update extract_step_pairs)
qed

lemma extract_pairs:
  "set (pairsOf (extractImageIDsToContainersFromPod pod)) = set (runningPairs pod)"
  using extract_pairs_aux [of "[]" "containerStatuses pod"]
  by (simp add: extractImageIDsToContainersFromPod_def runningPairs_def)

lemma fold_update_map_of:
  "map_of (fold (\<lambda>container acc. AList.update container i acc) names acc)
     = map_of acc ++ map_of (rev (map (\<lambda>c. (c, i)) names))"
  by (induction names rule: rev_induct) (simp_all add: update_conv' del: fun_upd_apply)

lemma fold_update_distinct:
  "distinct (map fst acc) \<Longrightarrow>
   distinct (map fst (fold (\<lambda>container acc. AList.update container i acc) names acc))"
  by (induction names rule: rev_induct) (simp_all add: distinct_update)

lemma fold_skip: "fold (\<lambda>container acc. acc) names acc = acc"
  by (induction names) simp_all

lemma new_inner_map_of:
  "map_of (fold (\<lambda>container acc. if Q then AList.update container i acc else acc) names acc)
     = map_of acc ++ map_of (rev (filter (\<lambda>p. Q) (map (\<lambda>c. (c, i)) names)))"
  by (cases Q) (simp_all add: fold_update_map_of fold_skip)

lemma new_inner_distinct:
  "distinct (map fst acc) \<Longrightarrow>
   distinct (map fst (fold (\<lambda>container acc. if Q then AList.update container i acc else acc) names acc))"
  by (cases Q) (simp_all add: fold_update_distinct fold_skip)

lemma new_outer_map_of:
  "map_of (fold (\<lambda>(imageID, names) acc.
            fold (\<lambda>container acc.
                   if N imageID then AList.update container imageID acc else acc)
                 names acc) g acc0)
     = map_of acc0 ++ map_of (rev (filter (\<lambda>p. N (snd p)) (pairsOf g)))"
proof (induction g rule: rev_induct)
  case Nil
  then show ?case by simp
next
  case (snoc a g)
  obtain i ns where a: "a = (i, ns)" by (cases a)
  have flt: "filter (\<lambda>p. N (snd p)) (map (\<lambda>c. (c, i)) ns) = filter (\<lambda>p. N i) (map (\<lambda>c. (c, i)) ns)"
    by (induction ns) simp_all
  have po: "pairsOf (g @ [(i, ns)]) = pairsOf g @ map (\<lambda>c. (c, i)) ns"
    by (simp add: pairsOf_def)
  show ?case
    by (simp add: a po flt new_inner_map_of snoc.IH)
qed

lemma new_outer_distinct:
  "distinct (map fst acc0) \<Longrightarrow>
   distinct (map fst (fold (\<lambda>(imageID, names) acc.
            fold (\<lambda>container acc.
                   if N imageID then AList.update container imageID acc else acc)
                 names acc) g acc0))"
proof (induction g rule: rev_induct)
  case Nil
  then show ?case by simp
next
  case (snoc a g)
  obtain i ns where a: "a = (i, ns)" by (cases a)
  show ?case
    using snoc by (simp add: a new_inner_distinct)
qed

lemma getNew_map_of:
  "map_of (getNewContainerToImageIDsFromPod k wh pod)
   = map_of (rev (filter (\<lambda>p. iwMap wh (extractImageHash k (snd p)) = None)
                         (pairsOf (extractImageIDsToContainersFromPod pod))))"
  by (simp add: getNewContainerToImageIDsFromPod_def iwLoad_def new_outer_map_of)

lemma getNew_distinct:
  "distinct (map fst (getNewContainerToImageIDsFromPod k wh pod))"
  by (simp add: getNewContainerToImageIDsFromPod_def iwLoad_def new_outer_distinct)

lemma getNew_empty_iff:
  "getNewContainerToImageIDsFromPod k wh pod = []
   \<longleftrightarrow> (\<forall>p \<in> set (runningPairs pod). iwMap wh (extractImageHash k (snd p)) \<noteq> None)"
proof -
  have "getNewContainerToImageIDsFromPod k wh pod = []
        \<longleftrightarrow> map_of (getNewContainerToImageIDsFromPod k wh pod) = Map.empty"
    by (simp add: map_of_eq_empty_iff)
  also have "\<dots> \<longleftrightarrow> filter (\<lambda>p. iwMap wh (extractImageHash k (snd p)) = None)
                         (pairsOf (extractImageIDsToContainersFromPod pod)) = []"
    by (simp add: getNew_map_of map_of_eq_empty_iff)
  also have "\<dots> \<longleftrightarrow> (\<forall>p \<in> set (pairsOf (extractImageIDsToContainersFromPod pod)).
                         iwMap wh (extractImageHash k (snd p)) \<noteq> None)"
    by (simp add: filter_empty_conv)
  finally show ?thesis by (simp add: extract_pairs)
qed

lemma runningPairs_functional:
  assumes "distinct (map csName (filter csRunning (containerStatuses pod)))"
  shows "(c, i) \<in> set (runningPairs pod) \<Longrightarrow> (c, i') \<in> set (runningPairs pod) \<Longrightarrow> i = i'"
proof -
  have "map fst (runningPairs pod) = map csName (filter csRunning (containerStatuses pod))"
    by (simp add: runningPairs_def comp_def)
  with assms have "distinct (map fst (runningPairs pod))" by simp
  then show "(c, i) \<in> set (runningPairs pod) \<Longrightarrow> (c, i') \<in> set (runningPairs pod) \<Longrightarrow> i = i'"
    by (rule eq_key_imp_eq_value)
qed

lemma getNew_lookup:
  assumes "distinct (map csName (filter csRunning (containerStatuses pod)))"
  shows "map_of (getNewContainerToImageIDsFromPod k wh pod) c = Some i
         \<longleftrightarrow> (c, i) \<in> set (runningPairs pod) \<and> iwMap wh (extractImageHash k i) = None"
proof -
  let ?F = "filter (\<lambda>p. iwMap wh (extractImageHash k (snd p)) = None)
                   (pairsOf (extractImageIDsToContainersFromPod pod))"
  have fn: "\<And>c i i'. (c, i) \<in> set (rev ?F) \<Longrightarrow> (c, i') \<in> set (rev ?F) \<Longrightarrow> i = i'"
    using runningPairs_functional [OF assms] by (simp add: extract_pairs) blast
  have "map_of (rev ?F) c = Some i \<longleftrightarrow> (c, i) \<in> set (rev ?F)"
    using fn by (rule map_of_functional)
  then show ?thesis by (simp add: getNew_map_of extract_pairs)
qed

lemma getNew_set:
  assumes "distinct (map csName (filter csRunning (containerStatuses pod)))"
  shows "(c, i) \<in> set (getNewContainerToImageIDsFromPod k wh pod)
         \<longleftrightarrow> (c, i) \<in> set (runningPairs pod) \<and> iwMap wh (extractImageHash k i) = None"
  using getNew_lookup [OF assms] getNew_distinct by (simp add: map_of_eq_Some_iff)

subsection \<open>The full container set\<close>

lemma extractC2I_map_of:
  "map_of (ExtractContainersToImageIDsFromPod pod) = map_of (rev (runningPairs pod))
   \<and> distinct (map fst (ExtractContainersToImageIDsFromPod pod))"
proof -
  have "\<And>acc. map_of (fold (\<lambda>cs m. if csRunning cs then AList.update (csName cs) (csImageID cs) m else m) css acc)
         = map_of acc ++ map_of (rev (map (\<lambda>cs. (csName cs, csImageID cs)) (filter csRunning css)))
       \<and> (distinct (map fst acc) \<longrightarrow>
            distinct (map fst (fold (\<lambda>cs m. if csRunning cs then AList.update (csName cs) (csImageID cs) m else m) css acc)))"
    for css :: "ContainerStatus list"
    by (induction css rule: rev_induct) (simp_all add: update_conv' distinct_update)
  from this [of "containerStatuses pod" "[]"] show ?thesis
    by (simp add: ExtractContainersToImageIDsFromPod_def runningPairs_def)
qed

lemma extractC2I_lookup:
  assumes "distinct (map csName (filter csRunning (containerStatuses pod)))"
  shows "map_of (ExtractContainersToImageIDsFromPod pod) c = Some i \<longleftrightarrow> (c, i) \<in> set (runningPairs pod)"
proof -
  have fn: "\<And>c i i'. (c, i) \<in> set (rev (runningPairs pod)) \<Longrightarrow> (c, i') \<in> set (rev (runningPairs pod)) \<Longrightarrow> i = i'"
    using runningPairs_functional [OF assms] by simp
  have "map_of (rev (runningPairs pod)) c = Some i \<longleftrightarrow> (c, i) \<in> set (rev (runningPairs pod))"
    using fn by (rule map_of_functional)
  then show ?thesis by (simp add: extractC2I_map_of)
qed

lemma runningPairs_iff:
  "(c, i) \<in> set (runningPairs pod)
   \<longleftrightarrow> (\<exists>cs \<in> set (containerStatuses pod). csRunning cs \<and> csName cs = c \<and> csImageID cs = i)"
  by (auto simp: runningPairs_def)

lemma getNew_set_new:
  assumes "distinct (map csName (filter csRunning (containerStatuses pod)))"
  shows "(c, i) \<in> set (getNewContainerToImageIDsFromPod k wh pod)
         \<longleftrightarrow> (\<exists>cs \<in> set (containerStatuses pod). newContainer k wh cs \<and> csName cs = c \<and> csImageID cs = i)"
  by (auto simp: getNew_set [OF assms] runningPairs_iff newContainer_def iwLoad_def)

lemma getNew_empty_new:
  "getNewContainerToImageIDsFromPod k wh pod = []
   \<longleftrightarrow> \<not> (\<exists>cs \<in> set (containerStatuses pod). newContainer k wh cs)"
  by (auto simp: getNew_empty_iff runningPairs_def newContainer_def iwLoad_def)

lemma wcPuts_other: "w \<noteq> wlid \<Longrightarrow> wcPuts wlid ps m w = m w"
  by (simp add: wcPuts_def)

lemma wcPuts_inner:
  "(case wcPuts wlid ps m wlid of None \<Rightarrow> Map.empty | Some x \<Rightarrow> x)
   = (case m wlid of None \<Rightarrow> Map.empty | Some x \<Rightarrow> x) ++ map_of (rev ps)"
  by (simp add: wcPuts_def)

lemma map_add_rev_lookup:
  assumes "distinct (map fst ps)"
  shows "(m ++ map_of (rev ps)) c = (case map_of ps c of None \<Rightarrow> m c | Some i \<Rightarrow> Some i)"
proof -
  have d: "distinct (map fst (rev ps))" using assms by (simp add: rev_map [symmetric])
  have "map_of (rev ps) c = map_of ps c"
  proof (cases "map_of ps c")
    case None
    then have "c \<notin> fst ` set ps" by (simp add: map_of_eq_None_iff)
    then have "c \<notin> fst ` set (rev ps)" by simp
    then have "map_of (rev ps) c = None" by (simp add: map_of_eq_None_iff)
    with None show ?thesis by simp
  next
    case (Some i)
    then have "(c, i) \<in> set ps" by (rule map_of_SomeD)
    then have "(c, i) \<in> set (rev ps)" by simp
    with d have "map_of (rev ps) c = Some i" by (simp add: map_of_eq_Some_iff)
    with Some show ?thesis by simp
  qed
  then show ?thesis by (simp add: map_add_def split: option.splits)
qed

lemma handlePodEvent_unfold:
  assumes "getPodFromEventIfRunning k event = Some pod"
      and "getParentIDForPod k pod = Inr wlid"
  shows "handlePodEvent k wh event =
           (case podDecision k wh pod wlid of
              (wh', None) \<Rightarrow> (wh', [])
            | (wh', Some cmd) \<Rightarrow>
                (case GenerateInstanceIDFromPod k pod of
                   Inl err \<Rightarrow> (wh', [])
                 | Inr instanceID \<Rightarrow> (fold addToInstanceIDsList instanceID wh', [cmd])))"
  using assms by (simp add: handlePodEvent_def)

lemma handlePodEvent_indices:
  assumes "getPodFromEventIfRunning k event = Some pod"
      and "getParentIDForPod k pod = Inr wlid"
  shows "iwMap (fst (handlePodEvent k wh event)) = iwMap (fst (podDecision k wh pod wlid))"
    and "wlidsToContainerToImageIDMap (fst (handlePodEvent k wh event))
         = wlidsToContainerToImageIDMap (fst (podDecision k wh pod wlid))"
    and "GetContainerToImageIDForWlid (fst (handlePodEvent k wh event)) w
         = GetContainerToImageIDForWlid (fst (podDecision k wh pod wlid)) w"
  by (simp_all add: handlePodEvent_unfold [OF assms] GetContainerToImageIDForWlid_def
        split: prod.splits option.splits sum.splits)

lemma handlePodEvent_emits:
  assumes "getPodFromEventIfRunning k event = Some pod"
      and "getParentIDForPod k pod = Inr wlid"
  shows "snd (handlePodEvent k wh event) =
           (case snd (podDecision k wh pod wlid) of
              None \<Rightarrow> []
            | Some cmd \<Rightarrow> if isl (GenerateInstanceIDFromPod k pod) then [] else [cmd])"
  by (simp add: handlePodEvent_unfold [OF assms] split: prod.splits option.splits sum.splits)

lemma podDecision_new:
  assumes "\<exists>cs \<in> set (containerStatuses pod). newContainer k wh cs"
  shows "podDecision k wh pod wlid =
           (fold (\<lambda>(container, imgID) w.
                    addToWlidsToContainerToImageIDMap wlid container imgID
                      (addToImageIDToWlidsMap k imgID [wlid] w))
                 (getNewContainerToImageIDsFromPod k wh pod) wh,
            Some (getImageScanCommand wlid (map_of (getNewContainerToImageIDsFromPod k wh pod))))"
proof -
  have "getNewContainerToImageIDsFromPod k wh pod \<noteq> []"
    using assms by (simp add: getNew_empty_new)
  then show ?thesis by (simp add: podDecision_def Let_def)
qed

lemma podDecision_duplicate:
  assumes "\<not> (\<exists>cs \<in> set (containerStatuses pod). newContainer k wh cs)"
      and "isWlidInMap wh wlid"
  shows "podDecision k wh pod wlid = (wh, None)"
proof -
  have "getNewContainerToImageIDsFromPod k wh pod = []"
    using assms(1) by (simp add: getNew_empty_new)
  then show ?thesis using assms(2) by (simp add: podDecision_def Let_def)
qed

lemma podDecision_first_sighting:
  assumes "\<not> (\<exists>cs \<in> set (containerStatuses pod). newContainer k wh cs)"
      and "\<not> isWlidInMap wh wlid"
  shows "podDecision k wh pod wlid =
           (fold (\<lambda>(container, imgID) w.
                    addToWlidsToContainerToImageIDMap wlid container imgID w)
                 (ExtractContainersToImageIDsFromPod pod) wh,
            Some (getImageScanCommand wlid (map_of (ExtractContainersToImageIDsFromPod pod))))"
proof -
  have "getNewContainerToImageIDsFromPod k wh pod = []"
    using assms(1) by (simp add: getNew_empty_new)
  then show ?thesis using assms(2) by (simp add: podDecision_def Let_def)
qed

lemma GetC2I_wcPuts:
  assumes "wlidsToContainerToImageIDMap wh' = wcPuts wlid ps (wlidsToContainerToImageIDMap wh)"
      and "distinct (map fst ps)"
  shows "GetContainerToImageIDForWlid wh' wlid c
         = (case map_of ps c of None \<Rightarrow> GetContainerToImageIDForWlid wh wlid c | Some i \<Rightarrow> Some i)"
proof -
  have "GetContainerToImageIDForWlid wh' wlid
        = GetContainerToImageIDForWlid wh wlid ++ map_of (rev ps)"
    by (simp only: GetContainerToImageIDForWlid_def assms(1) wcPuts_inner)
  then show ?thesis by (simp only: map_add_rev_lookup [OF assms(2)])
qed

text \<open>Branch 1.\<close>

lemma new_branch_registered:
  assumes names: "distinct (map csName (filter csRunning (containerStatuses pod)))"
      and cs: "cs \<in> set (containerStatuses pod)" "newContainer k wh cs"
  shows "iwMap (fst (podDecision k wh pod wlid)) (extractImageHash k (csImageID cs)) = Some {wlid}"
    and "GetContainerToImageIDForWlid (fst (podDecision k wh pod wlid)) wlid (csName cs) = Some (csImageID cs)"
proof -
  let ?new = "getNewContainerToImageIDsFromPod k wh pod"
  have ex: "\<exists>cs \<in> set (containerStatuses pod). newContainer k wh cs" using cs by blast
  have mem: "(csName cs, csImageID cs) \<in> set ?new"
    using cs by (auto simp: getNew_set_new [OF names])
  have none: "iwMap wh (extractImageHash k (csImageID cs)) = None"
    using cs(2) by (simp add: newContainer_def iwLoad_def)
  have "extractImageHash k (csImageID cs) \<in> (\<lambda>p. extractImageHash k (snd p)) ` set ?new"
    using mem by force
  then show "iwMap (fst (podDecision k wh pod wlid)) (extractImageHash k (csImageID cs)) = Some {wlid}"
    by (simp add: podDecision_new [OF ex] regNew_iw none)
  have "map_of ?new (csName cs) = Some (csImageID cs)"
    using mem getNew_distinct by (simp add: map_of_eq_Some_iff)
  then show "GetContainerToImageIDForWlid (fst (podDecision k wh pod wlid)) wlid (csName cs) = Some (csImageID cs)"
    using GetC2I_wcPuts [OF _ getNew_distinct, of "fst (podDecision k wh pod wlid)" wlid k wh pod wh "csName cs"]
    by (simp add: podDecision_new [OF ex] regNew_wc)
qed

lemma new_branch_other_hash:
  assumes names: "distinct (map csName (filter csRunning (containerStatuses pod)))"
      and ex: "\<exists>cs \<in> set (containerStatuses pod). newContainer k wh cs"
      and h: "\<forall>cs \<in> set (containerStatuses pod). newContainer k wh cs \<longrightarrow> extractImageHash k (csImageID cs) \<noteq> h"
  shows "iwMap (fst (podDecision k wh pod wlid)) h = iwMap wh h"
proof -
  have "h \<notin> (\<lambda>p. extractImageHash k (snd p)) ` set (getNewContainerToImageIDsFromPod k wh pod)"
    using h by (auto simp: getNew_set_new [OF names])
  then show ?thesis by (simp add: podDecision_new [OF ex] regNew_iw)
qed

lemma new_branch_other_container:
  assumes names: "distinct (map csName (filter csRunning (containerStatuses pod)))"
      and ex: "\<exists>cs \<in> set (containerStatuses pod). newContainer k wh cs"
      and c: "\<forall>cs \<in> set (containerStatuses pod). newContainer k wh cs \<longrightarrow> csName cs \<noteq> c"
  shows "GetContainerToImageIDForWlid (fst (podDecision k wh pod wlid)) wlid c
         = GetContainerToImageIDForWlid wh wlid c"
proof -
  have "c \<notin> fst ` set (getNewContainerToImageIDsFromPod k wh pod)"
    using c by (auto simp: getNew_set_new [OF names])
  then have "map_of (getNewContainerToImageIDsFromPod k wh pod) c = None"
    by (simp add: map_of_eq_None_iff)
  then show ?thesis
    using GetC2I_wcPuts [OF _ getNew_distinct, of "fst (podDecision k wh pod wlid)" wlid k wh pod wh c]
    by (simp add: podDecision_new [OF ex] regNew_wc)
qed

lemma new_branch_other_workload:
  assumes ex: "\<exists>cs \<in> set (containerStatuses pod). newContainer k wh cs"
      and w: "w \<noteq> wlid"
  shows "wlidsToContainerToImageIDMap (fst (podDecision k wh pod wlid)) w
         = wlidsToContainerToImageIDMap wh w"
  by (simp add: podDecision_new [OF ex] regNew_wc wcPuts_other [OF w])

lemma new_branch_command:
  assumes names: "distinct (map csName (filter csRunning (containerStatuses pod)))"
      and ex: "\<exists>cs \<in> set (containerStatuses pod). newContainer k wh cs"
  shows "\<exists>m. snd (podDecision k wh pod wlid) = Some \<lparr>targetWorkload = wlid, containers = m\<rparr>
           \<and> (\<forall>c i. m c = Some i \<longleftrightarrow>
                 (\<exists>cs \<in> set (containerStatuses pod). newContainer k wh cs \<and> csName cs = c \<and> csImageID cs = i))"
proof -
  let ?new = "getNewContainerToImageIDsFromPod k wh pod"
  have "snd (podDecision k wh pod wlid) = Some \<lparr>targetWorkload = wlid, containers = map_of ?new\<rparr>"
    by (simp add: podDecision_new [OF ex] getImageScanCommand_def)
  moreover have "\<forall>c i. map_of ?new c = Some i \<longleftrightarrow>
                 (\<exists>cs \<in> set (containerStatuses pod). newContainer k wh cs \<and> csName cs = c \<and> csImageID cs = i)"
    using getNew_distinct [of k wh pod] by (simp add: map_of_eq_Some_iff getNew_set_new [OF names])
  ultimately show ?thesis by blast
qed

text \<open>Branch 3.\<close>

lemma first_branch_iw:
  assumes "\<not> (\<exists>cs \<in> set (containerStatuses pod). newContainer k wh cs)" "\<not> isWlidInMap wh wlid"
  shows "iwMap (fst (podDecision k wh pod wlid)) = iwMap wh"
  by (simp add: podDecision_first_sighting [OF assms])

lemma first_branch_other_workload:
  assumes "\<not> (\<exists>cs \<in> set (containerStatuses pod). newContainer k wh cs)" "\<not> isWlidInMap wh wlid"
      and w: "w \<noteq> wlid"
  shows "wlidsToContainerToImageIDMap (fst (podDecision k wh pod wlid)) w
         = wlidsToContainerToImageIDMap wh w"
  by (simp add: podDecision_first_sighting [OF assms(1,2)] regAll_wc wcPuts_other [OF w])

lemma first_branch_containers:
  assumes names: "distinct (map csName (filter csRunning (containerStatuses pod)))"
      and no: "\<not> (\<exists>cs \<in> set (containerStatuses pod). newContainer k wh cs)" "\<not> isWlidInMap wh wlid"
  shows "GetContainerToImageIDForWlid (fst (podDecision k wh pod wlid)) wlid c = Some i
         \<longleftrightarrow> (\<exists>cs \<in> set (containerStatuses pod). csRunning cs \<and> csName cs = c \<and> csImageID cs = i)"
proof -
  have d: "distinct (map fst (ExtractContainersToImageIDsFromPod pod))"
    by (simp add: extractC2I_map_of)
  have old: "GetContainerToImageIDForWlid wh wlid c = None"
    using no(2) by (simp add: GetContainerToImageIDForWlid_def isWlidInMap_def)
  have "GetContainerToImageIDForWlid (fst (podDecision k wh pod wlid)) wlid c
        = map_of (ExtractContainersToImageIDsFromPod pod) c"
    using GetC2I_wcPuts [OF _ d, of "fst (podDecision k wh pod wlid)" wlid wh c]
    by (simp add: podDecision_first_sighting [OF no] regAll_wc old split: option.splits)
  then show ?thesis
    by (simp add: extractC2I_lookup [OF names] runningPairs_iff)
qed

lemma first_branch_command:
  assumes names: "distinct (map csName (filter csRunning (containerStatuses pod)))"
      and no: "\<not> (\<exists>cs \<in> set (containerStatuses pod). newContainer k wh cs)" "\<not> isWlidInMap wh wlid"
  shows "\<exists>m. snd (podDecision k wh pod wlid) = Some \<lparr>targetWorkload = wlid, containers = m\<rparr>
           \<and> (\<forall>c i. m c = Some i \<longleftrightarrow>
                 (\<exists>cs \<in> set (containerStatuses pod). csRunning cs \<and> csName cs = c \<and> csImageID cs = i))"
proof -
  let ?all = "ExtractContainersToImageIDsFromPod pod"
  have "snd (podDecision k wh pod wlid) = Some \<lparr>targetWorkload = wlid, containers = map_of ?all\<rparr>"
    by (simp add: podDecision_first_sighting [OF no] getImageScanCommand_def)
  moreover have "\<forall>c i. map_of ?all c = Some i \<longleftrightarrow>
                 (\<exists>cs \<in> set (containerStatuses pod). csRunning cs \<and> csName cs = c \<and> csImageID cs = i)"
    by (simp add: extractC2I_lookup [OF names] runningPairs_iff)
  ultimately show ?thesis by blast
qed

lemma ex_filter: "getPodFromEventIfRunning exCluster exEvent = Some exPod"
  by (simp add: getPodFromEventIfRunning_def exCluster_def exEvent_def exPod_def)

lemma ex_parent: "getParentIDForPod exCluster exPod = Inr exWlid"
  by (simp add: getParentIDForPod_def exCluster_def exPod_def exWlid_def)

lemma ex_names: "distinct (map csName (filter csRunning (containerStatuses exPod)))"
  by (simp add: exPod_def exApp_def)

section \<open>C1: the decision on a pod event\<close>

text \<open>
  C1. A Modified event whose pod passes the filter (Running, still existing) and whose
  parent resolves to \<open>wlid\<close> is decided in one of three ways. If a running container has
  an image whose hash is not a key of the ImageHashIndex, then for every such container the
  hash is registered with the workload and the pair (container, image) is registered under
  the workload, nothing else changes in the two indices, and one command is built whose
  containers are exactly those pairs. Else, if the workload is a key of the
  WorkloadContainerIndex, no command is built and the handler is unchanged. Else the
  ImageHashIndex is unchanged, the workload's entry holds exactly the pod's running
  (container, image) pairs, and one command is built with exactly these pairs. The command
  that was built is the only one given to the queue, and it is given unless the instance
  ids of the pod cannot be generated. Container names are distinct within a pod.
\<close>

theorem pod_decision:
  assumes "getPodFromEventIfRunning k event = Some pod"
      and "getParentIDForPod k pod = Inr wlid"
      and "distinct (map csName (filter csRunning (containerStatuses pod)))"
  shows
    "(let wh' = fst (handlePodEvent k wh event);
          cmd = snd (podDecision k wh pod wlid);
          anyNew = (\<exists>cs \<in> set (containerStatuses pod). newContainer k wh cs)
      in (anyNew \<longrightarrow>
            (\<forall>cs \<in> set (containerStatuses pod). newContainer k wh cs \<longrightarrow>
                iwMap wh' (extractImageHash k (csImageID cs)) = Some {wlid}
              \<and> GetContainerToImageIDForWlid wh' wlid (csName cs) = Some (csImageID cs))
          \<and> (\<forall>h. (\<forall>cs \<in> set (containerStatuses pod). newContainer k wh cs \<longrightarrow> extractImageHash k (csImageID cs) \<noteq> h)
                \<longrightarrow> iwMap wh' h = iwMap wh h)
          \<and> (\<forall>c. (\<forall>cs \<in> set (containerStatuses pod). newContainer k wh cs \<longrightarrow> csName cs \<noteq> c)
                \<longrightarrow> GetContainerToImageIDForWlid wh' wlid c = GetContainerToImageIDForWlid wh wlid c)
          \<and> (\<forall>w. w \<noteq> wlid \<longrightarrow> wlidsToContainerToImageIDMap wh' w = wlidsToContainerToImageIDMap wh w)
          \<and> (\<exists>m. cmd = Some \<lparr>targetWorkload = wlid, containers = m\<rparr>
                \<and> (\<forall>c i. m c = Some i \<longleftrightarrow>
                      (\<exists>cs \<in> set (containerStatuses pod). newContainer k wh cs \<and> csName cs = c \<and> csImageID cs = i))))
       \<and> (\<not> anyNew \<and> isWlidInMap wh wlid \<longrightarrow>
            cmd = None \<and> handlePodEvent k wh event = (wh, []))
       \<and> (\<not> anyNew \<and> \<not> isWlidInMap wh wlid \<longrightarrow>
            iwMap wh' = iwMap wh
          \<and> (\<forall>w. w \<noteq> wlid \<longrightarrow> wlidsToContainerToImageIDMap wh' w = wlidsToContainerToImageIDMap wh w)
          \<and> (\<forall>c i. GetContainerToImageIDForWlid wh' wlid c = Some i \<longleftrightarrow>
                (\<exists>cs \<in> set (containerStatuses pod). csRunning cs \<and> csName cs = c \<and> csImageID cs = i))
          \<and> (\<exists>m. cmd = Some \<lparr>targetWorkload = wlid, containers = m\<rparr>
                \<and> (\<forall>c i. m c = Some i \<longleftrightarrow>
                      (\<exists>cs \<in> set (containerStatuses pod). csRunning cs \<and> csName cs = c \<and> csImageID cs = i))))
       \<and> snd (handlePodEvent k wh event) =
            (case cmd of None \<Rightarrow> []
             | Some c \<Rightarrow> if isl (GenerateInstanceIDFromPod k pod) then [] else [c]))"
proof -
  note ix = handlePodEvent_indices [OF assms(1,2)]
  note names = assms(3)
  let ?anyNew = "\<exists>cs \<in> set (containerStatuses pod). newContainer k wh cs"
  have b1: "?anyNew \<Longrightarrow>
            (\<forall>cs \<in> set (containerStatuses pod). newContainer k wh cs \<longrightarrow>
                iwMap (fst (handlePodEvent k wh event)) (extractImageHash k (csImageID cs)) = Some {wlid}
              \<and> GetContainerToImageIDForWlid (fst (handlePodEvent k wh event)) wlid (csName cs) = Some (csImageID cs))"
    by (simp only: ix) (blast intro: new_branch_registered [OF names])
  have b2: "?anyNew \<Longrightarrow>
            (\<forall>h. (\<forall>cs \<in> set (containerStatuses pod). newContainer k wh cs \<longrightarrow> extractImageHash k (csImageID cs) \<noteq> h)
                \<longrightarrow> iwMap (fst (handlePodEvent k wh event)) h = iwMap wh h)"
    by (simp only: ix) (blast intro: new_branch_other_hash [OF names])
  have b3: "?anyNew \<Longrightarrow>
            (\<forall>c. (\<forall>cs \<in> set (containerStatuses pod). newContainer k wh cs \<longrightarrow> csName cs \<noteq> c)
                \<longrightarrow> GetContainerToImageIDForWlid (fst (handlePodEvent k wh event)) wlid c = GetContainerToImageIDForWlid wh wlid c)"
    by (simp only: ix) (blast intro: new_branch_other_container [OF names])
  have b4: "?anyNew \<Longrightarrow>
            (\<forall>w. w \<noteq> wlid \<longrightarrow> wlidsToContainerToImageIDMap (fst (handlePodEvent k wh event)) w = wlidsToContainerToImageIDMap wh w)"
    by (simp only: ix) (blast intro: new_branch_other_workload)
  note b5 = new_branch_command [OF names, of k wh wlid]
  have d: "\<not> ?anyNew \<and> isWlidInMap wh wlid \<Longrightarrow>
            snd (podDecision k wh pod wlid) = None \<and> handlePodEvent k wh event = (wh, [])"
    by (simp add: handlePodEvent_unfold [OF assms(1,2)] podDecision_duplicate)
  have f1: "\<not> ?anyNew \<and> \<not> isWlidInMap wh wlid \<Longrightarrow> iwMap (fst (handlePodEvent k wh event)) = iwMap wh"
    by (simp only: ix) (blast intro: first_branch_iw)
  have f2: "\<not> ?anyNew \<and> \<not> isWlidInMap wh wlid \<Longrightarrow>
            (\<forall>w. w \<noteq> wlid \<longrightarrow> wlidsToContainerToImageIDMap (fst (handlePodEvent k wh event)) w = wlidsToContainerToImageIDMap wh w)"
    by (simp only: ix) (blast intro: first_branch_other_workload)
  have f3: "\<not> ?anyNew \<and> \<not> isWlidInMap wh wlid \<Longrightarrow>
            (\<forall>c i. GetContainerToImageIDForWlid (fst (handlePodEvent k wh event)) wlid c = Some i \<longleftrightarrow>
                (\<exists>cs \<in> set (containerStatuses pod). csRunning cs \<and> csName cs = c \<and> csImageID cs = i))"
    by (simp only: ix) (simp add: first_branch_containers [OF names])
  have f4: "\<not> ?anyNew \<and> \<not> isWlidInMap wh wlid \<Longrightarrow>
            (\<exists>m. snd (podDecision k wh pod wlid) = Some \<lparr>targetWorkload = wlid, containers = m\<rparr>
                \<and> (\<forall>c i. m c = Some i \<longleftrightarrow>
                      (\<exists>cs \<in> set (containerStatuses pod). csRunning cs \<and> csName cs = c \<and> csImageID cs = i)))"
    by (blast intro: first_branch_command [OF names])
  note e = handlePodEvent_emits [OF assms(1,2), of wh]
  show ?thesis
    unfolding Let_def
    apply (intro conjI impI)
    using b1 apply blast
    using b2 apply blast
    using b3 apply blast
    using b4 apply blast
    using b5 apply blast
    using d apply blast
    using d apply blast
    using f1 apply blast
    using f2 apply blast
    using f3 apply blast
    using f4 apply blast
    using e apply blast
    done
qed

text \<open>
  The three branches at the concrete cluster: an empty store, a store that knows the image
  and the workload, and a store that knows the image from another workload only.
\<close>

theorem pod_decision_witness:
  "getPodFromEventIfRunning exCluster exEvent = Some exPod
   \<and> getParentIDForPod exCluster exPod = Inr ''N/Deployment/D''
   \<and> distinct (map csName (filter csRunning (containerStatuses exPod)))
   \<and> newContainer exCluster exEmpty exApp
   \<and> iwMap (fst (handlePodEvent exCluster exEmpty exEvent)) ''aaa'' = Some {''N/Deployment/D''}
   \<and> GetContainerToImageIDForWlid (fst (handlePodEvent exCluster exEmpty exEvent)) ''N/Deployment/D'' ''app''
       = Some ''repo/img@sha256:aaa''
   \<and> handlePodEvent exCluster exKnownWorkload exEvent = (exKnownWorkload, [])
   \<and> iwMap (fst (handlePodEvent exCluster exKnownImage exEvent)) = iwMap exKnownImage
   \<and> GetContainerToImageIDForWlid (fst (handlePodEvent exCluster exKnownImage exEvent)) ''N/Deployment/D'' ''app''
       = Some ''repo/img@sha256:aaa''"
proof -
  have app: "exApp \<in> set (containerStatuses exPod)"
    by (simp add: exPod_def)
  have run: "csRunning exApp \<and> csName exApp = ''app'' \<and> csImageID exApp = ''repo/img@sha256:aaa''"
    by (simp add: exApp_def)
  have hash: "extractImageHash exCluster (csImageID exApp) = ''aaa''"
    by (simp add: exCluster_def exApp_def)
  have new: "newContainer exCluster exEmpty exApp"
    by (simp add: newContainer_def iwLoad_def hash run) (simp add: exEmpty_def)
  have known: "\<not> (\<exists>cs \<in> set (containerStatuses exPod). newContainer exCluster exKnownImage cs)"
              "\<not> (\<exists>cs \<in> set (containerStatuses exPod). newContainer exCluster exKnownWorkload cs)"
    by (simp_all add: exPod_def newContainer_def iwLoad_def hash)
       (simp_all add: exKnownImage_def exKnownWorkload_def exEmpty_def)
  have inmap: "isWlidInMap exKnownWorkload exWlid" "\<not> isWlidInMap exKnownImage exWlid"
    by (simp_all add: isWlidInMap_def exKnownWorkload_def exKnownImage_def exEmpty_def)
  have first: "iwMap (fst (handlePodEvent exCluster exEmpty exEvent)) (extractImageHash exCluster (csImageID exApp))
                 = Some {exWlid}
               \<and> GetContainerToImageIDForWlid (fst (handlePodEvent exCluster exEmpty exEvent)) exWlid (csName exApp)
                 = Some (csImageID exApp)"
    using pod_decision [OF ex_filter ex_parent ex_names, of exEmpty] app new
    unfolding Let_def by blast
  have dup: "handlePodEvent exCluster exKnownWorkload exEvent = (exKnownWorkload, [])"
    using pod_decision [OF ex_filter ex_parent ex_names, of exKnownWorkload] known(2) inmap(1)
    unfolding Let_def by blast
  have sighting: "iwMap (fst (handlePodEvent exCluster exKnownImage exEvent)) = iwMap exKnownImage
       \<and> (GetContainerToImageIDForWlid (fst (handlePodEvent exCluster exKnownImage exEvent)) exWlid (csName exApp)
             = Some (csImageID exApp)
           \<longleftrightarrow> (\<exists>cs \<in> set (containerStatuses exPod). csRunning cs \<and> csName cs = csName exApp \<and> csImageID cs = csImageID exApp))"
    using pod_decision [OF ex_filter ex_parent ex_names, of exKnownImage] known(1) inmap(2)
    unfolding Let_def by blast
  from sighting app run have
    "GetContainerToImageIDForWlid (fst (handlePodEvent exCluster exKnownImage exEvent)) exWlid (csName exApp)
       = Some (csImageID exApp)"
    by blast
  with first dup sighting new hash run ex_filter ex_parent ex_names show ?thesis
    by (simp add: exWlid_def)
qed

section \<open>C8: a pod event applied twice\<close>

lemma newContainer_iw:
  "iwMap wh' = iwMap wh \<Longrightarrow> newContainer k wh' cs = newContainer k wh cs"
  by (simp add: newContainer_def)

lemma fold_addInst_twice:
  "fold addToInstanceIDsList ids (fold addToInstanceIDsList ids wh) = fold addToInstanceIDsList ids wh"
  by (rule fold_addInst_known) (simp add: fold_addInst_set)

lemma recorded_fields:
  "iwMap (case g of Inl err \<Rightarrow> wh1 | Inr ids \<Rightarrow> fold addToInstanceIDsList ids wh1) = iwMap wh1"
  "wlidsToContainerToImageIDMap (case g of Inl err \<Rightarrow> wh1 | Inr ids \<Rightarrow> fold addToInstanceIDsList ids wh1)
     = wlidsToContainerToImageIDMap wh1"
  by (simp_all split: sum.splits)

lemma after_new_none_new:
  assumes names: "distinct (map csName (filter csRunning (containerStatuses pod)))"
      and ex: "\<exists>cs \<in> set (containerStatuses pod). newContainer k wh cs"
      and iw: "iwMap wh2 = iwMap (fst (podDecision k wh pod wlid))"
  shows "\<not> (\<exists>cs \<in> set (containerStatuses pod). newContainer k wh2 cs)"
proof
  assume "\<exists>cs \<in> set (containerStatuses pod). newContainer k wh2 cs"
  then obtain cs where cs: "cs \<in> set (containerStatuses pod)" "newContainer k wh2 cs" by blast
  then have run: "csRunning cs" and none: "iwMap wh2 (extractImageHash k (csImageID cs)) = None"
    by (simp_all add: newContainer_def iwLoad_def)
  show False
  proof (cases "newContainer k wh cs")
    case True
    from new_branch_registered(1) [OF names cs(1) True, of wlid] none iw show False by simp
  next
    case False
    with run have old: "iwMap wh (extractImageHash k (csImageID cs)) \<noteq> None"
      by (simp add: newContainer_def iwLoad_def)
    have "iwMap (fst (podDecision k wh pod wlid)) (extractImageHash k (csImageID cs)) \<noteq> None"
      using old by (simp add: podDecision_new [OF ex] regNew_iw)
    with none iw show False by simp
  qed
qed

lemma after_new_in_map:
  assumes ex: "\<exists>cs \<in> set (containerStatuses pod). newContainer k wh cs"
      and wc: "wlidsToContainerToImageIDMap wh2 = wlidsToContainerToImageIDMap (fst (podDecision k wh pod wlid))"
  shows "isWlidInMap wh2 wlid"
proof -
  have "getNewContainerToImageIDsFromPod k wh pod \<noteq> []"
    using ex by (simp add: getNew_empty_new)
  then show ?thesis
    by (simp add: isWlidInMap_def wc podDecision_new [OF ex] regNew_wc wcPuts_def)
qed

lemma handlePodEvent_twice:
  assumes ev: "getPodFromEventIfRunning k event = Some pod"
      and par: "getParentIDForPod k pod = Inr wlid"
      and names: "distinct (map csName (filter csRunning (containerStatuses pod)))"
  shows "fst (handlePodEvent k (fst (handlePodEvent k wh event)) event) = fst (handlePodEvent k wh event)"
proof -
  let ?g = "GenerateInstanceIDFromPod k pod"
  let ?anyNew = "\<lambda>wh. \<exists>cs \<in> set (containerStatuses pod). newContainer k wh cs"
  note unf = handlePodEvent_unfold [OF ev par]
  consider (new) "?anyNew wh" | (dup) "\<not> ?anyNew wh" "isWlidInMap wh wlid"
    | (first) "\<not> ?anyNew wh" "\<not> isWlidInMap wh wlid" by blast
  then show ?thesis
  proof cases
    case new
    let ?wh1 = "fst (podDecision k wh pod wlid)"
    let ?wh2 = "case ?g of Inl err \<Rightarrow> ?wh1 | Inr ids \<Rightarrow> fold addToInstanceIDsList ids ?wh1"
    have one: "fst (handlePodEvent k wh event) = ?wh2"
      by (simp add: unf podDecision_new [OF new] split: sum.splits)
    have "\<not> ?anyNew ?wh2"
      by (rule after_new_none_new [OF names new]) (simp add: recorded_fields)
    moreover have "isWlidInMap ?wh2 wlid"
      by (rule after_new_in_map [OF new]) (simp add: recorded_fields)
    ultimately have "podDecision k ?wh2 pod wlid = (?wh2, None)"
      by (rule podDecision_duplicate)
    then have "fst (handlePodEvent k ?wh2 event) = ?wh2"
      by (simp add: unf)
    with one show ?thesis by simp
  next
    case dup
    then have "handlePodEvent k wh event = (wh, [])"
      by (simp add: unf podDecision_duplicate)
    then show ?thesis by simp
  next
    case first
    let ?all = "ExtractContainersToImageIDsFromPod pod"
    let ?wh1 = "fst (podDecision k wh pod wlid)"
    let ?wh2 = "case ?g of Inl err \<Rightarrow> ?wh1 | Inr ids \<Rightarrow> fold addToInstanceIDsList ids ?wh1"
    have one: "fst (handlePodEvent k wh event) = ?wh2"
      by (simp add: unf podDecision_first_sighting [OF first] split: sum.splits)
    have iw2: "iwMap ?wh2 = iwMap wh"
      by (simp add: recorded_fields first_branch_iw [OF first])
    have none2: "\<not> ?anyNew ?wh2"
      using first(1) by (simp add: newContainer_iw [OF iw2])
    show ?thesis
    proof (cases "?all = []")
      case True
      then have wh1: "?wh1 = wh"
        by (simp add: podDecision_first_sighting [OF first])
      have "wlidsToContainerToImageIDMap ?wh2 = wlidsToContainerToImageIDMap wh"
        by (simp add: recorded_fields wh1)
      then have out2: "\<not> isWlidInMap ?wh2 wlid"
        using first(2) by (simp add: isWlidInMap_def)
      have "fst (podDecision k ?wh2 pod wlid) = ?wh2"
        by (simp add: podDecision_first_sighting [OF none2 out2] True)
      moreover have "snd (podDecision k ?wh2 pod wlid) \<noteq> None"
        by (simp add: podDecision_first_sighting [OF none2 out2])
      ultimately have "fst (handlePodEvent k ?wh2 event)
                       = (case ?g of Inl err \<Rightarrow> ?wh2 | Inr ids \<Rightarrow> fold addToInstanceIDsList ids ?wh2)"
        by (cases "podDecision k ?wh2 pod wlid") (auto simp add: unf split: sum.splits)
      also have "\<dots> = ?wh2"
        by (simp add: fold_addInst_twice split: sum.splits)
      finally show ?thesis using one by simp
    next
      case False
      have "wlidsToContainerToImageIDMap ?wh2 wlid \<noteq> None"
        using False
        by (simp add: recorded_fields podDecision_first_sighting [OF first] regAll_wc wcPuts_def)
      then have "isWlidInMap ?wh2 wlid" by (simp add: isWlidInMap_def)
      with none2 have "podDecision k ?wh2 pod wlid = (?wh2, None)"
        by (rule podDecision_duplicate)
      then have "fst (handlePodEvent k ?wh2 event) = ?wh2"
        by (simp add: unf)
      with one show ?thesis by simp
    qed
  qed
qed

lemma getPodFromEventIfRunning_Some:
  "getPodFromEventIfRunning k event = Some pod \<Longrightarrow> evObject event = PodObject pod"
  by (auto simp: getPodFromEventIfRunning_def split: if_splits Object.splits sum.splits)

text \<open>
  C8. Processing the same pod event twice in succession leaves the handler, and so its
  three correlation structures, as processing it once does. The cluster answers the same
  both times, and container names are distinct within the pod of the event.
\<close>

theorem pod_event_idempotent:
  assumes "\<forall>pod. evObject event = PodObject pod \<longrightarrow>
             distinct (map csName (filter csRunning (containerStatuses pod)))"
  shows "fst (handlePodEvent k (fst (handlePodEvent k wh event)) event) = fst (handlePodEvent k wh event)"
proof (cases "getPodFromEventIfRunning k event")
  case None
  then show ?thesis by (simp add: handlePodEvent_def)
next
  case (Some pod)
  then have names: "distinct (map csName (filter csRunning (containerStatuses pod)))"
    using assms getPodFromEventIfRunning_Some by blast
  show ?thesis
  proof (cases "getParentIDForPod k pod")
    case (Inl err)
    with Some show ?thesis by (simp add: handlePodEvent_def)
  next
    case (Inr wlid)
    from handlePodEvent_twice [OF Some Inr names] show ?thesis .
  qed
qed

lemma ex_getNew:
  "getNewContainerToImageIDsFromPod exCluster exEmpty exPod = [(''app'', ''repo/img@sha256:aaa'')]"
  by (simp add: getNewContainerToImageIDsFromPod_def extractImageIDsToContainersFromPod_def
        exPod_def exApp_def exEmpty_def exCluster_def iwLoad_def)

lemma ex_generate: "GenerateInstanceIDFromPod exCluster exPod = Inr [''iid-app'']"
  by (simp add: exCluster_def exPod_def exApp_def)

lemma ex_hash: "extractImageHash exCluster ''repo/img@sha256:aaa'' = ''aaa''"
  by (simp add: exCluster_def)

text \<open>The scenario of the specification, computed.\<close>

lemma ex_first_event:
  "handlePodEvent exCluster exEmpty exEvent =
     (\<lparr>iwMap = [''aaa'' \<mapsto> {exWlid}],
       hashedInstanceIDs = [''iid-app''],
       wlidsToContainerToImageIDMap = [exWlid \<mapsto> [''app'' \<mapsto> ''repo/img@sha256:aaa'']],
       currentPodListResourceVersion = ''1''\<rparr>,
      [\<lparr>targetWorkload = exWlid, containers = [''app'' \<mapsto> ''repo/img@sha256:aaa'']\<rparr>])"
  by (simp add: handlePodEvent_def ex_filter ex_parent podDecision_def ex_getNew ex_generate
        addToImageIDToWlidsMap_def addToWlidsToContainerToImageIDMap_def iwAdd_def ex_hash
        addToInstanceIDsList_def getImageScanCommand_def Let_def)
     (simp add: exEmpty_def)

theorem pod_event_idempotent_witness:
  "(\<exists>pod. evObject exEvent = PodObject pod)
   \<and> fst (handlePodEvent exCluster exEmpty exEvent) \<noteq> exEmpty
   \<and> fst (handlePodEvent exCluster (fst (handlePodEvent exCluster exEmpty exEvent)) exEvent)
       = fst (handlePodEvent exCluster exEmpty exEvent)"
proof -
  have obj: "evObject exEvent = PodObject exPod"
    by (simp add: exEvent_def)
  then have names: "\<forall>pod. evObject exEvent = PodObject pod \<longrightarrow>
             distinct (map csName (filter csRunning (containerStatuses pod)))"
    using ex_names by simp
  have "hashedInstanceIDs (fst (handlePodEvent exCluster exEmpty exEvent)) \<noteq> hashedInstanceIDs exEmpty"
    by (simp add: ex_first_event) (simp add: exEmpty_def)
  then have changed: "fst (handlePodEvent exCluster exEmpty exEvent) \<noteq> exEmpty"
    by auto
  from pod_event_idempotent [OF names, of exCluster exEmpty] obj changed show ?thesis
    by simp
qed

section \<open>C2: recording the identity and emitting the command\<close>

lemma podDecision_None_iff:
  "snd (podDecision k wh pod wlid) = None
   \<longleftrightarrow> \<not> (\<exists>cs \<in> set (containerStatuses pod). newContainer k wh cs) \<and> isWlidInMap wh wlid"
proof (cases "\<exists>cs \<in> set (containerStatuses pod). newContainer k wh cs")
  case True
  then show ?thesis by (simp add: podDecision_new)
next
  case False
  then show ?thesis
    by (cases "isWlidInMap wh wlid") (simp_all add: podDecision_duplicate podDecision_first_sighting)
qed

lemma ex_known_none_new:
  "\<not> (\<exists>cs \<in> set (containerStatuses exPod). newContainer exCluster exKnownWorkload cs)"
  by (simp add: exPod_def newContainer_def iwLoad_def exApp_def ex_hash)
     (simp add: exKnownWorkload_def exKnownImage_def exEmpty_def)

lemma ex_known_in_map: "isWlidInMap exKnownWorkload exWlid"
  by (simp add: isWlidInMap_def exKnownWorkload_def exKnownImage_def exEmpty_def)

lemma ex_duplicate_event:
  "handlePodEvent exCluster exKnownWorkload exEvent = (exKnownWorkload, [])"
  by (simp add: handlePodEvent_def ex_filter ex_parent
        podDecision_duplicate [OF ex_known_none_new ex_known_in_map])

lemma ex_side_event:
  "fst (handlePodEvent exCluster exKnownImage exSideEvent) = exKnownWorkload"
proof -
  have filter: "getPodFromEventIfRunning exCluster exSideEvent = Some exSidePod"
    by (simp add: getPodFromEventIfRunning_def exCluster_def exSideEvent_def exSidePod_def)
  have parent: "getParentIDForPod exCluster exSidePod = Inr exWlid"
    by (simp add: getParentIDForPod_def exCluster_def exSidePod_def exWlid_def)
  have known: "getNewContainerToImageIDsFromPod exCluster exKnownImage exSidePod = []"
    by (simp add: getNewContainerToImageIDsFromPod_def extractImageIDsToContainersFromPod_def
          exSidePod_def exSide_def exKnownImage_def exEmpty_def exCluster_def iwLoad_def)
  have absent: "\<not> isWlidInMap exKnownImage exWlid"
    by (simp add: isWlidInMap_def exKnownImage_def exEmpty_def)
  have all: "ExtractContainersToImageIDsFromPod exSidePod = [(''side'', ''repo/img@sha256:aaa'')]"
    by (simp add: ExtractContainersToImageIDsFromPod_def exSidePod_def exSide_def)
  have ids: "GenerateInstanceIDFromPod exCluster exSidePod = Inr [''iid-side'']"
    by (simp add: exCluster_def exSidePod_def exSide_def)
  show ?thesis
    by (simp add: handlePodEvent_def filter parent podDecision_def known absent all ids Let_def
          addToWlidsToContainerToImageIDMap_def addToInstanceIDsList_def)
       (simp add: exKnownWorkload_def exKnownImage_def exEmpty_def)
qed

text \<open>
  C2 as stated fails. The store below is the one an earlier pod of the same Deployment
  leaves (container side, the same image). The event passes the filter, its parent
  resolves and the instance ids of its pod are generated, but it is a duplicate
  observation, and the \<^verbatim>\<open>continue\<close> of line 695 is taken before the identity is
  recorded.
\<close>

theorem identity_recording_counterexample:
  "fst (handlePodEvent exCluster exKnownImage exSideEvent) = exKnownWorkload
   \<and> getPodFromEventIfRunning exCluster exEvent = Some exPod
   \<and> getParentIDForPod exCluster exPod = Inr ''N/Deployment/D''
   \<and> GenerateInstanceIDFromPod exCluster exPod = Inr [''iid-app'']
   \<and> snd (podDecision exCluster exKnownWorkload exPod ''N/Deployment/D'') = None
   \<and> ''iid-app'' \<notin> set (hashedInstanceIDs (fst (handlePodEvent exCluster exKnownWorkload exEvent)))"
proof -
  have "snd (podDecision exCluster exKnownWorkload exPod exWlid) = None"
    by (simp add: podDecision_duplicate [OF ex_known_none_new ex_known_in_map])
  moreover have "''iid-app'' \<notin> set (hashedInstanceIDs (fst (handlePodEvent exCluster exKnownWorkload exEvent)))"
    by (simp add: ex_duplicate_event) (simp add: exKnownWorkload_def exKnownImage_def exEmpty_def)
  ultimately show ?thesis
    using ex_side_event ex_filter ex_parent ex_generate by (simp add: exWlid_def)
qed

text \<open>
  C2, amended. For a Modified event that passes the filter and whose parent resolves:
  when the decision builds no command (the duplicate observation: no new image and the
  workload already a key of the WorkloadContainerIndex) the handler is unchanged, so no
  identity is recorded, and nothing is emitted; when it builds a command and the instance
  ids cannot be generated, nothing is added to the InstanceIDSet and the command is not
  emitted; when it builds a command and the instance ids are generated, every one of them
  is in the InstanceIDSet afterwards, nothing else is added, the two indices are as the
  decision left them, and exactly that command is emitted.
\<close>

theorem identity_recording:
  assumes "getPodFromEventIfRunning k event = Some pod"
      and "getParentIDForPod k pod = Inr wlid"
  shows
    "(let wh1 = fst (podDecision k wh pod wlid);
          cmd = snd (podDecision k wh pod wlid);
          wh' = fst (handlePodEvent k wh event);
          out = snd (handlePodEvent k wh event)
      in (cmd = None \<longleftrightarrow>
            \<not> (\<exists>cs \<in> set (containerStatuses pod). newContainer k wh cs) \<and> isWlidInMap wh wlid)
       \<and> (case cmd of
             None \<Rightarrow> wh' = wh \<and> out = []
           | Some c \<Rightarrow>
               (case GenerateInstanceIDFromPod k pod of
                  Inl err \<Rightarrow> wh' = wh1 \<and> out = []
                | Inr ids \<Rightarrow>
                    set (hashedInstanceIDs wh') = set (hashedInstanceIDs wh) \<union> set ids
                  \<and> iwMap wh' = iwMap wh1
                  \<and> wlidsToContainerToImageIDMap wh' = wlidsToContainerToImageIDMap wh1
                  \<and> out = [c])))"
proof -
  note unf = handlePodEvent_unfold [OF assms]
  have hashed1: "hashedInstanceIDs (fst (podDecision k wh pod wlid)) = hashedInstanceIDs wh"
    by (simp add: podDecision_def Let_def)
  show ?thesis
  proof (cases "snd (podDecision k wh pod wlid)")
    case None
    then have dup: "\<not> (\<exists>cs \<in> set (containerStatuses pod). newContainer k wh cs) \<and> isWlidInMap wh wlid"
      by (simp add: podDecision_None_iff)
    then have "handlePodEvent k wh event = (wh, [])"
      by (simp add: unf podDecision_duplicate)
    with None dup show ?thesis by (simp add: Let_def)
  next
    case (Some c)
    then have pd: "podDecision k wh pod wlid = (fst (podDecision k wh pod wlid), Some c)"
      by (cases "podDecision k wh pod wlid") simp
    have nodup: "\<not> (\<not> (\<exists>cs \<in> set (containerStatuses pod). newContainer k wh cs) \<and> isWlidInMap wh wlid)"
      using Some podDecision_None_iff [of k wh pod wlid] by simp
    show ?thesis
    proof (cases "GenerateInstanceIDFromPod k pod")
      case (Inl err)
      have "handlePodEvent k wh event = (fst (podDecision k wh pod wlid), [])"
        by (subst unf, subst pd) (simp add: Inl)
      with Some Inl nodup show ?thesis by (simp add: Let_def)
    next
      case (Inr ids)
      have "handlePodEvent k wh event
            = (fold addToInstanceIDsList ids (fst (podDecision k wh pod wlid)), [c])"
        by (subst unf, subst pd) (simp add: Inr)
      with Some Inr nodup show ?thesis by (simp add: Let_def fold_addInst_set hashed1)
    qed
  qed
qed

theorem identity_recording_witness:
  "getPodFromEventIfRunning exCluster exEvent = Some exPod
   \<and> getParentIDForPod exCluster exPod = Inr ''N/Deployment/D''
   \<and> set (hashedInstanceIDs (fst (handlePodEvent exCluster exEmpty exEvent))) = {''iid-app''}
   \<and> length (snd (handlePodEvent exCluster exEmpty exEvent)) = 1
   \<and> handlePodEvent exCluster exKnownWorkload exEvent = (exKnownWorkload, [])"
proof -
  have some: "snd (podDecision exCluster exEmpty exPod exWlid)
              = Some (getImageScanCommand exWlid (map_of (getNewContainerToImageIDsFromPod exCluster exEmpty exPod)))"
    by (simp add: podDecision_def ex_getNew Let_def)
  have none: "snd (podDecision exCluster exKnownWorkload exPod exWlid) = None"
    by (simp add: podDecision_duplicate [OF ex_known_none_new ex_known_in_map])
  have empty: "hashedInstanceIDs exEmpty = []"
    by (simp add: exEmpty_def)
  have first: "set (hashedInstanceIDs (fst (handlePodEvent exCluster exEmpty exEvent))) = {''iid-app''}
               \<and> length (snd (handlePodEvent exCluster exEmpty exEvent)) = 1"
    using identity_recording [OF ex_filter ex_parent, of exEmpty]
    by (simp add: Let_def some ex_generate empty)
  have dup: "handlePodEvent exCluster exKnownWorkload exEvent = (exKnownWorkload, [])"
    using identity_recording [OF ex_filter ex_parent, of exKnownWorkload]
    by (simp add: Let_def none prod_eq_iff)
  from first dup ex_filter ex_parent show ?thesis
    by (simp add: exWlid_def)
qed

section \<open>C3: orphaned SBOMs and vulnerability manifests\<close>

lemma noEffects_fields [simp]:
  "deleteCalls noEffects = []" "producedCommands noEffects = []" "errorSignals noEffects = []"
  by (simp_all add: noEffects_def)

text \<open>
  C3 as stated fails in the SBOM handler on a Deleted event that does not carry an SBOM:
  the type of the object is asserted (line 260) before the event type is read (line 267),
  so the event is not ignored, the unsupported object is signalled. The vulnerability
  manifest handler reads the event type first (line 190) and ignores the same event.
\<close>

theorem orphan_collection_counterexample:
  "evType exStatusDeleted = Deleted
   \<and> handleSBOMEvent (\<lambda>ns name. None) exStore exStatusDeleted
       = noEffects\<lparr>errorSignals := [ErrUnsupportedObject]\<rparr>
   \<and> errorSignals (handleSBOMEvent (\<lambda>ns name. None) exStore exStatusDeleted) \<noteq> []
   \<and> handleVulnerabilityManifestEvent exStore exStatusDeleted = noEffects"
  by (simp add: exStatusDeleted_def handleSBOMEvent_def handleVulnerabilityManifestEvent_def)

text \<open>
  C3, amended. On an Added or Modified event that carries an artifact of the handler's
  kind, the vulnerability manifest handler and the SBOM handler make exactly one delete
  call, for that artifact, when its correlating key is absent from the index (the manifest
  name among the instance ids for a relevancy-tracked vulnerability manifest, the manifest
  name as a key of the ImageHashIndex otherwise), and none when the key is present; in
  neither case is a command produced, and the only error signal is the error of a delete
  call the storage refuses, in the SBOM handler. The vulnerability manifest handler ignores
  every Deleted event, whatever it carries, and answers any other event that does not carry
  a vulnerability manifest with one unsupported-object signal. The SBOM handler ignores a
  Deleted event that carries an SBOM, and answers every event that carries anything else,
  a Deleted one included, with one unsupported-object signal and nothing else.
\<close>

theorem orphan_collection:
  "(evType e \<in> {Added, Modified} \<and> evObject e = VulnerabilityManifest obj withRelevancy \<longrightarrow>
      (let present = (if withRelevancy then metaName obj \<in> set (hashedInstanceIDs wh)
                      else iwMap wh (metaName obj) \<noteq> None);
           did = handleVulnerabilityManifestEvent wh e
       in (\<not> present \<longrightarrow> did = noEffects\<lparr>deleteCalls := [(metaNamespace obj, metaName obj)]\<rparr>)
        \<and> (present \<longrightarrow> did = noEffects)))
   \<and> (evType e \<in> {Added, Modified} \<and> evObject e = SBOMSPDXv2p3 obj \<longrightarrow>
      (let present = (iwMap wh (metaName obj) \<noteq> None);
           did = handleSBOMEvent storageDelete wh e
       in (\<not> present \<longrightarrow>
             deleteCalls did = [(metaNamespace obj, metaName obj)]
             \<and> producedCommands did = []
             \<and> errorSignals did = (case storageDelete (metaNamespace obj) (metaName obj) of
                                     None \<Rightarrow> [] | Some err \<Rightarrow> [err]))
        \<and> (present \<longrightarrow> did = noEffects)))
   \<and> (evType e = Deleted \<longrightarrow> handleVulnerabilityManifestEvent wh e = noEffects)
   \<and> (evType e \<noteq> Deleted \<and> (\<forall>m r. evObject e \<noteq> VulnerabilityManifest m r) \<longrightarrow>
        handleVulnerabilityManifestEvent wh e = noEffects\<lparr>errorSignals := [ErrUnsupportedObject]\<rparr>)
   \<and> (evType e = Deleted \<and> (\<exists>m. evObject e = SBOMSPDXv2p3 m) \<longrightarrow>
        handleSBOMEvent storageDelete wh e = noEffects)
   \<and> ((\<forall>m. evObject e \<noteq> SBOMSPDXv2p3 m) \<longrightarrow>
        handleSBOMEvent storageDelete wh e = noEffects\<lparr>errorSignals := [ErrUnsupportedObject]\<rparr>)"
proof -
  have vm: "evType e \<in> {Added, Modified} \<and> evObject e = VulnerabilityManifest obj withRelevancy \<longrightarrow>
      (let present = (if withRelevancy then metaName obj \<in> set (hashedInstanceIDs wh)
                      else iwMap wh (metaName obj) \<noteq> None);
           did = handleVulnerabilityManifestEvent wh e
       in (\<not> present \<longrightarrow> did = noEffects\<lparr>deleteCalls := [(metaNamespace obj, metaName obj)]\<rparr>)
        \<and> (present \<longrightarrow> did = noEffects))"
    by (auto simp: handleVulnerabilityManifestEvent_def listInstanceIDs_def iwLoad_def Let_def)
  have sbom: "evType e \<in> {Added, Modified} \<and> evObject e = SBOMSPDXv2p3 obj \<longrightarrow>
      (let present = (iwMap wh (metaName obj) \<noteq> None);
           did = handleSBOMEvent storageDelete wh e
       in (\<not> present \<longrightarrow>
             deleteCalls did = [(metaNamespace obj, metaName obj)]
             \<and> producedCommands did = []
             \<and> errorSignals did = (case storageDelete (metaNamespace obj) (metaName obj) of
                                     None \<Rightarrow> [] | Some err \<Rightarrow> [err]))
        \<and> (present \<longrightarrow> did = noEffects))"
    by (auto simp: handleSBOMEvent_def iwLoad_def Let_def split: option.splits)
  have vm_deleted: "evType e = Deleted \<longrightarrow> handleVulnerabilityManifestEvent wh e = noEffects"
    by (simp add: handleVulnerabilityManifestEvent_def)
  have vm_other: "evType e \<noteq> Deleted \<and> (\<forall>m r. evObject e \<noteq> VulnerabilityManifest m r) \<longrightarrow>
        handleVulnerabilityManifestEvent wh e = noEffects\<lparr>errorSignals := [ErrUnsupportedObject]\<rparr>"
    by (cases "evObject e") (auto simp add: handleVulnerabilityManifestEvent_def)
  have sbom_deleted: "evType e = Deleted \<and> (\<exists>m. evObject e = SBOMSPDXv2p3 m) \<longrightarrow>
        handleSBOMEvent storageDelete wh e = noEffects"
    by (auto simp: handleSBOMEvent_def)
  have sbom_other: "(\<forall>m. evObject e \<noteq> SBOMSPDXv2p3 m) \<longrightarrow>
        handleSBOMEvent storageDelete wh e = noEffects\<lparr>errorSignals := [ErrUnsupportedObject]\<rparr>"
    by (cases "evObject e") (simp_all add: handleSBOMEvent_def)
  from vm sbom vm_deleted vm_other sbom_deleted sbom_other show ?thesis by (intro conjI)
qed

lemma exStore_ids: "hashedInstanceIDs exStore = [''aaa'', ''bbb'']"
  by (simp add: exStore_def)

lemma exStore_iw: "iwMap exStore = [''aaa'' \<mapsto> {''N/Deployment/Other''}]"
  by (simp add: exStore_def exKnownWorkload_def exKnownImage_def exEmpty_def)

lemma exStore_wc:
  "wlidsToContainerToImageIDMap exStore = [''N/Deployment/D'' \<mapsto> [''side'' \<mapsto> ''repo/img@sha256:aaa'']]"
  by (simp add: exStore_def exKnownWorkload_def exKnownImage_def exEmpty_def exWlid_def)

theorem orphan_collection_witness:
  "handleVulnerabilityManifestEvent exStore exManifestAdded
     = noEffects\<lparr>deleteCalls := [(''kubescape'', ''zzz'')]\<rparr>
   \<and> deleteCalls (handleSBOMEvent (\<lambda>ns name. None) exStore exSBOMAdded) = [(''kubescape'', ''zzz'')]
   \<and> errorSignals (handleSBOMEvent (\<lambda>ns name. Some (ErrAPI ''gone'')) exStore exSBOMAdded)
       = [ErrAPI ''gone'']
   \<and> handleSBOMEvent (\<lambda>ns name. None) exStore exSBOMModified = noEffects
   \<and> handleVulnerabilityManifestEvent exStore exManifestDeleted = noEffects
   \<and> handleSBOMEvent (\<lambda>ns name. None) exStore exSBOMDeleted = noEffects
   \<and> handleSBOMEvent (\<lambda>ns name. None) exStore exStatusDeleted
       = noEffects\<lparr>errorSignals := [ErrUnsupportedObject]\<rparr>"
proof -
  define ok :: "string \<Rightarrow> string \<Rightarrow> error option" where "ok = (\<lambda>ns name. None)"
  define gone :: "string \<Rightarrow> string \<Rightarrow> error option" where "gone = (\<lambda>ns name. Some (ErrAPI ''gone''))"
  have added: "evType exManifestAdded \<in> {Added, Modified}
               \<and> evObject exManifestAdded = VulnerabilityManifest exOrphan True"
    by (simp add: exManifestAdded_def)
  have absent: "metaName exOrphan \<notin> set (hashedInstanceIDs exStore)"
    by (simp add: exStore_ids exOrphan_def)
  have meta: "metaNamespace exOrphan = ''kubescape'' \<and> metaName exOrphan = ''zzz''"
    by (simp add: exOrphan_def)
  have sbom_added: "evType exSBOMAdded \<in> {Added, Modified}
                    \<and> evObject exSBOMAdded = SBOMSPDXv2p3 exOrphan"
    by (simp add: exSBOMAdded_def)
  have unknown: "iwMap exStore (metaName exOrphan) = None"
    by (simp add: exStore_iw exOrphan_def)
  have modified: "evType exSBOMModified \<in> {Added, Modified}
                  \<and> evObject exSBOMModified = SBOMSPDXv2p3 exKept"
    by (simp add: exSBOMModified_def)
  have present: "iwMap exStore (metaName exKept) \<noteq> None"
    by (simp add: exStore_iw exKept_def)
  have deleted: "evType exManifestDeleted = Deleted"
    by (simp add: exManifestDeleted_def)
  have sbom_deleted: "evType exSBOMDeleted = Deleted \<and> (\<exists>m. evObject exSBOMDeleted = SBOMSPDXv2p3 m)"
    by (simp add: exSBOMDeleted_def)
  have status: "\<forall>m. evObject exStatusDeleted \<noteq> SBOMSPDXv2p3 m"
    by (simp add: exStatusDeleted_def)
  have c1: "handleVulnerabilityManifestEvent exStore exManifestAdded
          = noEffects\<lparr>deleteCalls := [(metaNamespace exOrphan, metaName exOrphan)]\<rparr>"
    using orphan_collection [of exManifestAdded exOrphan True exStore] added absent
    by (auto simp add: Let_def)
  have c2: "deleteCalls (handleSBOMEvent ok exStore exSBOMAdded)
              = [(metaNamespace exOrphan, metaName exOrphan)]"
    using orphan_collection [of exSBOMAdded exOrphan _ exStore ok] sbom_added unknown
    by (auto simp add: Let_def)
  have c3: "errorSignals (handleSBOMEvent gone exStore exSBOMAdded)
              = (case gone (metaNamespace exOrphan) (metaName exOrphan) of None \<Rightarrow> [] | Some err \<Rightarrow> [err])"
    using orphan_collection [of exSBOMAdded exOrphan _ exStore gone] sbom_added unknown
    by (auto simp add: Let_def)
  have c4: "handleSBOMEvent ok exStore exSBOMModified = noEffects"
    using orphan_collection [of exSBOMModified exKept _ exStore ok] modified present
    by (auto simp add: Let_def)
  have c5: "handleVulnerabilityManifestEvent exStore exManifestDeleted = noEffects"
    using orphan_collection [of exManifestDeleted _ _ exStore] deleted
    by simp
  have c6: "handleSBOMEvent ok exStore exSBOMDeleted = noEffects"
    using orphan_collection [of exSBOMDeleted _ _ exStore ok] sbom_deleted
    by blast
  have c7: "handleSBOMEvent ok exStore exStatusDeleted = noEffects\<lparr>errorSignals := [ErrUnsupportedObject]\<rparr>"
    using orphan_collection [of exStatusDeleted _ _ exStore ok] status
    by blast
  from c1 c2 c3 c4 c5 c6 c7 show ?thesis
    by (simp add: meta ok_def gone_def)
qed

section \<open>C6: filtered SBOMs\<close>

text \<open>
  C6 as stated fails on a Deleted event that does not carry a filtered SBOM: the type of
  the object is asserted (line 223) before the event type is read (line 230), so the
  unsupported object is signalled.
\<close>

theorem filtered_sbom_counterexample:
  "evType exStatusDeleted = Deleted
   \<and> errorSignals (handleSBOMFilteredEvent ''wlid'' exStore exStatusDeleted) = [ErrUnsupportedObject]"
  by (simp add: exStatusDeleted_def handleSBOMFilteredEvent_def)

text \<open>
  C6, amended. In the filtered SBOM handler an event that does not carry a filtered SBOM,
  whatever its type, gives one unsupported-object error signal and nothing else. For an
  event that carries one: a Deleted event is ignored (no delete call, no command, no error
  signal); on an Added or Modified event, if the manifest name is absent from the
  InstanceIDSet the artifact is deleted and nothing else happens; if it is present and the
  workload annotation is missing, one error signal is given, with no command and no delete
  call; otherwise exactly one command is produced, for the annotated workload, with the
  container mapping the WorkloadContainerIndex holds for it (empty when it holds none).
\<close>

theorem filtered_sbom_events:
  "(let did = handleSBOMFilteredEvent wlidKey wh e in
     ((\<forall>obj. evObject e \<noteq> SBOMSPDXv2p3Filtered obj) \<longrightarrow>
         did = noEffects\<lparr>errorSignals := [ErrUnsupportedObject]\<rparr>)
   \<and> (\<forall>obj. evObject e = SBOMSPDXv2p3Filtered obj \<longrightarrow>
        (evType e = Deleted \<longrightarrow>
           deleteCalls did = [] \<and> producedCommands did = [] \<and> errorSignals did = [])
      \<and> (evType e \<in> {Added, Modified} \<and> metaName obj \<notin> set (hashedInstanceIDs wh) \<longrightarrow>
           deleteCalls did = [(metaNamespace obj, metaName obj)]
           \<and> producedCommands did = [] \<and> errorSignals did = [])
      \<and> (evType e \<in> {Added, Modified} \<and> metaName obj \<in> set (hashedInstanceIDs wh)
           \<and> metaAnnotations obj wlidKey = None \<longrightarrow>
           errorSignals did = [ErrMissingWLIDAnnotation]
           \<and> producedCommands did = [] \<and> deleteCalls did = [])
      \<and> (\<forall>wlid. evType e \<in> {Added, Modified} \<and> metaName obj \<in> set (hashedInstanceIDs wh)
           \<and> metaAnnotations obj wlidKey = Some wlid \<longrightarrow>
           producedCommands did =
             [\<lparr>targetWorkload = wlid,
               containers = (case wlidsToContainerToImageIDMap wh wlid of
                               None \<Rightarrow> Map.empty | Some m \<Rightarrow> m)\<rparr>]
           \<and> deleteCalls did = [] \<and> errorSignals did = [])))"
proof -
  have other: "(\<forall>obj. evObject e \<noteq> SBOMSPDXv2p3Filtered obj) \<Longrightarrow>
         handleSBOMFilteredEvent wlidKey wh e = noEffects\<lparr>errorSignals := [ErrUnsupportedObject]\<rparr>"
    by (cases "evObject e") (simp_all add: handleSBOMFilteredEvent_def)
  have typed: "evObject e = SBOMSPDXv2p3Filtered obj \<Longrightarrow>
        (evType e = Deleted \<longrightarrow>
           deleteCalls (handleSBOMFilteredEvent wlidKey wh e) = []
           \<and> producedCommands (handleSBOMFilteredEvent wlidKey wh e) = []
           \<and> errorSignals (handleSBOMFilteredEvent wlidKey wh e) = [])
      \<and> (evType e \<in> {Added, Modified} \<and> metaName obj \<notin> set (hashedInstanceIDs wh) \<longrightarrow>
           deleteCalls (handleSBOMFilteredEvent wlidKey wh e) = [(metaNamespace obj, metaName obj)]
           \<and> producedCommands (handleSBOMFilteredEvent wlidKey wh e) = []
           \<and> errorSignals (handleSBOMFilteredEvent wlidKey wh e) = [])
      \<and> (evType e \<in> {Added, Modified} \<and> metaName obj \<in> set (hashedInstanceIDs wh)
           \<and> metaAnnotations obj wlidKey = None \<longrightarrow>
           errorSignals (handleSBOMFilteredEvent wlidKey wh e) = [ErrMissingWLIDAnnotation]
           \<and> producedCommands (handleSBOMFilteredEvent wlidKey wh e) = []
           \<and> deleteCalls (handleSBOMFilteredEvent wlidKey wh e) = [])
      \<and> (\<forall>wlid. evType e \<in> {Added, Modified} \<and> metaName obj \<in> set (hashedInstanceIDs wh)
           \<and> metaAnnotations obj wlidKey = Some wlid \<longrightarrow>
           producedCommands (handleSBOMFilteredEvent wlidKey wh e) =
             [\<lparr>targetWorkload = wlid,
               containers = (case wlidsToContainerToImageIDMap wh wlid of
                               None \<Rightarrow> Map.empty | Some m \<Rightarrow> m)\<rparr>]
           \<and> deleteCalls (handleSBOMFilteredEvent wlidKey wh e) = []
           \<and> errorSignals (handleSBOMFilteredEvent wlidKey wh e) = [])" for obj
    by (auto simp: handleSBOMFilteredEvent_def Let_def getImageScanCommand_def
          GetContainerToImageIDForWlid_def)
  show ?thesis
    unfolding Let_def using other typed by blast
qed

theorem filtered_sbom_events_witness:
  "producedCommands (handleSBOMFilteredEvent ''wlid'' exStore exFilteredAdded)
     = [\<lparr>targetWorkload = ''N/Deployment/D'', containers = [''side'' \<mapsto> ''repo/img@sha256:aaa'']\<rparr>]
   \<and> deleteCalls (handleSBOMFilteredEvent ''wlid'' exStore exFilteredOrphan) = [(''kubescape'', ''zzz'')]
   \<and> errorSignals (handleSBOMFilteredEvent ''wlid'' exStore exFilteredDeleted) = []
   \<and> handleSBOMFilteredEvent ''wlid'' exStore exStatusDeleted
       = noEffects\<lparr>errorSignals := [ErrUnsupportedObject]\<rparr>"
proof -
  define key where "key = ''wlid''"
  have added: "evObject exFilteredAdded = SBOMSPDXv2p3Filtered exAnnotated"
              "evType exFilteredAdded \<in> {Added, Modified}"
    by (simp_all add: exFilteredAdded_def)
  have known: "metaName exAnnotated \<in> set (hashedInstanceIDs exStore)"
    by (simp add: exStore_ids exAnnotated_def)
  have ann: "metaAnnotations exAnnotated key = Some exWlid"
    by (simp add: exAnnotated_def key_def exWlid_def)
  have c1: "producedCommands (handleSBOMFilteredEvent key exStore exFilteredAdded)
            = [\<lparr>targetWorkload = exWlid,
                containers = (case wlidsToContainerToImageIDMap exStore exWlid of
                                None \<Rightarrow> Map.empty | Some m \<Rightarrow> m)\<rparr>]"
    using filtered_sbom_events [of key exStore exFilteredAdded] added known ann
    unfolding Let_def by blast
  have orphan: "evObject exFilteredOrphan = SBOMSPDXv2p3Filtered exOrphan"
               "evType exFilteredOrphan \<in> {Added, Modified}"
    by (simp_all add: exFilteredOrphan_def)
  have absent: "metaName exOrphan \<notin> set (hashedInstanceIDs exStore)"
    by (simp add: exStore_ids exOrphan_def)
  have c2: "deleteCalls (handleSBOMFilteredEvent key exStore exFilteredOrphan)
            = [(metaNamespace exOrphan, metaName exOrphan)]"
    using filtered_sbom_events [of key exStore exFilteredOrphan] orphan absent
    unfolding Let_def by blast
  have deleted: "evObject exFilteredDeleted = SBOMSPDXv2p3Filtered exAnnotated"
                "evType exFilteredDeleted = Deleted"
    by (simp_all add: exFilteredDeleted_def)
  have c3: "errorSignals (handleSBOMFilteredEvent key exStore exFilteredDeleted) = []"
    using filtered_sbom_events [of key exStore exFilteredDeleted] deleted
    unfolding Let_def by blast
  have status: "\<forall>obj. evObject exStatusDeleted \<noteq> SBOMSPDXv2p3Filtered obj"
    by (simp add: exStatusDeleted_def)
  have c4: "handleSBOMFilteredEvent key exStore exStatusDeleted
            = noEffects\<lparr>errorSignals := [ErrUnsupportedObject]\<rparr>"
    using filtered_sbom_events [of key exStore exStatusDeleted] status
    unfolding Let_def by blast
  from c1 c2 c3 c4 show ?thesis
    by (simp add: key_def exWlid_def exStore_wc exOrphan_def)
qed

section \<open>What the rebuild registers\<close>

lemma buildPod_skip: "registeredAs k pod = None \<Longrightarrow> buildPod k pod wh = wh"
  by (auto simp: registeredAs_def buildPod_def Let_def split: if_splits sum.splits)

lemma buildPod_registered:
  assumes "registeredAs k pod = Some wlid"
  shows "\<exists>ids. GenerateInstanceIDFromPod k pod = Inr ids
           \<and> buildPod k pod wh =
               fold (\<lambda>(imgID, names) w.
                      fold (\<lambda>containerName. addToWlidsToContainerToImageIDMap wlid containerName imgID)
                           names (addToImageIDToWlidsMap k imgID [wlid] w))
                    (extractImageIDsToContainersFromPod pod)
                    (fold addToInstanceIDsList ids wh)"
  using assms
  by (auto simp: registeredAs_def buildPod_def Let_def split: if_splits sum.splits)

lemma inner_reg_fields [simp]:
  "iwMap (fold (\<lambda>containerName. addToWlidsToContainerToImageIDMap wlid containerName imgID) names w) = iwMap w"
  "hashedInstanceIDs (fold (\<lambda>containerName. addToWlidsToContainerToImageIDMap wlid containerName imgID) names w)
     = hashedInstanceIDs w"
  "currentPodListResourceVersion (fold (\<lambda>containerName. addToWlidsToContainerToImageIDMap wlid containerName imgID) names w)
     = currentPodListResourceVersion w"
  by (induction names rule: rev_induct) simp_all

lemma inner_reg_wc:
  "wlidsToContainerToImageIDMap
     (fold (\<lambda>containerName. addToWlidsToContainerToImageIDMap wlid containerName imgID) names w)
   = wcPuts wlid (map (\<lambda>c. (c, imgID)) names) (wlidsToContainerToImageIDMap w)"
  by (induction names rule: rev_induct) (simp_all add: addWC_wcPuts wcPuts_snoc)

lemma group_reg_fields [simp]:
  "hashedInstanceIDs (fold (\<lambda>(imgID, names) w.
       fold (\<lambda>containerName. addToWlidsToContainerToImageIDMap wlid containerName imgID)
            names (addToImageIDToWlidsMap k imgID [wlid] w)) g wh) = hashedInstanceIDs wh"
  "currentPodListResourceVersion (fold (\<lambda>(imgID, names) w.
       fold (\<lambda>containerName. addToWlidsToContainerToImageIDMap wlid containerName imgID)
            names (addToImageIDToWlidsMap k imgID [wlid] w)) g wh) = currentPodListResourceVersion wh"
  by (induction g rule: rev_induct) (simp_all add: case_prod_unfold)

lemma group_reg_wc:
  "wlidsToContainerToImageIDMap (fold (\<lambda>(imgID, names) w.
       fold (\<lambda>containerName. addToWlidsToContainerToImageIDMap wlid containerName imgID)
            names (addToImageIDToWlidsMap k imgID [wlid] w)) g wh)
   = wcPuts wlid (pairsOf g) (wlidsToContainerToImageIDMap wh)"
proof (induction g rule: rev_induct)
  case Nil
  then show ?case by simp
next
  case (snoc a g)
  obtain i ns where a: "a = (i, ns)" by (cases a)
  have po: "pairsOf (g @ [(i, ns)]) = pairsOf g @ map (\<lambda>c. (c, i)) ns"
    by (simp add: pairsOf_def)
  show ?case
    by (simp add: a po inner_reg_wc snoc.IH wcPuts_append)
qed

lemma group_reg_iw:
  "iwMap (fold (\<lambda>(imgID, names) w.
       fold (\<lambda>containerName. addToWlidsToContainerToImageIDMap wlid containerName imgID)
            names (addToImageIDToWlidsMap k imgID [wlid] w)) g wh) h
   = (if h \<in> (\<lambda>p. extractImageHash k (fst p)) ` set g
      then Some ((case iwMap wh h of None \<Rightarrow> {} | Some s \<Rightarrow> s) \<union> {wlid})
      else iwMap wh h)"
proof (induction g rule: rev_induct)
  case Nil
  then show ?case by simp
next
  case (snoc a g)
  obtain i ns where a: "a = (i, ns)" by (cases a)
  show ?case
  proof (cases "h = extractImageHash k i")
    case True
    with snoc.IH show ?thesis by (auto simp add: a addIW_iw split: if_splits)
  next
    case False
    then show ?thesis by (simp add: a addIW_iw snoc.IH image_iff)
  qed
qed

lemma update_set_subset: "set (AList.update k v al) \<subseteq> insert (k, v) (set al)"
  by (induction al) auto

lemma extract_groups_nonempty_aux:
  assumes "\<forall>p \<in> set m. snd p \<noteq> []"
  shows "\<forall>p \<in> set (fold (\<lambda>cs m.
            if csRunning cs
            then AList.update (csImageID cs)
                   ((case map_of m (csImageID cs) of None \<Rightarrow> [] | Some names \<Rightarrow> names) @ [csName cs]) m
            else m) css m). snd p \<noteq> []"
  using assms
proof (induction css rule: rev_induct)
  case Nil
  then show ?case by simp
next
  case (snoc cs css)
  then show ?case
    using update_set_subset by (fastforce split: if_splits)
qed

lemma extract_groups_nonempty:
  "p \<in> set (extractImageIDsToContainersFromPod pod) \<Longrightarrow> snd p \<noteq> []"
  using extract_groups_nonempty_aux [of "[]" "containerStatuses pod"]
  by (simp add: extractImageIDsToContainersFromPod_def)

lemma pairsOf_images:
  assumes "\<And>p. p \<in> set g \<Longrightarrow> snd p \<noteq> []"
  shows "fst ` set g = snd ` set (pairsOf g)"
proof
  show "fst ` set g \<subseteq> snd ` set (pairsOf g)"
  proof
    fix i assume "i \<in> fst ` set g"
    then obtain ns where g: "(i, ns) \<in> set g" by auto
    with assms have "ns \<noteq> []" by fastforce
    then obtain c where "c \<in> set ns" by (cases ns) auto
    with g have "(c, i) \<in> set (pairsOf g)" by (force simp: pairsOf_def)
    then show "i \<in> snd ` set (pairsOf g)" by force
  qed
  show "snd ` set (pairsOf g) \<subseteq> fst ` set g"
    by (force simp: pairsOf_def)
qed

lemma extract_images:
  "(\<lambda>p. extractImageHash k (fst p)) ` set (extractImageIDsToContainersFromPod pod)
   = (\<lambda>p. extractImageHash k (snd p)) ` set (runningPairs pod)"
proof -
  have "fst ` set (extractImageIDsToContainersFromPod pod) = snd ` set (runningPairs pod)"
    using pairsOf_images [of "extractImageIDsToContainersFromPod pod"] extract_groups_nonempty
    by (simp add: extract_pairs)
  then have "extractImageHash k ` fst ` set (extractImageIDsToContainersFromPod pod)
             = extractImageHash k ` snd ` set (runningPairs pod)"
    by simp
  then show ?thesis by (simp add: image_image)
qed

lemma buildPod_wc:
  "wlidsToContainerToImageIDMap (buildPod k pod wh)
   = (case registeredAs k pod of
        None \<Rightarrow> wlidsToContainerToImageIDMap wh
      | Some wlid \<Rightarrow> wcPuts wlid (pairsOf (extractImageIDsToContainersFromPod pod))
                       (wlidsToContainerToImageIDMap wh))"
proof (cases "registeredAs k pod")
  case None
  then show ?thesis by (simp add: buildPod_skip)
next
  case (Some wlid)
  from buildPod_registered [OF Some, of wh] obtain ids where
    "buildPod k pod wh =
               fold (\<lambda>(imgID, names) w.
                      fold (\<lambda>containerName. addToWlidsToContainerToImageIDMap wlid containerName imgID)
                           names (addToImageIDToWlidsMap k imgID [wlid] w))
                    (extractImageIDsToContainersFromPod pod)
                    (fold addToInstanceIDsList ids wh)"
    by blast
  then show ?thesis by (simp add: Some group_reg_wc)
qed

lemma buildPod_iw:
  "iwMap (buildPod k pod wh) h
   = (case registeredAs k pod of
        None \<Rightarrow> iwMap wh h
      | Some wlid \<Rightarrow>
          if h \<in> (\<lambda>p. extractImageHash k (snd p)) ` set (runningPairs pod)
          then Some ((case iwMap wh h of None \<Rightarrow> {} | Some s \<Rightarrow> s) \<union> {wlid})
          else iwMap wh h)"
proof (cases "registeredAs k pod")
  case None
  then show ?thesis by (simp add: buildPod_skip)
next
  case (Some wlid)
  from buildPod_registered [OF Some, of wh] obtain ids where
    b: "buildPod k pod wh =
               fold (\<lambda>(imgID, names) w.
                      fold (\<lambda>containerName. addToWlidsToContainerToImageIDMap wlid containerName imgID)
                           names (addToImageIDToWlidsMap k imgID [wlid] w))
                    (extractImageIDsToContainersFromPod pod)
                    (fold addToInstanceIDsList ids wh)"
    by blast
  show ?thesis by (simp add: Some b group_reg_iw extract_images)
qed

lemma buildPod_ids:
  "hashedInstanceIDs (buildPod k pod wh)
   = (case registeredAs k pod of
        None \<Rightarrow> hashedInstanceIDs wh
      | Some wlid \<Rightarrow>
          (case GenerateInstanceIDFromPod k pod of
             Inl err \<Rightarrow> hashedInstanceIDs wh
           | Inr ids \<Rightarrow> hashedInstanceIDs (fold addToInstanceIDsList ids wh)))"
proof (cases "registeredAs k pod")
  case None
  then show ?thesis by (simp add: buildPod_skip)
next
  case (Some wlid)
  from buildPod_registered [OF Some, of wh] show ?thesis
    by (auto simp: Some)
qed

lemma buildPod_version [simp]:
  "currentPodListResourceVersion (buildPod k pod wh) = currentPodListResourceVersion wh"
proof (cases "registeredAs k pod")
  case None
  then show ?thesis by (simp add: buildPod_skip)
next
  case (Some wlid)
  from buildPod_registered [OF Some, of wh] show ?thesis
    by auto
qed

lemma cleanUpIDs_fields [simp]:
  "iwMap (cleanUpIDs wh) = Map.empty"
  "hashedInstanceIDs (cleanUpIDs wh) = []"
  "wlidsToContainerToImageIDMap (cleanUpIDs wh) = Map.empty"
  "currentPodListResourceVersion (cleanUpIDs wh) = currentPodListResourceVersion wh"
  by (simp_all add: cleanUpIDs_def cleanUpWlidsToContainerToImageIDMap_def cleanUpInstanceIDs_def
        iwClear_def)

section \<open>C4: the indices after a cleanup\<close>

lemma GetC2I_wcPuts_same:
  "(case wcPuts wlid ps m wlid of None \<Rightarrow> Map.empty | Some x \<Rightarrow> x) c
   = (case map_of (rev ps) c of
        None \<Rightarrow> (case m wlid of None \<Rightarrow> Map.empty | Some x \<Rightarrow> x) c
      | Some i \<Rightarrow> Some i)"
  by (simp add: wcPuts_inner map_add_def)

lemma buildPod_GetC2I:
  "GetContainerToImageIDForWlid (buildPod k q wh) wlid c
   = (if registeredAs k q = Some wlid
      then (case map_of (rev (pairsOf (extractImageIDsToContainersFromPod q))) c of
              None \<Rightarrow> GetContainerToImageIDForWlid wh wlid c
            | Some i \<Rightarrow> Some i)
      else GetContainerToImageIDForWlid wh wlid c)"
proof (cases "registeredAs k q")
  case None
  then show ?thesis by (simp add: buildPod_skip)
next
  case (Some w)
  show ?thesis
  proof (cases "w = wlid")
    case True
    then show ?thesis
      by (simp add: GetContainerToImageIDForWlid_def buildPod_wc Some GetC2I_wcPuts_same
            split: option.splits)
  next
    case False
    then have "wlid \<noteq> w" by simp
    then show ?thesis
      using False by (simp add: GetContainerToImageIDForWlid_def buildPod_wc Some wcPuts_other)
  qed
qed

lemma rev_pairs_lookup:
  "map_of (rev (pairsOf (extractImageIDsToContainersFromPod q))) c = Some x
   \<Longrightarrow> (c, x) \<in> set (runningPairs q)"
  by (drule map_of_SomeD) (simp add: extract_pairs)

lemma rev_pairs_none:
  "map_of (rev (pairsOf (extractImageIDsToContainersFromPod q))) c = None
   \<Longrightarrow> (c, x) \<notin> set (runningPairs q)"
proof -
  assume "map_of (rev (pairsOf (extractImageIDsToContainersFromPod q))) c = None"
  then have "c \<notin> fst ` set (rev (pairsOf (extractImageIDsToContainersFromPod q)))"
    by (simp add: map_of_eq_None_iff)
  then show ?thesis by (force simp add: extract_pairs)
qed

lemma buildPod_entry:
  assumes H: "registeredAs k q = Some wlid \<longrightarrow>
                (\<forall>cs \<in> set (containerStatuses q). csRunning cs \<and> csName cs = c \<longrightarrow> csImageID cs = i)"
      and now: "GetContainerToImageIDForWlid wh wlid c = Some i
                \<or> (registeredAs k q = Some wlid \<and> (c, i) \<in> set (runningPairs q))"
  shows "GetContainerToImageIDForWlid (buildPod k q wh) wlid c = Some i"
proof (cases "registeredAs k q = Some wlid")
  case False
  with now show ?thesis by (simp add: buildPod_GetC2I)
next
  case True
  show ?thesis
  proof (cases "map_of (rev (pairsOf (extractImageIDsToContainersFromPod q))) c")
    case None
    from rev_pairs_none [OF None, of i] now have "GetContainerToImageIDForWlid wh wlid c = Some i"
      by simp
    with None True show ?thesis by (simp add: buildPod_GetC2I)
  next
    case (Some x)
    from rev_pairs_lookup [OF Some] have "(c, x) \<in> set (runningPairs q)" .
    with H True have "x = i" by (auto simp: runningPairs_iff)
    with Some True show ?thesis by (simp add: buildPod_GetC2I)
  qed
qed

lemma fold_buildPod_entry:
  assumes "\<forall>q \<in> set qs. registeredAs k q = Some wlid \<longrightarrow>
             (\<forall>cs \<in> set (containerStatuses q). csRunning cs \<and> csName cs = c \<longrightarrow> csImageID cs = i)"
      and "GetContainerToImageIDForWlid wh wlid c = Some i"
  shows "GetContainerToImageIDForWlid (fold (buildPod k) qs wh) wlid c = Some i"
  using assms
proof (induction qs rule: rev_induct)
  case Nil
  then show ?case by simp
next
  case (snoc q qs)
  then have "GetContainerToImageIDForWlid (fold (buildPod k) qs wh) wlid c = Some i"
    by simp
  moreover from snoc.prems(1) have "registeredAs k q = Some wlid \<longrightarrow>
             (\<forall>cs \<in> set (containerStatuses q). csRunning cs \<and> csName cs = c \<longrightarrow> csImageID cs = i)"
    by simp
  ultimately show ?case
    using buildPod_entry [of k q wlid c i "fold (buildPod k) qs wh"] by simp
qed

lemma buildPod_has_entry:
  assumes "GetContainerToImageIDForWlid wh wlid c \<noteq> None
           \<or> (registeredAs k q = Some wlid \<and> c \<in> fst ` set (runningPairs q))"
  shows "GetContainerToImageIDForWlid (buildPod k q wh) wlid c \<noteq> None"
proof (cases "map_of (rev (pairsOf (extractImageIDsToContainersFromPod q))) c")
  case None
  then have "c \<notin> fst ` set (runningPairs q)"
    using rev_pairs_none by fastforce
  with assms None show ?thesis by (simp add: buildPod_GetC2I)
next
  case (Some x)
  with assms show ?thesis by (auto simp add: buildPod_GetC2I)
qed

lemma fold_buildPod_has_entry:
  assumes "GetContainerToImageIDForWlid wh wlid c \<noteq> None"
  shows "GetContainerToImageIDForWlid (fold (buildPod k) qs wh) wlid c \<noteq> None"
proof (induction qs rule: rev_induct)
  case Nil
  with assms show ?case by simp
next
  case (snoc q qs)
  then show ?case
    using buildPod_has_entry [of "fold (buildPod k) qs wh" wlid c k q] by simp
qed

lemma buildPod_key:
  "wlidsToContainerToImageIDMap (buildPod k pod wh) w \<noteq> None
   \<Longrightarrow> wlidsToContainerToImageIDMap wh w \<noteq> None \<or> registeredAs k pod = Some w"
  by (auto simp: buildPod_wc wcPuts_def split: option.splits if_splits)

lemma fold_buildPod_key:
  "wlidsToContainerToImageIDMap (fold (buildPod k) pods wh) w \<noteq> None
   \<Longrightarrow> wlidsToContainerToImageIDMap wh w \<noteq> None \<or> (\<exists>pod \<in> set pods. registeredAs k pod = Some w)"
proof (induction pods rule: rev_induct)
  case Nil
  then show ?case by simp
next
  case (snoc pod pods)
  from snoc.prems have "wlidsToContainerToImageIDMap (buildPod k pod (fold (buildPod k) pods wh)) w \<noteq> None"
    by simp
  from buildPod_key [OF this] snoc.IH show ?case by auto
qed

lemma registeredAs_running: "registeredAs k pod = Some w \<Longrightarrow> podPhase pod = PodRunning"
  by (simp add: registeredAs_def split: if_splits)

lemma ex_registered: "registeredAs exCluster exPod = Some exWlid"
  by (simp add: registeredAs_def getParentWorkloadForPod_def exCluster_def exPod_def exApp_def exWlid_def)

lemma ex_registered_next: "registeredAs exCluster exPodNext = Some exWlid"
  by (simp add: registeredAs_def getParentWorkloadForPod_def exCluster_def exPodNext_def exAppNext_def
        exWlid_def)

lemma ex_rolling_result:
  "GetContainerToImageIDForWlid (cleanUp exCluster (Inr exRollingListing) exEmpty) exWlid ''app''
   = Some ''repo/img@sha256:bbb''"
proof -
  have H: "registeredAs exCluster exPodNext = Some exWlid \<longrightarrow>
             (\<forall>cs \<in> set (containerStatuses exPodNext).
                csRunning cs \<and> csName cs = ''app'' \<longrightarrow> csImageID cs = ''repo/img@sha256:bbb'')"
    by (simp add: exPodNext_def exAppNext_def)
  have pair: "(''app'', ''repo/img@sha256:bbb'') \<in> set (runningPairs exPodNext)"
    by (simp add: runningPairs_def exPodNext_def exAppNext_def)
  have "cleanUp exCluster (Inr exRollingListing) exEmpty
        = buildPod exCluster exPodNext (buildPod exCluster exPod (cleanUpIDs exEmpty))"
    by (simp add: cleanUp_def buildIDs_def exRollingListing_def)
  then show ?thesis
    using buildPod_entry [OF H, of "buildPod exCluster exPod (cleanUpIDs exEmpty)"] ex_registered_next pair
    by simp
qed

text \<open>
  C4 as stated fails when two Running pods of one workload report the same container
  with different images, as during a rolling update: the entry is written once per pod
  (line 539) and the later write replaces the earlier.
\<close>

theorem cleanup_invariant_counterexample:
  "exPod \<in> set (items exRollingListing)
   \<and> podPhase exPod = PodRunning
   \<and> registeredAs exCluster exPod = Some ''N/Deployment/D''
   \<and> (''app'', ''repo/img@sha256:aaa'') \<in> set (runningPairs exPod)
   \<and> GetContainerToImageIDForWlid (cleanUp exCluster (Inr exRollingListing) exEmpty)
         ''N/Deployment/D'' ''app'' \<noteq> Some ''repo/img@sha256:aaa''"
proof -
  have "exPod \<in> set (items exRollingListing)"
    by (simp add: exRollingListing_def)
  moreover have "podPhase exPod = PodRunning"
    by (simp add: exPod_def)
  moreover have "(''app'', ''repo/img@sha256:aaa'') \<in> set (runningPairs exPod)"
    by (simp add: runningPairs_def exPod_def exApp_def)
  ultimately show ?thesis
    using ex_registered ex_rolling_result by (simp add: exWlid_def)
qed

text \<open>
  C4, amended. After a cleanup cycle on a successful listing, take a pod of the listing
  that the rebuild registers under a workload: it is Running, one of its containers is
  running, its parent workload resolves and its instance ids are generated. Every running
  container of that pod has an entry under the workload in the WorkloadContainerIndex; the
  entry holds the pod's own image reference when neither the pod nor a later pod of the
  same workload in the listing reports a container of that name with another image (a
  later write replaces an earlier one). Every key of the WorkloadContainerIndex is the
  workload of a Running pod of the listing.
\<close>

theorem cleanup_invariant:
  "(items podsList = before @ pod # after \<and> registeredAs k pod = Some wlid
      \<and> cs \<in> set (containerStatuses pod) \<and> csRunning cs \<longrightarrow>
        (\<exists>i. GetContainerToImageIDForWlid (cleanUp k (Inr podsList) wh) wlid (csName cs) = Some i)
      \<and> ((\<forall>q \<in> set (pod # after). registeredAs k q = Some wlid \<longrightarrow>
              (\<forall>cs' \<in> set (containerStatuses q).
                  csRunning cs' \<and> csName cs' = csName cs \<longrightarrow> csImageID cs' = csImageID cs))
          \<longrightarrow> GetContainerToImageIDForWlid (cleanUp k (Inr podsList) wh) wlid (csName cs)
                = Some (csImageID cs)))
   \<and> (wlidsToContainerToImageIDMap (cleanUp k (Inr podsList) wh) w \<noteq> None \<longrightarrow>
        (\<exists>p \<in> set (items podsList). podPhase p = PodRunning \<and> registeredAs k p = Some w))"
proof (intro conjI impI)
  assume a: "items podsList = before @ pod # after \<and> registeredAs k pod = Some wlid
      \<and> cs \<in> set (containerStatuses pod) \<and> csRunning cs"
  let ?w0 = "fold (buildPod k) before (cleanUpIDs wh)"
  have final: "cleanUp k (Inr podsList) wh = fold (buildPod k) after (buildPod k pod ?w0)"
    using a by (simp add: cleanUp_def buildIDs_def)
  have pair: "(csName cs, csImageID cs) \<in> set (runningPairs pod)"
    using a by (auto simp: runningPairs_iff)
  then have "csName cs \<in> fst ` set (runningPairs pod)" by force
  with a have "GetContainerToImageIDForWlid (buildPod k pod ?w0) wlid (csName cs) \<noteq> None"
    using buildPod_has_entry [of ?w0 wlid "csName cs" k pod] by simp
  then have "GetContainerToImageIDForWlid (cleanUp k (Inr podsList) wh) wlid (csName cs) \<noteq> None"
    unfolding final by (rule fold_buildPod_has_entry)
  then show "\<exists>i. GetContainerToImageIDForWlid (cleanUp k (Inr podsList) wh) wlid (csName cs) = Some i"
    by auto
  assume H: "\<forall>q \<in> set (pod # after). registeredAs k q = Some wlid \<longrightarrow>
              (\<forall>cs' \<in> set (containerStatuses q).
                  csRunning cs' \<and> csName cs' = csName cs \<longrightarrow> csImageID cs' = csImageID cs)"
  then have Hpod: "registeredAs k pod = Some wlid \<longrightarrow>
              (\<forall>cs' \<in> set (containerStatuses pod).
                  csRunning cs' \<and> csName cs' = csName cs \<longrightarrow> csImageID cs' = csImageID cs)"
    by simp
  from H have Hafter: "\<forall>q \<in> set after. registeredAs k q = Some wlid \<longrightarrow>
              (\<forall>cs' \<in> set (containerStatuses q).
                  csRunning cs' \<and> csName cs' = csName cs \<longrightarrow> csImageID cs' = csImageID cs)"
    by simp
  have "GetContainerToImageIDForWlid (buildPod k pod ?w0) wlid (csName cs) = Some (csImageID cs)"
    using buildPod_entry [OF Hpod, of ?w0] a pair by simp
  then show "GetContainerToImageIDForWlid (cleanUp k (Inr podsList) wh) wlid (csName cs)
                = Some (csImageID cs)"
    unfolding final by (rule fold_buildPod_entry [OF Hafter])
next
  assume "wlidsToContainerToImageIDMap (cleanUp k (Inr podsList) wh) w \<noteq> None"
  then have "wlidsToContainerToImageIDMap (fold (buildPod k) (items podsList) (cleanUpIDs wh)) w \<noteq> None"
    by (simp add: cleanUp_def buildIDs_def)
  from fold_buildPod_key [OF this] obtain p where "p \<in> set (items podsList)" "registeredAs k p = Some w"
    by auto
  then show "\<exists>p \<in> set (items podsList). podPhase p = PodRunning \<and> registeredAs k p = Some w"
    using registeredAs_running by blast
qed

theorem cleanup_invariant_witness:
  "items exRollingListing = [exPod] @ exPodNext # []
   \<and> registeredAs exCluster exPodNext = Some ''N/Deployment/D''
   \<and> exAppNext \<in> set (containerStatuses exPodNext) \<and> csRunning exAppNext
   \<and> GetContainerToImageIDForWlid (cleanUp exCluster (Inr exRollingListing) exStore) ''N/Deployment/D'' ''app''
       = Some ''repo/img@sha256:bbb''
   \<and> wlidsToContainerToImageIDMap (cleanUp exCluster (Inr exRollingListing) exStore) ''N/Deployment/D'' \<noteq> None
   \<and> (\<exists>p \<in> set (items exRollingListing). podPhase p = PodRunning \<and> registeredAs exCluster p = Some ''N/Deployment/D'')"
proof -
  have listing: "items exRollingListing = [exPod] @ exPodNext # []"
    by (simp add: exRollingListing_def)
  have cs: "exAppNext \<in> set (containerStatuses exPodNext) \<and> csRunning exAppNext"
    by (simp add: exPodNext_def exAppNext_def)
  have fields: "csName exAppNext = ''app'' \<and> csImageID exAppNext = ''repo/img@sha256:bbb''"
    by (simp add: exAppNext_def)
  have H: "\<forall>q \<in> set (exPodNext # []). registeredAs exCluster q = Some exWlid \<longrightarrow>
              (\<forall>cs' \<in> set (containerStatuses q).
                  csRunning cs' \<and> csName cs' = csName exAppNext \<longrightarrow> csImageID cs' = csImageID exAppNext)"
    by (simp add: exPodNext_def)
  note inv = cleanup_invariant [of exRollingListing "[exPod]" exPodNext "[]" exCluster exWlid exAppNext
                                   exStore exWlid]
  from inv listing ex_registered_next cs H have entry:
    "GetContainerToImageIDForWlid (cleanUp exCluster (Inr exRollingListing) exStore) exWlid (csName exAppNext)
       = Some (csImageID exAppNext)"
    by blast
  then have key: "wlidsToContainerToImageIDMap (cleanUp exCluster (Inr exRollingListing) exStore) exWlid \<noteq> None"
    by (auto simp: GetContainerToImageIDForWlid_def split: option.splits)
  with inv have "\<exists>p \<in> set (items exRollingListing). podPhase p = PodRunning \<and> registeredAs exCluster p = Some exWlid"
    by blast
  with entry key listing ex_registered_next cs fields show ?thesis
    by (simp add: exWlid_def)
qed

section \<open>What a listing leaves in the store\<close>

lemma hashes_iff:
  "h \<in> (\<lambda>p. extractImageHash k (snd p)) ` set (runningPairs pod)
   \<longleftrightarrow> (\<exists>cs \<in> set (containerStatuses pod). csRunning cs \<and> extractImageHash k (csImageID cs) = h)"
  by (force simp: runningPairs_def)

lemma names_iff:
  "c \<in> fst ` set (runningPairs pod)
   \<longleftrightarrow> (\<exists>cs \<in> set (containerStatuses pod). csRunning cs \<and> csName cs = c)"
  by (force simp: runningPairs_def)

lemma registered_has_pair: "registeredAs k pod = Some w \<Longrightarrow> runningPairs pod \<noteq> []"
  by (auto simp: registeredAs_def runningPairs_def list_ex_iff filter_empty_conv split: if_splits)

lemma registered_generates:
  "registeredAs k pod = Some w \<Longrightarrow> \<exists>ids. GenerateInstanceIDFromPod k pod = Inr ids"
  by (auto simp: registeredAs_def split: if_splits sum.splits)

subsection \<open>One pod\<close>

lemma buildPod_iw_mem:
  "(\<exists>t. iwMap (buildPod k q w) h = Some t \<and> x \<in> t)
   \<longleftrightarrow> (\<exists>t. iwMap w h = Some t \<and> x \<in> t)
       \<or> (registeredAs k q = Some x
          \<and> (\<exists>cs \<in> set (containerStatuses q). csRunning cs \<and> extractImageHash k (csImageID cs) = h))"
  unfolding hashes_iff [symmetric]
  by (cases "registeredAs k q") (auto simp: buildPod_iw split: option.splits)

lemma buildPod_iw_key:
  "iwMap (buildPod k q w) h = None
   \<longleftrightarrow> iwMap w h = None
       \<and> \<not> (\<exists>wlid. registeredAs k q = Some wlid
               \<and> (\<exists>cs \<in> set (containerStatuses q). csRunning cs \<and> extractImageHash k (csImageID cs) = h))"
  unfolding hashes_iff [symmetric]
  by (cases "registeredAs k q") (auto simp: buildPod_iw split: option.splits)

lemma fold_addInst_prefix:
  "\<exists>rest. hashedInstanceIDs (fold addToInstanceIDsList ids w) = hashedInstanceIDs w @ rest"
  by (induction ids rule: rev_induct) (auto simp: addToInstanceIDsList_def)

lemma fold_addInst_distinct:
  "distinct (hashedInstanceIDs w) \<Longrightarrow> distinct (hashedInstanceIDs (fold addToInstanceIDsList ids w))"
  by (induction ids rule: rev_induct) (auto simp: addToInstanceIDsList_def)

lemma buildPod_ids_mem:
  "x \<in> set (hashedInstanceIDs (buildPod k q w))
   \<longleftrightarrow> x \<in> set (hashedInstanceIDs w)
       \<or> (\<exists>wlid ids. registeredAs k q = Some wlid \<and> GenerateInstanceIDFromPod k q = Inr ids \<and> x \<in> set ids)"
proof (cases "registeredAs k q")
  case None
  then show ?thesis by (simp add: buildPod_skip)
next
  case (Some wlid)
  from registered_generates [OF Some] obtain ids where "GenerateInstanceIDFromPod k q = Inr ids"
    by blast
  with Some show ?thesis by (simp add: buildPod_ids fold_addInst_set)
qed

lemma buildPod_ids_prefix:
  "\<exists>rest. hashedInstanceIDs (buildPod k q w) = hashedInstanceIDs w @ rest"
  by (simp add: buildPod_ids fold_addInst_prefix split: option.splits sum.splits)

lemma buildPod_ids_distinct:
  "distinct (hashedInstanceIDs w) \<Longrightarrow> distinct (hashedInstanceIDs (buildPod k q w))"
  by (simp add: buildPod_ids fold_addInst_distinct split: option.splits sum.splits)

lemma buildPod_wc_key:
  "wlidsToContainerToImageIDMap (buildPod k q w) x \<noteq> None
   \<longleftrightarrow> wlidsToContainerToImageIDMap w x \<noteq> None \<or> registeredAs k q = Some x"
proof (cases "registeredAs k q")
  case None
  then show ?thesis by (simp add: buildPod_skip)
next
  case (Some wlid)
  from registered_has_pair [OF Some] have "set (runningPairs q) \<noteq> {}" by simp
  then have "set (pairsOf (extractImageIDsToContainersFromPod q)) \<noteq> {}"
    by (simp add: extract_pairs)
  then have "pairsOf (extractImageIDsToContainersFromPod q) \<noteq> []" by auto
  with Some show ?thesis by (auto simp: buildPod_wc wcPuts_def)
qed

lemma buildPod_entry_iff:
  "GetContainerToImageIDForWlid (buildPod k q w) wlid c \<noteq> None
   \<longleftrightarrow> GetContainerToImageIDForWlid w wlid c \<noteq> None
       \<or> (registeredAs k q = Some wlid \<and> c \<in> fst ` set (runningPairs q))"
proof (cases "map_of (rev (pairsOf (extractImageIDsToContainersFromPod q))) c")
  case None
  then have "c \<notin> fst ` set (runningPairs q)"
    using rev_pairs_none by fastforce
  with None show ?thesis by (simp add: buildPod_GetC2I)
next
  case (Some i)
  from rev_pairs_lookup [OF Some] have "c \<in> fst ` set (runningPairs q)" by force
  with Some show ?thesis by (auto simp add: buildPod_GetC2I)
qed

lemma buildPod_value:
  assumes "GetContainerToImageIDForWlid (buildPod k q w) wlid c = Some i"
  shows "GetContainerToImageIDForWlid w wlid c = Some i
         \<or> (registeredAs k q = Some wlid \<and> (c, i) \<in> set (runningPairs q))"
proof (cases "registeredAs k q = Some wlid")
  case False
  with assms show ?thesis by (simp add: buildPod_GetC2I)
next
  case True
  show ?thesis
  proof (cases "map_of (rev (pairsOf (extractImageIDsToContainersFromPod q))) c")
    case None
    with assms True show ?thesis by (simp add: buildPod_GetC2I)
  next
    case (Some x)
    with assms True have "x = i" by (simp add: buildPod_GetC2I)
    with rev_pairs_lookup [OF Some] True show ?thesis by simp
  qed
qed

subsection \<open>The pods of a listing, one after the other\<close>

lemma fold_buildPod_iw_mem:
  "(\<exists>t. iwMap (fold (buildPod k) pods w0) h = Some t \<and> x \<in> t)
   \<longleftrightarrow> (\<exists>t. iwMap w0 h = Some t \<and> x \<in> t)
       \<or> (\<exists>pod \<in> set pods. registeredAs k pod = Some x
            \<and> (\<exists>cs \<in> set (containerStatuses pod). csRunning cs \<and> extractImageHash k (csImageID cs) = h))"
proof (induction pods rule: rev_induct)
  case Nil
  then show ?case by simp
next
  case (snoc q pods)
  have "(\<exists>t. iwMap (fold (buildPod k) (pods @ [q]) w0) h = Some t \<and> x \<in> t)
        \<longleftrightarrow> (\<exists>t. iwMap (buildPod k q (fold (buildPod k) pods w0)) h = Some t \<and> x \<in> t)"
    by simp
  also have "\<dots> \<longleftrightarrow> (\<exists>t. iwMap (fold (buildPod k) pods w0) h = Some t \<and> x \<in> t)
       \<or> (registeredAs k q = Some x
          \<and> (\<exists>cs \<in> set (containerStatuses q). csRunning cs \<and> extractImageHash k (csImageID cs) = h))"
    by (rule buildPod_iw_mem)
  finally show ?case
    unfolding snoc.IH by auto
qed

lemma fold_buildPod_iw_key:
  "iwMap (fold (buildPod k) pods w0) h = None
   \<longleftrightarrow> iwMap w0 h = None
       \<and> \<not> (\<exists>pod \<in> set pods. \<exists>wlid. registeredAs k pod = Some wlid
               \<and> (\<exists>cs \<in> set (containerStatuses pod). csRunning cs \<and> extractImageHash k (csImageID cs) = h))"
proof (induction pods rule: rev_induct)
  case Nil
  then show ?case by simp
next
  case (snoc q pods)
  have "iwMap (fold (buildPod k) (pods @ [q]) w0) h = None
        \<longleftrightarrow> iwMap (buildPod k q (fold (buildPod k) pods w0)) h = None"
    by simp
  also have "\<dots> \<longleftrightarrow> iwMap (fold (buildPod k) pods w0) h = None
       \<and> \<not> (\<exists>wlid. registeredAs k q = Some wlid
               \<and> (\<exists>cs \<in> set (containerStatuses q). csRunning cs \<and> extractImageHash k (csImageID cs) = h))"
    by (rule buildPod_iw_key)
  finally show ?case
    unfolding snoc.IH by auto
qed

lemma fold_buildPod_ids_mem:
  "x \<in> set (hashedInstanceIDs (fold (buildPod k) pods w0))
   \<longleftrightarrow> x \<in> set (hashedInstanceIDs w0)
       \<or> (\<exists>pod \<in> set pods. \<exists>wlid ids. registeredAs k pod = Some wlid
            \<and> GenerateInstanceIDFromPod k pod = Inr ids \<and> x \<in> set ids)"
proof (induction pods rule: rev_induct)
  case Nil
  then show ?case by simp
next
  case (snoc q pods)
  have "x \<in> set (hashedInstanceIDs (fold (buildPod k) (pods @ [q]) w0))
        \<longleftrightarrow> x \<in> set (hashedInstanceIDs (buildPod k q (fold (buildPod k) pods w0)))"
    by simp
  also have "\<dots> \<longleftrightarrow> x \<in> set (hashedInstanceIDs (fold (buildPod k) pods w0))
       \<or> (\<exists>wlid ids. registeredAs k q = Some wlid \<and> GenerateInstanceIDFromPod k q = Inr ids \<and> x \<in> set ids)"
    by (rule buildPod_ids_mem)
  finally show ?case
    unfolding snoc.IH by auto
qed

lemma fold_buildPod_ids_prefix:
  "\<exists>rest. hashedInstanceIDs (fold (buildPod k) pods w0) = hashedInstanceIDs w0 @ rest"
proof (induction pods rule: rev_induct)
  case Nil
  then show ?case by simp
next
  case (snoc q pods)
  then obtain r1 where r1: "hashedInstanceIDs (fold (buildPod k) pods w0) = hashedInstanceIDs w0 @ r1"
    by blast
  from buildPod_ids_prefix [of k q "fold (buildPod k) pods w0"] obtain r2 where
    "hashedInstanceIDs (buildPod k q (fold (buildPod k) pods w0))
       = hashedInstanceIDs (fold (buildPod k) pods w0) @ r2"
    by blast
  with r1 show ?case by simp
qed

lemma fold_buildPod_ids_distinct:
  "distinct (hashedInstanceIDs w0) \<Longrightarrow> distinct (hashedInstanceIDs (fold (buildPod k) pods w0))"
  by (induction pods rule: rev_induct) (simp_all add: buildPod_ids_distinct)

lemma fold_buildPod_wc_key:
  "wlidsToContainerToImageIDMap (fold (buildPod k) pods w0) x \<noteq> None
   \<longleftrightarrow> wlidsToContainerToImageIDMap w0 x \<noteq> None \<or> (\<exists>pod \<in> set pods. registeredAs k pod = Some x)"
proof (induction pods rule: rev_induct)
  case Nil
  then show ?case by simp
next
  case (snoc q pods)
  have "wlidsToContainerToImageIDMap (fold (buildPod k) (pods @ [q]) w0) x \<noteq> None
        \<longleftrightarrow> wlidsToContainerToImageIDMap (buildPod k q (fold (buildPod k) pods w0)) x \<noteq> None"
    by simp
  also have "\<dots> \<longleftrightarrow> wlidsToContainerToImageIDMap (fold (buildPod k) pods w0) x \<noteq> None
                    \<or> registeredAs k q = Some x"
    by (rule buildPod_wc_key)
  finally show ?case
    unfolding snoc.IH by auto
qed

lemma fold_buildPod_entry_iff:
  "GetContainerToImageIDForWlid (fold (buildPod k) pods w0) wlid c \<noteq> None
   \<longleftrightarrow> GetContainerToImageIDForWlid w0 wlid c \<noteq> None
       \<or> (\<exists>pod \<in> set pods. registeredAs k pod = Some wlid
            \<and> (\<exists>cs \<in> set (containerStatuses pod). csRunning cs \<and> csName cs = c))"
proof (induction pods rule: rev_induct)
  case Nil
  then show ?case by simp
next
  case (snoc q pods)
  have "GetContainerToImageIDForWlid (fold (buildPod k) (pods @ [q]) w0) wlid c \<noteq> None
        \<longleftrightarrow> GetContainerToImageIDForWlid (buildPod k q (fold (buildPod k) pods w0)) wlid c \<noteq> None"
    by simp
  also have "\<dots> \<longleftrightarrow> GetContainerToImageIDForWlid (fold (buildPod k) pods w0) wlid c \<noteq> None
       \<or> (registeredAs k q = Some wlid \<and> c \<in> fst ` set (runningPairs q))"
    by (rule buildPod_entry_iff)
  finally show ?case
    unfolding snoc.IH names_iff by auto
qed

lemma fold_buildPod_value:
  "GetContainerToImageIDForWlid (fold (buildPod k) pods w0) wlid c = Some i
   \<Longrightarrow> GetContainerToImageIDForWlid w0 wlid c = Some i
       \<or> (\<exists>pod \<in> set pods. registeredAs k pod = Some wlid
            \<and> (\<exists>cs \<in> set (containerStatuses pod). csRunning cs \<and> csName cs = c \<and> csImageID cs = i))"
proof (induction pods rule: rev_induct)
  case Nil
  then show ?case by simp
next
  case (snoc q pods)
  from snoc.prems have
    "GetContainerToImageIDForWlid (buildPod k q (fold (buildPod k) pods w0)) wlid c = Some i"
    by simp
  from buildPod_value [OF this] snoc.IH show ?case
    by (auto simp: runningPairs_iff)
qed

text \<open>
  The entry of a container holds the image of a pod when no later pod of the same workload
  reports a container of that name with another image.
\<close>

lemma listing_value:
  assumes "pods = before @ pod # after"
      and "registeredAs k pod = Some wlid"
      and "cs \<in> set (containerStatuses pod)" "csRunning cs"
      and "\<forall>q \<in> set (pod # after). registeredAs k q = Some wlid \<longrightarrow>
              (\<forall>cs' \<in> set (containerStatuses q).
                  csRunning cs' \<and> csName cs' = csName cs \<longrightarrow> csImageID cs' = csImageID cs)"
  shows "GetContainerToImageIDForWlid (fold (buildPod k) pods w0) wlid (csName cs) = Some (csImageID cs)"
proof -
  let ?w = "fold (buildPod k) before w0"
  have final: "fold (buildPod k) pods w0 = fold (buildPod k) after (buildPod k pod ?w)"
    using assms(1) by simp
  have pair: "(csName cs, csImageID cs) \<in> set (runningPairs pod)"
    using assms(3,4) by (auto simp: runningPairs_iff)
  from assms(5) have Hpod: "registeredAs k pod = Some wlid \<longrightarrow>
              (\<forall>cs' \<in> set (containerStatuses pod).
                  csRunning cs' \<and> csName cs' = csName cs \<longrightarrow> csImageID cs' = csImageID cs)"
    by simp
  from assms(5) have Hafter: "\<forall>q \<in> set after. registeredAs k q = Some wlid \<longrightarrow>
              (\<forall>cs' \<in> set (containerStatuses q).
                  csRunning cs' \<and> csName cs' = csName cs \<longrightarrow> csImageID cs' = csImageID cs)"
    by simp
  have "GetContainerToImageIDForWlid (buildPod k pod ?w) wlid (csName cs) = Some (csImageID cs)"
    using buildPod_entry [OF Hpod, of ?w] assms(2) pair by simp
  then show ?thesis
    unfolding final by (rule fold_buildPod_entry [OF Hafter])
qed

section \<open>C10: the constructor\<close>

lemma fold_buildPod_version [simp]:
  "currentPodListResourceVersion (fold (buildPod k) pods w) = currentPodListResourceVersion w"
  by (induction pods rule: rev_induct) simp_all

text \<open>
  C10. When the initial listing fails the constructor returns the error: there is no
  handler, so no index, no resource version, and no routine was started. When it succeeds
  the constructor returns a handler and has started the cleanup routine, and nothing else;
  the handler stores the listing's resource version, and its three structures hold what
  the constructor was given and what the listing registers, and nothing else. A pod of the
  listing is registered under a workload when it is Running, one of its containers is
  running, its parent workload resolves and its instance ids are generated.

  \<^item> InstanceIDSet: the ids given, in their order, followed by the instance ids of the
    registered pods.
  \<^item> ImageHashIndex: a hash is a key when it was given or is the hash of the image of a
    running container of a registered pod; a workload is registered with a hash when it
    was given with it or is the workload of such a pod.
  \<^item> WorkloadContainerIndex: the keys are the workloads of the registered pods; a workload
    has an entry for a container name when one of its registered pods runs a container of
    that name; each entry holds the image of such a container, and it holds the image
    a given pod reports when no later pod of the workload in the listing, and no other
    container of the pod, reports that name with another image.
\<close>

theorem new_watch_handler:
  "NewWatchHandler k given ids (Inl err) = Inl err
   \<and> (\<exists>wh. NewWatchHandler k given ids (Inr podsList) = Inr (wh, [CleanUpAndTriggerScanRoutine])
         \<and> currentPodListResourceVersion wh = resourceVersion podsList
         \<and> (\<exists>rest. hashedInstanceIDs wh = ids @ rest)
         \<and> (\<forall>x. x \<in> set (hashedInstanceIDs wh) \<longleftrightarrow>
                x \<in> set ids
                \<or> (\<exists>pod \<in> set (items podsList). \<exists>wlid ids'. registeredAs k pod = Some wlid
                      \<and> GenerateInstanceIDFromPod k pod = Inr ids' \<and> x \<in> set ids'))
         \<and> (\<forall>h x. (\<exists>t. iwMap wh h = Some t \<and> x \<in> t) \<longleftrightarrow>
                (\<exists>wlids. given h = Some wlids \<and> x \<in> set wlids)
                \<or> (\<exists>pod \<in> set (items podsList). registeredAs k pod = Some x
                      \<and> (\<exists>cs \<in> set (containerStatuses pod).
                             csRunning cs \<and> extractImageHash k (csImageID cs) = h)))
         \<and> (\<forall>h. iwMap wh h = None \<longleftrightarrow>
                given h = None
                \<and> \<not> (\<exists>pod \<in> set (items podsList). \<exists>wlid. registeredAs k pod = Some wlid
                        \<and> (\<exists>cs \<in> set (containerStatuses pod).
                               csRunning cs \<and> extractImageHash k (csImageID cs) = h)))
         \<and> (\<forall>w. wlidsToContainerToImageIDMap wh w \<noteq> None \<longleftrightarrow>
                (\<exists>pod \<in> set (items podsList). podPhase pod = PodRunning \<and> registeredAs k pod = Some w))
         \<and> (\<forall>wlid c. GetContainerToImageIDForWlid wh wlid c \<noteq> None \<longleftrightarrow>
                (\<exists>pod \<in> set (items podsList). registeredAs k pod = Some wlid
                   \<and> (\<exists>cs \<in> set (containerStatuses pod). csRunning cs \<and> csName cs = c)))
         \<and> (\<forall>wlid c i. GetContainerToImageIDForWlid wh wlid c = Some i \<longrightarrow>
                (\<exists>pod \<in> set (items podsList). registeredAs k pod = Some wlid
                   \<and> (\<exists>cs \<in> set (containerStatuses pod).
                          csRunning cs \<and> csName cs = c \<and> csImageID cs = i)))
         \<and> (\<forall>before pod after wlid cs.
                items podsList = before @ pod # after \<and> registeredAs k pod = Some wlid
                \<and> cs \<in> set (containerStatuses pod) \<and> csRunning cs
                \<and> (\<forall>q \<in> set (pod # after). registeredAs k q = Some wlid \<longrightarrow>
                      (\<forall>cs' \<in> set (containerStatuses q).
                         csRunning cs' \<and> csName cs' = csName cs \<longrightarrow> csImageID cs' = csImageID cs))
                \<longrightarrow> GetContainerToImageIDForWlid wh wlid (csName cs) = Some (csImageID cs)))"
proof -
  define w0 where "w0 = \<lparr>iwMap = NewImageHashWLIDsMapFrom given, hashedInstanceIDs = ids,
              wlidsToContainerToImageIDMap = Map.empty, currentPodListResourceVersion = []\<rparr>"
  define b where "b = fold (buildPod k) (items podsList) w0"
  define wh where "wh = b\<lparr>currentPodListResourceVersion := resourceVersion podsList\<rparr>"
  have fails: "NewWatchHandler k given ids (Inl err) = Inl err"
    by (simp add: NewWatchHandler_def)
  have ok: "NewWatchHandler k given ids (Inr podsList) = Inr (wh, [CleanUpAndTriggerScanRoutine])"
    by (simp add: NewWatchHandler_def buildIDs_def wh_def b_def w0_def)
  have version: "currentPodListResourceVersion wh = resourceVersion podsList"
    by (simp add: wh_def)
  have f_iw: "iwMap wh = iwMap b" and f_ids: "hashedInstanceIDs wh = hashedInstanceIDs b"
    and f_wc: "wlidsToContainerToImageIDMap wh = wlidsToContainerToImageIDMap b"
    and f_get: "\<And>w c. GetContainerToImageIDForWlid wh w c = GetContainerToImageIDForWlid b w c"
    by (simp_all add: GetContainerToImageIDForWlid_def wh_def)
  have s_ids: "hashedInstanceIDs w0 = ids"
    and s_iw: "\<And>h. iwMap w0 h = map_option set (given h)"
    and s_wc: "\<And>w. wlidsToContainerToImageIDMap w0 w = None"
    and s_get: "\<And>w c. GetContainerToImageIDForWlid w0 w c = None"
    by (simp_all add: NewImageHashWLIDsMapFrom_def GetContainerToImageIDForWlid_def w0_def)
  have pre: "\<exists>rest. hashedInstanceIDs wh = ids @ rest"
    using fold_buildPod_ids_prefix [of k "items podsList" w0] by (simp add: f_ids s_ids b_def)
  have members: "\<forall>x. x \<in> set (hashedInstanceIDs wh) \<longleftrightarrow>
                x \<in> set ids
                \<or> (\<exists>pod \<in> set (items podsList). \<exists>wlid ids'. registeredAs k pod = Some wlid
                      \<and> GenerateInstanceIDFromPod k pod = Inr ids' \<and> x \<in> set ids')"
  proof
    fix x
    show "x \<in> set (hashedInstanceIDs wh) \<longleftrightarrow>
                x \<in> set ids
                \<or> (\<exists>pod \<in> set (items podsList). \<exists>wlid ids'. registeredAs k pod = Some wlid
                      \<and> GenerateInstanceIDFromPod k pod = Inr ids' \<and> x \<in> set ids')"
      using fold_buildPod_ids_mem [of x k "items podsList" w0]
      by (simp only: f_ids s_ids b_def)
  qed
  have given_sets: "\<And>h x. (\<exists>t. iwMap w0 h = Some t \<and> x \<in> t)
                          \<longleftrightarrow> (\<exists>wlids. given h = Some wlids \<and> x \<in> set wlids)"
    by (auto simp add: s_iw)
  have hashes: "\<forall>h x. (\<exists>t. iwMap wh h = Some t \<and> x \<in> t) \<longleftrightarrow>
                (\<exists>wlids. given h = Some wlids \<and> x \<in> set wlids)
                \<or> (\<exists>pod \<in> set (items podsList). registeredAs k pod = Some x
                      \<and> (\<exists>cs \<in> set (containerStatuses pod).
                             csRunning cs \<and> extractImageHash k (csImageID cs) = h))"
  proof (intro allI)
    fix h x
    show "(\<exists>t. iwMap wh h = Some t \<and> x \<in> t) \<longleftrightarrow>
                (\<exists>wlids. given h = Some wlids \<and> x \<in> set wlids)
                \<or> (\<exists>pod \<in> set (items podsList). registeredAs k pod = Some x
                      \<and> (\<exists>cs \<in> set (containerStatuses pod).
                             csRunning cs \<and> extractImageHash k (csImageID cs) = h))"
      using fold_buildPod_iw_mem [of k "items podsList" w0 h x]
      by (simp only: f_iw given_sets b_def)
  qed
  have given_none: "\<And>h. iwMap w0 h = None \<longleftrightarrow> given h = None"
    by (simp add: s_iw)
  have hash_keys: "\<forall>h. iwMap wh h = None \<longleftrightarrow>
                given h = None
                \<and> \<not> (\<exists>pod \<in> set (items podsList). \<exists>wlid. registeredAs k pod = Some wlid
                        \<and> (\<exists>cs \<in> set (containerStatuses pod).
                               csRunning cs \<and> extractImageHash k (csImageID cs) = h))"
  proof
    fix h
    show "iwMap wh h = None \<longleftrightarrow>
                given h = None
                \<and> \<not> (\<exists>pod \<in> set (items podsList). \<exists>wlid. registeredAs k pod = Some wlid
                        \<and> (\<exists>cs \<in> set (containerStatuses pod).
                               csRunning cs \<and> extractImageHash k (csImageID cs) = h))"
      using fold_buildPod_iw_key [of k "items podsList" w0 h]
      by (simp only: f_iw given_none b_def)
  qed
  have keys: "\<forall>w. wlidsToContainerToImageIDMap wh w \<noteq> None \<longleftrightarrow>
                (\<exists>pod \<in> set (items podsList). podPhase pod = PodRunning \<and> registeredAs k pod = Some w)"
  proof
    fix w
    have "wlidsToContainerToImageIDMap wh w \<noteq> None
          \<longleftrightarrow> (\<exists>pod \<in> set (items podsList). registeredAs k pod = Some w)"
      using fold_buildPod_wc_key [of k "items podsList" w0 w]
      by (simp add: f_wc s_wc b_def)
    also have "\<dots> \<longleftrightarrow> (\<exists>pod \<in> set (items podsList). podPhase pod = PodRunning \<and> registeredAs k pod = Some w)"
      using registeredAs_running by blast
    finally show "wlidsToContainerToImageIDMap wh w \<noteq> None \<longleftrightarrow>
                (\<exists>pod \<in> set (items podsList). podPhase pod = PodRunning \<and> registeredAs k pod = Some w)" .
  qed
  have entries: "\<forall>wlid c. GetContainerToImageIDForWlid wh wlid c \<noteq> None \<longleftrightarrow>
                (\<exists>pod \<in> set (items podsList). registeredAs k pod = Some wlid
                   \<and> (\<exists>cs \<in> set (containerStatuses pod). csRunning cs \<and> csName cs = c))"
  proof (intro allI)
    fix wlid c
    show "GetContainerToImageIDForWlid wh wlid c \<noteq> None \<longleftrightarrow>
                (\<exists>pod \<in> set (items podsList). registeredAs k pod = Some wlid
                   \<and> (\<exists>cs \<in> set (containerStatuses pod). csRunning cs \<and> csName cs = c))"
      using fold_buildPod_entry_iff [of k "items podsList" w0 wlid c]
      by (simp add: f_get s_get b_def)
  qed
  have vals: "\<forall>wlid c i. GetContainerToImageIDForWlid wh wlid c = Some i \<longrightarrow>
                (\<exists>pod \<in> set (items podsList). registeredAs k pod = Some wlid
                   \<and> (\<exists>cs \<in> set (containerStatuses pod).
                          csRunning cs \<and> csName cs = c \<and> csImageID cs = i))"
  proof (intro allI impI)
    fix wlid c i
    assume "GetContainerToImageIDForWlid wh wlid c = Some i"
    then have "GetContainerToImageIDForWlid (fold (buildPod k) (items podsList) w0) wlid c = Some i"
      by (simp only: f_get b_def)
    from fold_buildPod_value [OF this] show
      "\<exists>pod \<in> set (items podsList). registeredAs k pod = Some wlid
          \<and> (\<exists>cs \<in> set (containerStatuses pod). csRunning cs \<and> csName cs = c \<and> csImageID cs = i)"
      by (simp add: s_get)
  qed
  have lastw: "\<forall>before pod after wlid cs.
                items podsList = before @ pod # after \<and> registeredAs k pod = Some wlid
                \<and> cs \<in> set (containerStatuses pod) \<and> csRunning cs
                \<and> (\<forall>q \<in> set (pod # after). registeredAs k q = Some wlid \<longrightarrow>
                      (\<forall>cs' \<in> set (containerStatuses q).
                         csRunning cs' \<and> csName cs' = csName cs \<longrightarrow> csImageID cs' = csImageID cs))
                \<longrightarrow> GetContainerToImageIDForWlid wh wlid (csName cs) = Some (csImageID cs)"
  proof (intro allI impI)
    fix before pod after wlid cs
    assume a: "items podsList = before @ pod # after \<and> registeredAs k pod = Some wlid
                \<and> cs \<in> set (containerStatuses pod) \<and> csRunning cs
                \<and> (\<forall>q \<in> set (pod # after). registeredAs k q = Some wlid \<longrightarrow>
                      (\<forall>cs' \<in> set (containerStatuses q).
                         csRunning cs' \<and> csName cs' = csName cs \<longrightarrow> csImageID cs' = csImageID cs))"
    have "GetContainerToImageIDForWlid (fold (buildPod k) (items podsList) w0) wlid (csName cs)
            = Some (csImageID cs)"
      by (rule listing_value [where before = before and pod = pod and after = after])
         (use a in blast)+
    then show "GetContainerToImageIDForWlid wh wlid (csName cs) = Some (csImageID cs)"
      by (simp only: f_get b_def)
  qed
  show ?thesis
    apply (rule conjI)
     apply (rule fails)
    apply (rule exI [of _ wh])
    apply (intro conjI)
             apply (rule ok)
            apply (rule version)
           apply (rule pre)
          apply (rule members)
         apply (rule hashes)
        apply (rule hash_keys)
       apply (rule keys)
      apply (rule entries)
     apply (rule vals)
    apply (rule lastw)
    done
qed

lemma ex_generate_next: "GenerateInstanceIDFromPod exCluster exPodNext = Inr [''iid-app'']"
  by (simp add: exCluster_def exPodNext_def exAppNext_def)

lemma ex_rolling_items: "items exRollingListing = [exPod] @ exPodNext # []"
  by (simp add: exRollingListing_def)

lemma ex_rolling_registered:
  "pod \<in> set (items exRollingListing) \<Longrightarrow> registeredAs exCluster pod = Some exWlid"
  using ex_registered ex_registered_next by (auto simp: exRollingListing_def)

lemma ex_rolling_ids:
  "pod \<in> set (items exRollingListing) \<Longrightarrow> GenerateInstanceIDFromPod exCluster pod = Inr [''iid-app'']"
  using ex_generate ex_generate_next by (auto simp: exRollingListing_def)

lemma ex_rolling_hashes:
  "pod \<in> set (items exRollingListing) \<Longrightarrow> cs \<in> set (containerStatuses pod)
   \<Longrightarrow> extractImageHash exCluster (csImageID cs) \<in> {''aaa'', ''bbb''}"
  by (auto simp: exRollingListing_def exPod_def exPodNext_def exApp_def exAppNext_def exCluster_def)

theorem new_watch_handler_witness:
  "NewWatchHandler exCluster exGiven exGivenIDs (Inl (ErrAPI ''timeout'')) = Inl (ErrAPI ''timeout'')
   \<and> (\<exists>wh. NewWatchHandler exCluster exGiven exGivenIDs (Inr exRollingListing)
               = Inr (wh, [CleanUpAndTriggerScanRoutine])
         \<and> currentPodListResourceVersion wh = ''8''
         \<and> (\<exists>rest. hashedInstanceIDs wh = ''iid-old'' # rest)
         \<and> ''iid-app'' \<in> set (hashedInstanceIDs wh)
         \<and> ''iid-none'' \<notin> set (hashedInstanceIDs wh)
         \<and> (\<exists>t. iwMap wh ''aaa'' = Some t \<and> ''N/Deployment/D'' \<in> t)
         \<and> (\<exists>t. iwMap wh ''zzz'' = Some t \<and> ''N/Deployment/Old'' \<in> t)
         \<and> iwMap wh ''ccc'' = None
         \<and> wlidsToContainerToImageIDMap wh ''N/Deployment/D'' \<noteq> None
         \<and> wlidsToContainerToImageIDMap wh ''N/Deployment/Old'' = None
         \<and> GetContainerToImageIDForWlid wh ''N/Deployment/D'' ''app'' = Some ''repo/img@sha256:bbb'')"
proof -
  define err where "err = ErrAPI ''timeout''"
  define old where "old = ''N/Deployment/Old''"
  define app where "app = ''iid-app''"
  define none where "none = ''iid-none''"
  define aaa where "aaa = ''aaa''"
  define zzz where "zzz = ''zzz''"
  define ccc where "ccc = ''ccc''"
  note T = new_watch_handler [of exCluster exGiven exGivenIDs err exRollingListing]
  from T have fails: "NewWatchHandler exCluster exGiven exGivenIDs (Inl err) = Inl err"
    by (rule conjunct1)
  from T [THEN conjunct2] obtain wh where
    ok: "NewWatchHandler exCluster exGiven exGivenIDs (Inr exRollingListing)
           = Inr (wh, [CleanUpAndTriggerScanRoutine])"
    and version: "currentPodListResourceVersion wh = resourceVersion exRollingListing"
    and pre: "\<exists>rest. hashedInstanceIDs wh = exGivenIDs @ rest"
    and members: "\<forall>x. x \<in> set (hashedInstanceIDs wh) \<longleftrightarrow>
                x \<in> set exGivenIDs
                \<or> (\<exists>pod \<in> set (items exRollingListing). \<exists>wlid ids'. registeredAs exCluster pod = Some wlid
                      \<and> GenerateInstanceIDFromPod exCluster pod = Inr ids' \<and> x \<in> set ids')"
    and hashes: "\<forall>h x. (\<exists>t. iwMap wh h = Some t \<and> x \<in> t) \<longleftrightarrow>
                (\<exists>wlids. exGiven h = Some wlids \<and> x \<in> set wlids)
                \<or> (\<exists>pod \<in> set (items exRollingListing). registeredAs exCluster pod = Some x
                      \<and> (\<exists>cs \<in> set (containerStatuses pod).
                             csRunning cs \<and> extractImageHash exCluster (csImageID cs) = h))"
    and hash_keys: "\<forall>h. iwMap wh h = None \<longleftrightarrow>
                exGiven h = None
                \<and> \<not> (\<exists>pod \<in> set (items exRollingListing). \<exists>wlid. registeredAs exCluster pod = Some wlid
                        \<and> (\<exists>cs \<in> set (containerStatuses pod).
                               csRunning cs \<and> extractImageHash exCluster (csImageID cs) = h))"
    and keys: "\<forall>w. wlidsToContainerToImageIDMap wh w \<noteq> None \<longleftrightarrow>
                (\<exists>pod \<in> set (items exRollingListing). podPhase pod = PodRunning
                   \<and> registeredAs exCluster pod = Some w)"
    and lastw: "\<forall>before pod after wlid cs.
                items exRollingListing = before @ pod # after \<and> registeredAs exCluster pod = Some wlid
                \<and> cs \<in> set (containerStatuses pod) \<and> csRunning cs
                \<and> (\<forall>q \<in> set (pod # after). registeredAs exCluster q = Some wlid \<longrightarrow>
                      (\<forall>cs' \<in> set (containerStatuses q).
                         csRunning cs' \<and> csName cs' = csName cs \<longrightarrow> csImageID cs' = csImageID cs))
                \<longrightarrow> GetContainerToImageIDForWlid wh wlid (csName cs) = Some (csImageID cs)"
    by - (erule exE, elim conjE, rule that)
  have rv: "resourceVersion exRollingListing = ''8''"
    by (simp add: exRollingListing_def)
  from pre have c_pre: "\<exists>rest. hashedInstanceIDs wh = ''iid-old'' # rest"
    by (simp add: exGivenIDs_def)
  have listed: "exPod \<in> set (items exRollingListing)"
    by (simp add: exRollingListing_def)
  have app_in: "app \<in> set [''iid-app'']"
    by (simp add: app_def)
  from members listed ex_registered ex_generate app_in have c_app: "app \<in> set (hashedInstanceIDs wh)"
    by blast
  have none_given: "none \<notin> set exGivenIDs"
    by (simp add: none_def exGivenIDs_def)
  have none_listed: "\<not> (\<exists>pod \<in> set (items exRollingListing). \<exists>wlid ids'. registeredAs exCluster pod = Some wlid
                      \<and> GenerateInstanceIDFromPod exCluster pod = Inr ids' \<and> none \<in> set ids')"
  proof
    assume "\<exists>pod \<in> set (items exRollingListing). \<exists>wlid ids'. registeredAs exCluster pod = Some wlid
                      \<and> GenerateInstanceIDFromPod exCluster pod = Inr ids' \<and> none \<in> set ids'"
    then obtain pod ids' where p: "pod \<in> set (items exRollingListing)"
      and g: "GenerateInstanceIDFromPod exCluster pod = Inr ids'" and n: "none \<in> set ids'"
      by blast
    from ex_rolling_ids [OF p] g have "ids' = [''iid-app'']" by simp
    with n show False by (simp add: none_def)
  qed
  from members none_given none_listed have c_none: "none \<notin> set (hashedInstanceIDs wh)"
    by blast
  have app_cs: "exApp \<in> set (containerStatuses exPod) \<and> csRunning exApp
                \<and> extractImageHash exCluster (csImageID exApp) = aaa"
    by (simp add: exPod_def exApp_def ex_hash aaa_def)
  from hashes listed ex_registered app_cs have c_aaa: "\<exists>t. iwMap wh aaa = Some t \<and> exWlid \<in> t"
    by blast
  have given_zzz: "exGiven zzz = Some [old] \<and> old \<in> set [old]"
    by (simp add: exGiven_def zzz_def old_def)
  from hashes given_zzz have c_zzz: "\<exists>t. iwMap wh zzz = Some t \<and> old \<in> t"
    by blast
  have given_ccc: "exGiven ccc = None"
    by (simp add: exGiven_def ccc_def)
  have no_ccc: "\<not> (\<exists>pod \<in> set (items exRollingListing). \<exists>wlid. registeredAs exCluster pod = Some wlid
                        \<and> (\<exists>cs \<in> set (containerStatuses pod).
                               csRunning cs \<and> extractImageHash exCluster (csImageID cs) = ccc))"
  proof
    assume "\<exists>pod \<in> set (items exRollingListing). \<exists>wlid. registeredAs exCluster pod = Some wlid
                        \<and> (\<exists>cs \<in> set (containerStatuses pod).
                               csRunning cs \<and> extractImageHash exCluster (csImageID cs) = ccc)"
    then obtain pod cs where p: "pod \<in> set (items exRollingListing)"
      and c: "cs \<in> set (containerStatuses pod)" and h: "extractImageHash exCluster (csImageID cs) = ccc"
      by blast
    from ex_rolling_hashes [OF p c] h show False by (simp add: ccc_def)
  qed
  from hash_keys given_ccc no_ccc have c_ccc: "iwMap wh ccc = None"
    by blast
  have running: "podPhase exPod = PodRunning"
    by (simp add: exPod_def)
  from keys listed running ex_registered have c_key: "wlidsToContainerToImageIDMap wh exWlid \<noteq> None"
    by blast
  have no_old: "\<not> (\<exists>pod \<in> set (items exRollingListing). podPhase pod = PodRunning
                   \<and> registeredAs exCluster pod = Some old)"
  proof
    assume "\<exists>pod \<in> set (items exRollingListing). podPhase pod = PodRunning
                   \<and> registeredAs exCluster pod = Some old"
    then obtain pod where p: "pod \<in> set (items exRollingListing)"
      and r: "registeredAs exCluster pod = Some old"
      by blast
    from ex_rolling_registered [OF p] r have "exWlid = old" by simp
    then show False by (simp add: exWlid_def old_def)
  qed
  from keys no_old have c_old: "wlidsToContainerToImageIDMap wh old = None"
    by blast
  have next_cs: "exAppNext \<in> set (containerStatuses exPodNext) \<and> csRunning exAppNext"
    by (simp add: exPodNext_def exAppNext_def)
  have H: "\<forall>q \<in> set (exPodNext # []). registeredAs exCluster q = Some exWlid \<longrightarrow>
              (\<forall>cs' \<in> set (containerStatuses q).
                  csRunning cs' \<and> csName cs' = csName exAppNext \<longrightarrow> csImageID cs' = csImageID exAppNext)"
    by (simp add: exPodNext_def)
  from lastw ex_rolling_items ex_registered_next next_cs H have
    c_val: "GetContainerToImageIDForWlid wh exWlid (csName exAppNext) = Some (csImageID exAppNext)"
    by blast
  have fields: "csName exAppNext = ''app''" "csImageID exAppNext = ''repo/img@sha256:bbb''"
    by (simp_all add: exAppNext_def)
  from ok version rv c_pre c_app c_none c_aaa c_zzz c_ccc c_key c_old c_val fields
  have "\<exists>wh. NewWatchHandler exCluster exGiven exGivenIDs (Inr exRollingListing)
               = Inr (wh, [CleanUpAndTriggerScanRoutine])
         \<and> currentPodListResourceVersion wh = ''8''
         \<and> (\<exists>rest. hashedInstanceIDs wh = ''iid-old'' # rest)
         \<and> app \<in> set (hashedInstanceIDs wh)
         \<and> none \<notin> set (hashedInstanceIDs wh)
         \<and> (\<exists>t. iwMap wh aaa = Some t \<and> exWlid \<in> t)
         \<and> (\<exists>t. iwMap wh zzz = Some t \<and> old \<in> t)
         \<and> iwMap wh ccc = None
         \<and> wlidsToContainerToImageIDMap wh exWlid \<noteq> None
         \<and> wlidsToContainerToImageIDMap wh old = None
         \<and> GetContainerToImageIDForWlid wh exWlid ''app'' = Some ''repo/img@sha256:bbb''"
    by (intro exI [of _ wh] conjI) simp_all
  with fails show ?thesis
    by (simp add: err_def old_def app_def none_def aaa_def zzz_def ccc_def exWlid_def)
qed

section \<open>C9: every access under the structure's mutex\<close>

lemma store_methods_guarded:
  "guarded iwLoad_accesses" "guarded iwAdd_accesses" "guarded iwClear_accesses"
  "guarded listInstanceIDs_accesses" "guarded cleanUpInstanceIDs_accesses"
  "guarded cleanUpWlidsToContainerToImageIDMap_accesses" "guarded GetContainerToImageIDForWlid_accesses"
  "guarded (addToInstanceIDsList_accesses h wh)"
  "guarded (addToWlidsToContainerToImageIDMap_accesses wlid wh)"
  "guarded isWlidInMap_accesses" "guarded cleanUpIDs_accesses"
  by (simp_all add: guarded_def iwLoad_accesses_def iwAdd_accesses_def iwClear_accesses_def
        listInstanceIDs_accesses_def cleanUpInstanceIDs_accesses_def
        cleanUpWlidsToContainerToImageIDMap_accesses_def GetContainerToImageIDForWlid_accesses_def
        addToInstanceIDsList_accesses_def addToWlidsToContainerToImageIDMap_accesses_def
        isWlidInMap_accesses_def cleanUpIDs_accesses_def)

lemma other_handlers_guarded:
  "guarded (handleVulnerabilityManifestEvent_accesses wh e)"
  "guarded (handleSBOMEvent_accesses e)"
  by (simp_all add: handleVulnerabilityManifestEvent_accesses_def handleSBOMEvent_accesses_def
        guarded_def listInstanceIDs_accesses_def iwLoad_accesses_def split: Object.splits)

text \<open>
  C9 holds for the store's methods and for the other two handlers, and fails in the
  filtered SBOM handler: on an Added event that carries a filtered SBOM, line 236 reads
  \<^verbatim>\<open>wh.hashedInstanceIDs\<close> with no lock held, where the vulnerability manifest handler
  reads the same slice through \<^verbatim>\<open>listInstanceIDs\<close>, under the read lock.
\<close>

theorem filtered_handler_reads_unguarded:
  "\<not> guarded (handleSBOMFilteredEvent_accesses ''wlid'' exStore exFilteredAdded)
   \<and> hd (handleSBOMFilteredEvent_accesses ''wlid'' exStore exFilteredAdded) = Read InstanceIDSet
   \<and> guarded (handleVulnerabilityManifestEvent_accesses exStore exManifestAdded)
   \<and> handleVulnerabilityManifestEvent_accesses exStore exManifestAdded
       = [RLock InstanceIDSet, Read InstanceIDSet, RUnlock InstanceIDSet]"
  by (simp add: handleSBOMFilteredEvent_accesses_def handleVulnerabilityManifestEvent_accesses_def
        exFilteredAdded_def exManifestAdded_def guarded_def listInstanceIDs_accesses_def)

section \<open>C7: the watch loops\<close>





lemma podDecision_version [simp]:
  "currentPodListResourceVersion (fst (podDecision k wh pod wlid)) = currentPodListResourceVersion wh"
  by (simp add: podDecision_def Let_def)

lemma handlePodEvent_version [simp]:
  "currentPodListResourceVersion (fst (handlePodEvent k wh event)) = currentPodListResourceVersion wh"
proof (cases "getPodFromEventIfRunning k event")
  case None
  then show ?thesis by (simp add: handlePodEvent_def)
next
  case (Some pod)
  show ?thesis
  proof (cases "getParentIDForPod k pod")
    case (Inl err)
    with Some show ?thesis by (simp add: handlePodEvent_def)
  next
    case (Inr wlid)
    obtain wh1 c where pd: "podDecision k wh pod wlid = (wh1, c)"
      by (cases "podDecision k wh pod wlid")
    with podDecision_version [of k wh pod wlid]
    have "currentPodListResourceVersion wh1 = currentPodListResourceVersion wh" by simp
    then show ?thesis
      by (cases c; cases "GenerateInstanceIDFromPod k pod")
         (simp_all add: handlePodEvent_unfold [OF Some Inr] pd)
  qed
qed




subsection \<open>The pod loop, round after round\<close>







subsection \<open>The storage loops, select after select\<close>






lemma forwarded_select:
  assumes "handlerAt st = Receiving"
  shows "watchSelect kind handle wh (EventReceived (Some event)) st
         = (st\<lparr>handlerAt := nextSend (handle wh event)\<rparr>,
            Forward event # map (\<lambda>(ns, name). DeleteCall ns name) (deleteCalls (handle wh event)))"
  using assms by (simp add: watchSelect_def)










text \<open>
  The body of each handler sends at most once on an event, an error or a command, which
  is what \<open>nextSend\<close> relies on.
\<close>

lemma handlers_send_once:
  "length (errorSignals (handleVulnerabilityManifestEvent wh e))
     + length (producedCommands (handleVulnerabilityManifestEvent wh e)) \<le> 1"
  "length (errorSignals (handleSBOMEvent storageDelete wh e))
     + length (producedCommands (handleSBOMEvent storageDelete wh e)) \<le> 1"
  "length (errorSignals (handleSBOMFilteredEvent wlidKey wh e))
     + length (producedCommands (handleSBOMFilteredEvent wlidKey wh e)) \<le> 1"
  by (auto simp: handleVulnerabilityManifestEvent_def handleSBOMEvent_def handleSBOMFilteredEvent_def
        noEffects_def Let_def split: Object.splits option.splits)

lemma storage_handlers_no_command:
  "producedCommands (handleVulnerabilityManifestEvent wh e) = []"
  "producedCommands (handleSBOMEvent storageDelete wh e) = []"
  "\<And>cmd. nextSend (handleVulnerabilityManifestEvent wh e) \<noteq> SendingCommand cmd"
  "\<And>cmd. nextSend (handleSBOMEvent storageDelete wh e) \<noteq> SendingCommand cmd"
  by (auto simp: handleVulnerabilityManifestEvent_def handleSBOMEvent_def nextSend_def
        noEffects_def Let_def split: Object.splits option.splits list.splits)








section \<open>C5: the cleanup cycle\<close>

subsection \<open>The operations of a cycle, run one after the other, are the cycle\<close>

lemma applyOp_simps [simp]:
  "applyOp k ClearImageHashIndex wh = wh\<lparr>iwMap := iwClear\<rparr>"
  "applyOp k ClearInstanceIDSet wh = cleanUpInstanceIDs wh"
  "applyOp k ClearWorkloadContainerIndex wh = cleanUpWlidsToContainerToImageIDMap wh"
  "applyOp k (AddInstanceID h) wh = addToInstanceIDsList h wh"
  "applyOp k (AddImageWorkloads imageID wlids) wh = addToImageIDToWlidsMap k imageID wlids wh"
  "applyOp k (AddContainerImage wlid c imageID) wh = addToWlidsToContainerToImageIDMap wlid c imageID wh"
  by (simp_all add: applyOp_def)

lemma isReset_simps [simp]:
  "isReset ClearImageHashIndex" "isReset ClearInstanceIDSet" "isReset ClearWorkloadContainerIndex"
  "\<not> isReset (AddInstanceID h)" "\<not> isReset (AddImageWorkloads imageID wlids)"
  "\<not> isReset (AddContainerImage wlid c imageID)"
  by (simp_all add: isReset_def)

lemma fold_add_instances:
  "fold (applyOp k) (map AddInstanceID ids) wh = fold addToInstanceIDsList ids wh"
  by (induction ids arbitrary: wh) simp_all

lemma fold_add_containers:
  "fold (applyOp k) (map (\<lambda>c. AddContainerImage wlid c imgID) names) wh
   = fold (\<lambda>c. addToWlidsToContainerToImageIDMap wlid c imgID) names wh"
  by (induction names arbitrary: wh) simp_all

lemma fold_add_groups:
  "fold (applyOp k)
        (concat (map (\<lambda>(imgID, names).
                        AddImageWorkloads imgID [wlid]
                        # map (\<lambda>containerName. AddContainerImage wlid containerName imgID) names)
                     groups)) wh
   = fold (\<lambda>(imgID, names) w.
             fold (\<lambda>containerName. addToWlidsToContainerToImageIDMap wlid containerName imgID)
                  names (addToImageIDToWlidsMap k imgID [wlid] w))
          groups wh"
proof (induction groups arbitrary: wh)
  case Nil
  then show ?case by simp
next
  case (Cons g groups)
  obtain i ns where g: "g = (i, ns)" by (cases g)
  show ?case
    by (simp add: g fold_add_containers Cons.IH)
qed

lemma buildPod_ops_run: "fold (applyOp k) (buildPod_ops k pod) wh = buildPod k pod wh"
  by (simp add: buildPod_ops_def buildPod_def Let_def fold_add_instances fold_add_groups
        split: sum.splits)

lemma fold_buildPod_ops:
  "fold (applyOp k) (concat (map (buildPod_ops k) pods)) wh = fold (buildPod k) pods wh"
  by (induction pods arbitrary: wh) (simp_all add: buildPod_ops_run)

lemma cleanUp_ops_run: "fold (applyOp k) (cleanUp_ops k listing) wh = cleanUp k listing wh"
  by (cases listing)
     (simp_all add: cleanUp_ops_def cleanUp_def cleanUpIDs_ops_def cleanUpIDs_def buildIDs_ops_def
        buildIDs_def fold_buildPod_ops)

lemma buildPod_ops_add: "op \<in> set (buildPod_ops k pod) \<Longrightarrow> \<not> isReset op"
  by (auto simp: buildPod_ops_def Let_def split: if_splits sum.splits)

lemma buildIDs_ops_add: "op \<in> set (buildIDs_ops k podList) \<Longrightarrow> \<not> isReset op"
  by (auto simp: buildIDs_ops_def buildPod_ops_add)

subsection \<open>The operations of the pod loop\<close>

lemma fold_register_new:
  "fold (applyOp k)
        (concat (map (\<lambda>(container, imgID).
                        [AddImageWorkloads imgID [wlid], AddContainerImage wlid container imgID])
                     pairs)) w
   = fold (\<lambda>(container, imgID) w.
             addToWlidsToContainerToImageIDMap wlid container imgID
               (addToImageIDToWlidsMap k imgID [wlid] w))
          pairs w"
proof (induction pairs arbitrary: w)
  case Nil
  then show ?case by simp
next
  case (Cons p pairs)
  obtain c i where p: "p = (c, i)" by (cases p)
  show ?case
    by (simp add: p Cons.IH)
qed

lemma fold_register_all:
  "fold (applyOp k) (map (\<lambda>(container, imgID). AddContainerImage wlid container imgID) pairs) w
   = fold (\<lambda>(container, imgID) w. addToWlidsToContainerToImageIDMap wlid container imgID w) pairs w"
proof (induction pairs arbitrary: w)
  case Nil
  then show ?case by simp
next
  case (Cons p pairs)
  obtain c i where p: "p = (c, i)" by (cases p)
  show ?case
    by (simp add: p Cons.IH)
qed

lemma podDecision_ops_run:
  "fold (applyOp k) (podDecision_ops k wh pod wlid) wh = fst (podDecision k wh pod wlid)"
  by (simp add: podDecision_ops_def podDecision_def Let_def fold_register_new fold_register_all)

lemma podDecision_ops_add: "op \<in> set (podDecision_ops k wh pod wlid) \<Longrightarrow> \<not> isReset op"
  by (auto simp: podDecision_ops_def Let_def split: if_splits)

lemma handlePodEvent_ops_run:
  "fold (applyOp k) (handlePodEvent_ops k wh event) wh = fst (handlePodEvent k wh event)"
proof (cases "getPodFromEventIfRunning k event")
  case None
  then show ?thesis by (simp add: handlePodEvent_ops_def handlePodEvent_def)
next
  case (Some pod)
  show ?thesis
  proof (cases "getParentIDForPod k pod")
    case (Inl err)
    with Some show ?thesis by (simp add: handlePodEvent_ops_def handlePodEvent_def)
  next
    case (Inr wlid)
    obtain wh1 c where pd: "podDecision k wh pod wlid = (wh1, c)"
      by (cases "podDecision k wh pod wlid")
    with podDecision_ops_run [of k wh pod wlid]
    have run: "fold (applyOp k) (podDecision_ops k wh pod wlid) wh = wh1" by simp
    show ?thesis
      by (cases c; cases "GenerateInstanceIDFromPod k pod")
         (simp_all add: handlePodEvent_ops_def handlePodEvent_unfold [OF Some Inr] Some Inr pd run
            fold_add_instances)
  qed
qed

lemma handlePodEvent_ops_add: "op \<in> set (handlePodEvent_ops k wh event) \<Longrightarrow> \<not> isReset op"
  by (auto simp: handlePodEvent_ops_def podDecision_ops_add split: option.splits sum.splits)

subsection \<open>What an addition keeps and what it brings\<close>

lemma add_keeps_iw:
  assumes "\<not> isReset op" "\<exists>t. iwMap w h = Some t \<and> x \<in> t"
  shows "\<exists>t. iwMap (applyOp k op w) h = Some t \<and> x \<in> t"
  using assms by (cases op) (auto simp: addToImageIDToWlidsMap_def iwAdd_def)

lemma add_keeps_entry:
  assumes "\<not> isReset op" "GetContainerToImageIDForWlid w wlid c \<noteq> None"
  shows "GetContainerToImageIDForWlid (applyOp k op w) wlid c \<noteq> None"
  using assms
  by (cases op)
     (auto simp: GetContainerToImageIDForWlid_def addToWlidsToContainerToImageIDMap_def Let_def
        split: option.splits)

lemma add_keeps_id:
  assumes "\<not> isReset op" "x \<in> set (hashedInstanceIDs w)"
  shows "x \<in> set (hashedInstanceIDs (applyOp k op w))"
  using assms by (cases op) (auto simp: addToInstanceIDsList_def)

lemma add_image_brings:
  "\<exists>t. iwMap (applyOp k (AddImageWorkloads img [wlid]) w) (extractImageHash k img) = Some t \<and> wlid \<in> t"
  by (auto simp: addToImageIDToWlidsMap_def iwAdd_def split: option.splits)

lemma add_container_brings:
  "GetContainerToImageIDForWlid (applyOp k (AddContainerImage wlid c img) w) wlid c \<noteq> None"
  by (simp add: GetContainerToImageIDForWlid_def addToWlidsToContainerToImageIDMap_def Let_def)

lemma add_instance_brings: "x \<in> set (hashedInstanceIDs (applyOp k (AddInstanceID x) w))"
  by (simp add: addToInstanceIDsList_def)

subsection \<open>The operations a registered pod contributes\<close>

lemma buildPod_ops_registered:
  assumes "registeredAs k pod = Some wlid"
  shows "\<exists>ids. GenerateInstanceIDFromPod k pod = Inr ids
           \<and> buildPod_ops k pod
               = map AddInstanceID ids
                 @ concat (map (\<lambda>(imgID, names).
                                  AddImageWorkloads imgID [wlid]
                                  # map (\<lambda>containerName. AddContainerImage wlid containerName imgID) names)
                               (extractImageIDsToContainersFromPod pod))"
  using assms
  by (auto simp: registeredAs_def buildPod_ops_def Let_def split: if_splits sum.splits)

lemma group_ops_container:
  "(c, img) \<in> set (pairsOf groups)
   \<Longrightarrow> AddContainerImage wlid c img
        \<in> set (concat (map (\<lambda>(imgID, names).
                                AddImageWorkloads imgID [wlid]
                                # map (\<lambda>containerName. AddContainerImage wlid containerName imgID) names)
                             groups))
     \<and> AddImageWorkloads img [wlid]
        \<in> set (concat (map (\<lambda>(imgID, names).
                                AddImageWorkloads imgID [wlid]
                                # map (\<lambda>containerName. AddContainerImage wlid containerName imgID) names)
                             groups))"
  by (induction groups) (auto simp: pairsOf_def)

lemma buildPod_ops_has:
  assumes "registeredAs k pod = Some wlid" "cs \<in> set (containerStatuses pod)" "csRunning cs"
  shows "AddContainerImage wlid (csName cs) (csImageID cs) \<in> set (buildPod_ops k pod)"
    and "AddImageWorkloads (csImageID cs) [wlid] \<in> set (buildPod_ops k pod)"
proof -
  have "(csName cs, csImageID cs) \<in> set (runningPairs pod)"
    using assms(2,3) by (auto simp: runningPairs_iff)
  then have p: "(csName cs, csImageID cs) \<in> set (pairsOf (extractImageIDsToContainersFromPod pod))"
    by (simp add: extract_pairs)
  from buildPod_ops_registered [OF assms(1)] obtain ids where
    ops: "buildPod_ops k pod
               = map AddInstanceID ids
                 @ concat (map (\<lambda>(imgID, names).
                                  AddImageWorkloads imgID [wlid]
                                  # map (\<lambda>containerName. AddContainerImage wlid containerName imgID) names)
                               (extractImageIDsToContainersFromPod pod))"
    by blast
  from group_ops_container [OF p, of wlid]
  show "AddContainerImage wlid (csName cs) (csImageID cs) \<in> set (buildPod_ops k pod)"
    and "AddImageWorkloads (csImageID cs) [wlid] \<in> set (buildPod_ops k pod)"
    unfolding ops by simp_all
qed

lemma buildPod_ops_has_id:
  assumes "registeredAs k pod = Some wlid" "GenerateInstanceIDFromPod k pod = Inr ids" "x \<in> set ids"
  shows "AddInstanceID x \<in> set (buildPod_ops k pod)"
  using buildPod_ops_registered [OF assms(1)] assms(2,3) by auto

lemma buildIDs_ops_pod:
  "pod \<in> set (items podList) \<Longrightarrow> op \<in> set (buildPod_ops k pod) \<Longrightarrow> op \<in> set (buildIDs_ops k podList)"
  by (auto simp: buildIDs_ops_def)

subsection \<open>Schedules\<close>

lemma systemRun_Nil [simp]: "systemRun k [] sys = sys"
  by (simp add: systemRun_def)

lemma systemRun_Cons [simp]: "systemRun k (s # schedule) sys = systemRun k schedule (systemStep k s sys)"
  by (simp add: systemRun_def)

lemma systemRun_append: "systemRun k (first @ rest) sys = systemRun k rest (systemRun k first sys)"
  by (simp add: systemRun_def)

lemma systemStep_simps [simp]:
  "systemStep k (CleanUpOp op) sys = sys\<lparr>handler := applyOp k op (handler sys)\<rparr>"
  "systemStep k (PodOp op) sys = sys\<lparr>handler := applyOp k op (handler sys)\<rparr>"
  "systemStep k (PodEmit cmd) sys = sys\<lparr>sessionObjChan := sessionObjChan sys @ [cmd]\<rparr>"
  "systemStep k (FilteredEmit cmd) sys = sys\<lparr>sessionObjChan := sessionObjChan sys @ [cmd]\<rparr>"
  by (simp_all add: systemStep_def)

lemma cleanUpPart_append: "cleanUpPart (first @ rest) = cleanUpPart first @ cleanUpPart rest"
  by (induction first rule: cleanUpPart.induct) simp_all

lemma cleanUpPart_set: "op \<in> set (cleanUpPart schedule) \<longleftrightarrow> CleanUpOp op \<in> set schedule"
  by (induction schedule rule: cleanUpPart.induct) auto

lemma cleanUpPart_map [simp]: "cleanUpPart (map CleanUpOp ops) = ops"
  by (induction ops) simp_all

lemma emitted_map [simp]: "emitted (map CleanUpOp ops) = []"
  by (induction ops) simp_all

lemma queue_is_emitted:
  "sessionObjChan (systemRun k schedule sys) = sessionObjChan sys @ emitted schedule"
  by (induction schedule arbitrary: sys rule: emitted.induct) simp_all

lemma cleanUp_steps_run:
  "systemRun k (map CleanUpOp ops) sys = sys\<lparr>handler := fold (applyOp k) ops (handler sys)\<rparr>"
  by (induction ops arbitrary: sys) simp_all

text \<open>
  A step of a schedule keeps a property of the store when it is not a reset and
  additions keep the property.
\<close>

lemma adds_keep:
  assumes keep: "\<And>op w. \<not> isReset op \<Longrightarrow> P w \<Longrightarrow> P (applyOp k op w)"
      and "\<forall>s \<in> set schedule. adds s" "P (handler sys)"
  shows "P (handler (systemRun k schedule sys))"
  using assms(2,3)
proof (induction schedule arbitrary: sys)
  case Nil
  then show ?case by simp
next
  case (Cons s schedule)
  from Cons.prems have "adds s" by simp
  with Cons.prems(2) have "P (handler (systemStep k s sys))"
    by (cases s) (simp_all add: adds_def keep)
  moreover from Cons.prems have "\<forall>s \<in> set schedule. adds s" by simp
  ultimately show ?case
    using Cons.IH by simp
qed

lemma after_resets:
  assumes "first @ op # rest = resets @ built"
      and "\<forall>r \<in> set resets. isReset r" "\<not> isReset op"
  shows "set rest \<subseteq> set built"
proof -
  from assms(1) obtain us where
    "(first = resets @ us \<and> us @ op # rest = built) \<or> (first @ us = resets \<and> op # rest = us @ built)"
    by (auto simp: append_eq_append_conv2)
  then show ?thesis
  proof
    assume "first = resets @ us \<and> us @ op # rest = built"
    then show ?thesis by auto
  next
    assume a: "first @ us = resets \<and> op # rest = us @ built"
    show ?thesis
    proof (cases us)
      case Nil
      with a show ?thesis by auto
    next
      case (Cons u us')
      with a have "op = u" by simp
      with Cons a have "op \<in> set resets" by auto
      with assms(2,3) show ?thesis by blast
    qed
  qed
qed

text \<open>
  In a schedule that holds one cycle, what an operation of the rebuild brings is there at
  the end when additions keep it: every reset of the cycle comes before the operation.
\<close>

lemma interleaved_keeps:
  assumes keep: "\<And>op w. \<not> isReset op \<Longrightarrow> P w \<Longrightarrow> P (applyOp k op w)"
      and brings: "\<And>w. P (applyOp k op w)"
      and sched: "interleaves k (Inr podsList) schedule"
      and op: "op \<in> set (buildIDs_ops k podsList)"
  shows "P (handler (systemRun k schedule sys))"
proof -
  from sched have part: "cleanUpPart schedule = cleanUpIDs_ops @ buildIDs_ops k podsList"
    and pods: "list_all (\<lambda>s. case s of PodOp op \<Rightarrow> \<not> isReset op | _ \<Rightarrow> True) schedule"
    by (simp_all add: interleaves_def cleanUp_ops_def)
  from op part have "op \<in> set (cleanUpPart schedule)" by simp
  then have "CleanUpOp op \<in> set schedule" by (simp add: cleanUpPart_set)
  then obtain first rest where split: "schedule = first @ CleanUpOp op # rest"
    by (auto dest: split_list)
  have noreset: "\<not> isReset op" using op by (rule buildIDs_ops_add)
  have "cleanUpPart first @ op # cleanUpPart rest = cleanUpIDs_ops @ buildIDs_ops k podsList"
    using part by (simp add: split cleanUpPart_append)
  from after_resets [OF this _ noreset] have later: "set (cleanUpPart rest) \<subseteq> set (buildIDs_ops k podsList)"
    by (simp add: cleanUpIDs_ops_def)
  have "\<forall>s \<in> set rest. adds s"
  proof
    fix s assume s: "s \<in> set rest"
    show "adds s"
    proof (cases s)
      case (CleanUpOp o')
      with s have "o' \<in> set (cleanUpPart rest)" by (simp add: cleanUpPart_set)
      with later have "o' \<in> set (buildIDs_ops k podsList)" by blast
      then have "\<not> isReset o'" by (rule buildIDs_ops_add)
      with CleanUpOp show ?thesis by (simp add: adds_def)
    next
      case (PodOp o')
      with s split have "PodOp o' \<in> set schedule" by simp
      with pods have "\<not> isReset o'" by (auto simp: list_all_iff)
      with PodOp show ?thesis by (simp add: adds_def)
    next
      case (PodEmit c)
      then show ?thesis by (simp add: adds_def)
    next
      case (FilteredEmit c)
      then show ?thesis by (simp add: adds_def)
    qed
  qed
  moreover have "P (handler (systemStep k (CleanUpOp op) (systemRun k first sys)))"
    by (simp add: brings)
  ultimately have "P (handler (systemRun k rest (systemStep k (CleanUpOp op) (systemRun k first sys))))"
    using adds_keep [where P = P and k = k and schedule = rest
                       and sys = "systemStep k (CleanUpOp op) (systemRun k first sys)"] keep
    by blast
  then show ?thesis
    by (simp add: split systemRun_append)
qed

subsection \<open>The cycle run alone\<close>

lemma cleanUp_Inr:
  "cleanUp k (Inr podsList) wh = fold (buildPod k) (items podsList) (cleanUpIDs wh)"
  by (simp add: cleanUp_def buildIDs_def)

lemma cleanUpIDs_get [simp]: "GetContainerToImageIDForWlid (cleanUpIDs wh) w c = None"
  by (simp add: GetContainerToImageIDForWlid_def)

text \<open>
  C5, amended. A cleanup cycle whose listing fails does nothing to the store. A cycle whose
  listing succeeds resets the ImageHashIndex, the InstanceIDSet and the
  WorkloadContainerIndex, in this order, one operation after the other, each under the
  lock of its own structure and with that lock released before the next is taken, and
  then registers the pods of the listing, by additions only. Run one after the other its operations are \<open>cleanUp\<close>, and then the three
  structures hold what the listing registers and nothing else, whatever they held before:
  the InstanceIDSet holds the instance ids of the registered pods, each once; a hash is a
  key of the ImageHashIndex when it is the hash of the image of a running container of a
  registered pod, with the workloads of these pods; the keys of the WorkloadContainerIndex
  are the workloads of the registered pods, each with an entry for the names of the
  running containers of its pods, which holds the image of such a container, and the
  image a given pod reports when no later pod of the workload, and no other container of
  the pod, reports that name with another image. The resource version is left as it was.

  The pod loop calls no reset, and what it does to the store on an event is a sequence of
  additions. In every schedule that weaves the operations of one cycle with additions of
  the pod loop and with commands given to the queue, the store holds at the end, for
  every registered pod of the listing, the workload under the hash of each running
  container's image, an entry for each running container under the workload, and the
  pod's instance ids. The queue holds afterwards what it held and the commands given by
  the pod loop and the filtered SBOM loop: the operations of a cycle give none.
\<close>

theorem cleanup_cycle:
  "cleanUp_ops k (Inl err) = []
   \<and> cleanUp k (Inl err) wh = wh
   \<and> cleanUp_ops k (Inr podsList)
       = [ClearImageHashIndex, ClearInstanceIDSet, ClearWorkloadContainerIndex] @ buildIDs_ops k podsList
   \<and> (\<forall>op \<in> set (buildIDs_ops k podsList). \<not> isReset op)
   \<and> (\<forall>op \<in> set (handlePodEvent_ops k wh event). \<not> isReset op)
   \<and> fold (applyOp k) (handlePodEvent_ops k wh event) wh = fst (handlePodEvent k wh event)
   \<and> fold (applyOp k) (cleanUp_ops k listing) wh = cleanUp k listing wh
   \<and> systemRun k (map CleanUpOp (cleanUp_ops k listing)) sys
       = sys\<lparr>handler := cleanUp k listing (handler sys)\<rparr>
   \<and> sessionObjChan (systemRun k schedule sys) = sessionObjChan sys @ emitted schedule
   \<and> emitted (map CleanUpOp ops) = []
   \<and> currentPodListResourceVersion (cleanUp k (Inr podsList) wh) = currentPodListResourceVersion wh
   \<and> distinct (hashedInstanceIDs (cleanUp k (Inr podsList) wh))
   \<and> (\<forall>x. x \<in> set (hashedInstanceIDs (cleanUp k (Inr podsList) wh)) \<longleftrightarrow>
          (\<exists>pod \<in> set (items podsList). \<exists>wlid ids. registeredAs k pod = Some wlid
              \<and> GenerateInstanceIDFromPod k pod = Inr ids \<and> x \<in> set ids))
   \<and> (\<forall>h x. (\<exists>t. iwMap (cleanUp k (Inr podsList) wh) h = Some t \<and> x \<in> t) \<longleftrightarrow>
          (\<exists>pod \<in> set (items podsList). registeredAs k pod = Some x
              \<and> (\<exists>cs \<in> set (containerStatuses pod).
                     csRunning cs \<and> extractImageHash k (csImageID cs) = h)))
   \<and> (\<forall>h. iwMap (cleanUp k (Inr podsList) wh) h = None \<longleftrightarrow>
          \<not> (\<exists>pod \<in> set (items podsList). \<exists>wlid. registeredAs k pod = Some wlid
                \<and> (\<exists>cs \<in> set (containerStatuses pod).
                       csRunning cs \<and> extractImageHash k (csImageID cs) = h)))
   \<and> (\<forall>w. wlidsToContainerToImageIDMap (cleanUp k (Inr podsList) wh) w \<noteq> None \<longleftrightarrow>
          (\<exists>pod \<in> set (items podsList). podPhase pod = PodRunning \<and> registeredAs k pod = Some w))
   \<and> (\<forall>wlid c. GetContainerToImageIDForWlid (cleanUp k (Inr podsList) wh) wlid c \<noteq> None \<longleftrightarrow>
          (\<exists>pod \<in> set (items podsList). registeredAs k pod = Some wlid
              \<and> (\<exists>cs \<in> set (containerStatuses pod). csRunning cs \<and> csName cs = c)))
   \<and> (\<forall>wlid c i. GetContainerToImageIDForWlid (cleanUp k (Inr podsList) wh) wlid c = Some i \<longrightarrow>
          (\<exists>pod \<in> set (items podsList). registeredAs k pod = Some wlid
              \<and> (\<exists>cs \<in> set (containerStatuses pod).
                     csRunning cs \<and> csName cs = c \<and> csImageID cs = i)))
   \<and> (\<forall>before pod after wlid cs.
          items podsList = before @ pod # after \<and> registeredAs k pod = Some wlid
          \<and> cs \<in> set (containerStatuses pod) \<and> csRunning cs
          \<and> (\<forall>q \<in> set (pod # after). registeredAs k q = Some wlid \<longrightarrow>
                (\<forall>cs' \<in> set (containerStatuses q).
                   csRunning cs' \<and> csName cs' = csName cs \<longrightarrow> csImageID cs' = csImageID cs))
          \<longrightarrow> GetContainerToImageIDForWlid (cleanUp k (Inr podsList) wh) wlid (csName cs)
                = Some (csImageID cs))
   \<and> (interleaves k (Inr podsList) schedule \<longrightarrow>
          (\<forall>pod wlid. pod \<in> set (items podsList) \<and> registeredAs k pod = Some wlid \<longrightarrow>
             (\<forall>cs \<in> set (containerStatuses pod). csRunning cs \<longrightarrow>
                (\<exists>t. iwMap (handler (systemRun k schedule sys)) (extractImageHash k (csImageID cs)) = Some t
                     \<and> wlid \<in> t)
                \<and> GetContainerToImageIDForWlid (handler (systemRun k schedule sys)) wlid (csName cs) \<noteq> None)
             \<and> (\<forall>ids. GenerateInstanceIDFromPod k pod = Inr ids \<longrightarrow>
                   set ids \<subseteq> set (hashedInstanceIDs (handler (systemRun k schedule sys))))))
   \<and> cleanUpIDs_accesses
       = [Lock ImageHashIndex, Write ImageHashIndex, Unlock ImageHashIndex,
          Lock InstanceIDSet, Write InstanceIDSet, Unlock InstanceIDSet,
          Lock WorkloadContainerIndex, Write WorkloadContainerIndex, Unlock WorkloadContainerIndex]"
proof -
  have ops_failed: "cleanUp_ops k (Inl err) = []"
    by (simp add: cleanUp_ops_def)
  have failed: "cleanUp k (Inl err) wh = wh"
    by (simp add: cleanUp_def)
  have ops_ok: "cleanUp_ops k (Inr podsList)
       = [ClearImageHashIndex, ClearInstanceIDSet, ClearWorkloadContainerIndex] @ buildIDs_ops k podsList"
    by (simp add: cleanUp_ops_def cleanUpIDs_ops_def)
  have build_adds: "(\<forall>op \<in> set (buildIDs_ops k podsList). \<not> isReset op)"
    using buildIDs_ops_add by blast
  have pod_adds: "(\<forall>op \<in> set (handlePodEvent_ops k wh event). \<not> isReset op)"
    using handlePodEvent_ops_add by blast
  have pod_run: "fold (applyOp k) (handlePodEvent_ops k wh event) wh = fst (handlePodEvent k wh event)"
    by (rule handlePodEvent_ops_run)
  have cycle_run: "fold (applyOp k) (cleanUp_ops k listing) wh = cleanUp k listing wh"
    by (rule cleanUp_ops_run)
  have steps_run: "systemRun k (map CleanUpOp (cleanUp_ops k listing)) sys
       = sys\<lparr>handler := cleanUp k listing (handler sys)\<rparr>"
    by (simp add: cleanUp_steps_run cleanUp_ops_run)
  have queue: "sessionObjChan (systemRun k schedule sys) = sessionObjChan sys @ emitted schedule"
    by (rule queue_is_emitted)
  have silent: "emitted (map CleanUpOp ops) = []"
    by simp
  have version: "currentPodListResourceVersion (cleanUp k (Inr podsList) wh) = currentPodListResourceVersion wh"
    by (simp add: cleanUp_Inr)
  have dist: "distinct (hashedInstanceIDs (cleanUp k (Inr podsList) wh))"
    unfolding cleanUp_Inr by (rule fold_buildPod_ids_distinct) simp
  have members: "(\<forall>x. x \<in> set (hashedInstanceIDs (cleanUp k (Inr podsList) wh)) \<longleftrightarrow>
          (\<exists>pod \<in> set (items podsList). \<exists>wlid ids. registeredAs k pod = Some wlid
              \<and> GenerateInstanceIDFromPod k pod = Inr ids \<and> x \<in> set ids))"
    unfolding cleanUp_Inr fold_buildPod_ids_mem by simp
  have hashes: "(\<forall>h x. (\<exists>t. iwMap (cleanUp k (Inr podsList) wh) h = Some t \<and> x \<in> t) \<longleftrightarrow>
          (\<exists>pod \<in> set (items podsList). registeredAs k pod = Some x
              \<and> (\<exists>cs \<in> set (containerStatuses pod).
                     csRunning cs \<and> extractImageHash k (csImageID cs) = h)))"
    unfolding cleanUp_Inr fold_buildPod_iw_mem by simp
  have hash_keys: "(\<forall>h. iwMap (cleanUp k (Inr podsList) wh) h = None \<longleftrightarrow>
          \<not> (\<exists>pod \<in> set (items podsList). \<exists>wlid. registeredAs k pod = Some wlid
                \<and> (\<exists>cs \<in> set (containerStatuses pod).
                       csRunning cs \<and> extractImageHash k (csImageID cs) = h)))"
    unfolding cleanUp_Inr fold_buildPod_iw_key by simp
  have keys: "(\<forall>w. wlidsToContainerToImageIDMap (cleanUp k (Inr podsList) wh) w \<noteq> None \<longleftrightarrow>
          (\<exists>pod \<in> set (items podsList). podPhase pod = PodRunning \<and> registeredAs k pod = Some w))"
    unfolding cleanUp_Inr fold_buildPod_wc_key using registeredAs_running by auto
  have entries: "(\<forall>wlid c. GetContainerToImageIDForWlid (cleanUp k (Inr podsList) wh) wlid c \<noteq> None \<longleftrightarrow>
          (\<exists>pod \<in> set (items podsList). registeredAs k pod = Some wlid
              \<and> (\<exists>cs \<in> set (containerStatuses pod). csRunning cs \<and> csName cs = c)))"
    unfolding cleanUp_Inr fold_buildPod_entry_iff by simp
  have vals: "(\<forall>wlid c i. GetContainerToImageIDForWlid (cleanUp k (Inr podsList) wh) wlid c = Some i \<longrightarrow>
          (\<exists>pod \<in> set (items podsList). registeredAs k pod = Some wlid
              \<and> (\<exists>cs \<in> set (containerStatuses pod).
                     csRunning cs \<and> csName cs = c \<and> csImageID cs = i)))"
  proof (intro allI impI)
    fix wlid c i
    assume "GetContainerToImageIDForWlid (cleanUp k (Inr podsList) wh) wlid c = Some i"
    then have "GetContainerToImageIDForWlid (fold (buildPod k) (items podsList) (cleanUpIDs wh)) wlid c = Some i"
      by (simp only: cleanUp_Inr)
    from fold_buildPod_value [OF this] show
      "\<exists>pod \<in> set (items podsList). registeredAs k pod = Some wlid
          \<and> (\<exists>cs \<in> set (containerStatuses pod). csRunning cs \<and> csName cs = c \<and> csImageID cs = i)"
      by simp
  qed
  have lastw: "(\<forall>before pod after wlid cs.
          items podsList = before @ pod # after \<and> registeredAs k pod = Some wlid
          \<and> cs \<in> set (containerStatuses pod) \<and> csRunning cs
          \<and> (\<forall>q \<in> set (pod # after). registeredAs k q = Some wlid \<longrightarrow>
                (\<forall>cs' \<in> set (containerStatuses q).
                   csRunning cs' \<and> csName cs' = csName cs \<longrightarrow> csImageID cs' = csImageID cs))
          \<longrightarrow> GetContainerToImageIDForWlid (cleanUp k (Inr podsList) wh) wlid (csName cs)
                = Some (csImageID cs))"
  proof (intro allI impI)
    fix before pod after wlid cs
    assume a: "items podsList = before @ pod # after \<and> registeredAs k pod = Some wlid
          \<and> cs \<in> set (containerStatuses pod) \<and> csRunning cs
          \<and> (\<forall>q \<in> set (pod # after). registeredAs k q = Some wlid \<longrightarrow>
                (\<forall>cs' \<in> set (containerStatuses q).
                   csRunning cs' \<and> csName cs' = csName cs \<longrightarrow> csImageID cs' = csImageID cs))"
    have "GetContainerToImageIDForWlid (fold (buildPod k) (items podsList) (cleanUpIDs wh)) wlid (csName cs)
            = Some (csImageID cs)"
      by (rule listing_value [where before = before and pod = pod and after = after])
         (use a in blast)+
    then show "GetContainerToImageIDForWlid (cleanUp k (Inr podsList) wh) wlid (csName cs)
                = Some (csImageID cs)"
      by (simp only: cleanUp_Inr)
  qed
  have woven: "(interleaves k (Inr podsList) schedule \<longrightarrow>
          (\<forall>pod wlid. pod \<in> set (items podsList) \<and> registeredAs k pod = Some wlid \<longrightarrow>
             (\<forall>cs \<in> set (containerStatuses pod). csRunning cs \<longrightarrow>
                (\<exists>t. iwMap (handler (systemRun k schedule sys)) (extractImageHash k (csImageID cs)) = Some t
                     \<and> wlid \<in> t)
                \<and> GetContainerToImageIDForWlid (handler (systemRun k schedule sys)) wlid (csName cs) \<noteq> None)
             \<and> (\<forall>ids. GenerateInstanceIDFromPod k pod = Inr ids \<longrightarrow>
                   set ids \<subseteq> set (hashedInstanceIDs (handler (systemRun k schedule sys))))))"
  proof (intro impI allI conjI ballI subsetI)
    fix pod wlid cs
    assume sched: "interleaves k (Inr podsList) schedule"
       and p: "pod \<in> set (items podsList) \<and> registeredAs k pod = Some wlid"
       and cs: "cs \<in> set (containerStatuses pod)" "csRunning cs"
    from p cs have image: "AddImageWorkloads (csImageID cs) [wlid] \<in> set (buildIDs_ops k podsList)"
      and entry: "AddContainerImage wlid (csName cs) (csImageID cs) \<in> set (buildIDs_ops k podsList)"
      by (auto intro: buildIDs_ops_pod buildPod_ops_has)
    show "\<exists>t. iwMap (handler (systemRun k schedule sys)) (extractImageHash k (csImageID cs)) = Some t
               \<and> wlid \<in> t"
      by (rule interleaved_keeps
               [where P = "\<lambda>w. \<exists>t. iwMap w (extractImageHash k (csImageID cs)) = Some t \<and> wlid \<in> t"
                  and op = "AddImageWorkloads (csImageID cs) [wlid]", OF _ _ sched image])
         (rule add_keeps_iw, assumption, assumption, rule add_image_brings)
    show "GetContainerToImageIDForWlid (handler (systemRun k schedule sys)) wlid (csName cs) \<noteq> None"
      by (rule interleaved_keeps
               [where P = "\<lambda>w. GetContainerToImageIDForWlid w wlid (csName cs) \<noteq> None"
                  and op = "AddContainerImage wlid (csName cs) (csImageID cs)", OF _ _ sched entry])
         (rule add_keeps_entry, assumption, assumption, rule add_container_brings)
  next
    fix pod wlid ids x
    assume sched: "interleaves k (Inr podsList) schedule"
       and p: "pod \<in> set (items podsList) \<and> registeredAs k pod = Some wlid"
       and g: "GenerateInstanceIDFromPod k pod = Inr ids" and x: "x \<in> set ids"
    from p g x have inst: "AddInstanceID x \<in> set (buildIDs_ops k podsList)"
      by (auto intro: buildIDs_ops_pod buildPod_ops_has_id)
    show "x \<in> set (hashedInstanceIDs (handler (systemRun k schedule sys)))"
      by (rule interleaved_keeps
               [where P = "\<lambda>w. x \<in> set (hashedInstanceIDs w)"
                  and op = "AddInstanceID x", OF _ _ sched inst])
         (rule add_keeps_id, assumption, assumption, rule add_instance_brings)
  qed
  have locks: "cleanUpIDs_accesses
       = [Lock ImageHashIndex, Write ImageHashIndex, Unlock ImageHashIndex,
          Lock InstanceIDSet, Write InstanceIDSet, Unlock InstanceIDSet,
          Lock WorkloadContainerIndex, Write WorkloadContainerIndex, Unlock WorkloadContainerIndex]"
    by (simp add: cleanUpIDs_accesses_def iwClear_accesses_def cleanUpInstanceIDs_accesses_def
          cleanUpWlidsToContainerToImageIDMap_accesses_def)
  from ops_failed failed ops_ok build_adds pod_adds pod_run cycle_run steps_run queue silent version dist members hashes hash_keys keys entries vals lastw woven locks
  show ?thesis
    by (intro conjI)
qed

subsection \<open>A pod event between two resets\<close>

lemma ex_registered_event: "handlePodEvent exCluster exEmpty exEvent
   = (exRegistered, [\<lparr>targetWorkload = exWlid, containers = [''app'' \<mapsto> ''repo/img@sha256:aaa'']\<rparr>])"
  by (simp add: ex_first_event exRegistered_def)

lemma ex_registered_getNew: "getNewContainerToImageIDsFromPod exCluster exRegistered exPod = []"
  by (simp add: getNewContainerToImageIDsFromPod_def extractImageIDsToContainersFromPod_def
        exPod_def exApp_def exRegistered_def exCluster_def iwLoad_def)

lemma ex_duplicate: "handlePodEvent exCluster exRegistered exEvent = (exRegistered, [])"
  by (simp add: handlePodEvent_def ex_filter ex_parent podDecision_def ex_registered_getNew
        isWlidInMap_def Let_def)
     (simp add: exRegistered_def)

lemma ex_half_reset: "exHalfReset = exRegistered\<lparr>iwMap := Map.empty\<rparr>"
  by (simp add: exHalfReset_def iwClear_def)

lemma ex_half_getNew:
  "getNewContainerToImageIDsFromPod exCluster exHalfReset exPod = [(''app'', ''repo/img@sha256:aaa'')]"
  by (simp add: getNewContainerToImageIDsFromPod_def extractImageIDsToContainersFromPod_def
        exPod_def exApp_def ex_half_reset exCluster_def iwLoad_def)

lemma ex_half_event:
  "handlePodEvent exCluster exHalfReset exEvent
   = (exRegistered, [\<lparr>targetWorkload = exWlid, containers = [''app'' \<mapsto> ''repo/img@sha256:aaa'']\<rparr>])"
  by (simp add: handlePodEvent_def ex_filter ex_parent podDecision_def ex_half_getNew ex_generate
        addToImageIDToWlidsMap_def addToWlidsToContainerToImageIDMap_def iwAdd_def ex_hash
        addToInstanceIDsList_def getImageScanCommand_def Let_def)
     (simp add: ex_half_reset exRegistered_def)

lemma ex_half_ops:
  "handlePodEvent_ops exCluster exHalfReset exEvent
   = [AddImageWorkloads ''repo/img@sha256:aaa'' [exWlid],
      AddContainerImage exWlid ''app'' ''repo/img@sha256:aaa'',
      AddInstanceID ''iid-app'']"
  by (simp add: handlePodEvent_ops_def ex_filter ex_parent podDecision_ops_def podDecision_def
        ex_half_getNew ex_generate Let_def)

lemma ex_listing_ops:
  "cleanUp_ops exCluster (Inr exListing)
   = [ClearImageHashIndex, ClearInstanceIDSet, ClearWorkloadContainerIndex,
      AddInstanceID ''iid-app'',
      AddImageWorkloads ''repo/img@sha256:aaa'' [exWlid],
      AddContainerImage exWlid ''app'' ''repo/img@sha256:aaa'']"
  by (simp add: cleanUp_ops_def cleanUpIDs_ops_def buildIDs_ops_def exListing_def buildPod_ops_def
        getParentWorkloadForPod_def extractImageIDsToContainersFromPod_def
        exPod_def exApp_def exCluster_def exWlid_def Let_def)

lemma ex_schedule:
  "exSchedule
   = [CleanUpOp ClearImageHashIndex,
      PodOp (AddImageWorkloads ''repo/img@sha256:aaa'' [exWlid]),
      PodOp (AddContainerImage exWlid ''app'' ''repo/img@sha256:aaa''),
      PodOp (AddInstanceID ''iid-app''),
      PodEmit \<lparr>targetWorkload = exWlid, containers = [''app'' \<mapsto> ''repo/img@sha256:aaa'']\<rparr>,
      CleanUpOp ClearInstanceIDSet, CleanUpOp ClearWorkloadContainerIndex,
      CleanUpOp (AddInstanceID ''iid-app''),
      CleanUpOp (AddImageWorkloads ''repo/img@sha256:aaa'' [exWlid]),
      CleanUpOp (AddContainerImage exWlid ''app'' ''repo/img@sha256:aaa'')]"
  by (simp add: exSchedule_def handlePodEvent_steps_def ex_half_ops ex_half_event ex_listing_ops)

lemma ex_schedule_interleaves: "interleaves exCluster (Inr exListing) exSchedule"
  by (simp add: interleaves_def ex_schedule ex_listing_ops)

text \<open>
  C5 as stated fails on the three resets: they are three calls, each under the lock of its
  own structure (lines 432-436), so after the first of them the ImageHashIndex is empty
  while the WorkloadContainerIndex and the InstanceIDSet still hold what they held. The
  pod loop, working at that moment on the event of a pod it has registered, which it
  otherwise passes over as a duplicate observation, finds the image unknown and gives a
  scan command to the queue while the cycle runs.
\<close>

theorem cleanup_cycle_counterexample:
  "handlePodEvent exCluster exEmpty exEvent
     = (exRegistered,
        [\<lparr>targetWorkload = ''N/Deployment/D'', containers = [''app'' \<mapsto> ''repo/img@sha256:aaa'']\<rparr>])
   \<and> handlePodEvent exCluster exRegistered exEvent = (exRegistered, [])
   \<and> cleanUp_ops exCluster (Inr exListing)
       = [ClearImageHashIndex, ClearInstanceIDSet, ClearWorkloadContainerIndex,
          AddInstanceID ''iid-app'',
          AddImageWorkloads ''repo/img@sha256:aaa'' [''N/Deployment/D''],
          AddContainerImage ''N/Deployment/D'' ''app'' ''repo/img@sha256:aaa'']
   \<and> exHalfReset = applyOp exCluster ClearImageHashIndex exRegistered
   \<and> iwMap exHalfReset = Map.empty
   \<and> wlidsToContainerToImageIDMap exHalfReset ''N/Deployment/D''
       = Some [''app'' \<mapsto> ''repo/img@sha256:aaa'']
   \<and> hashedInstanceIDs exHalfReset = [''iid-app'']
   \<and> snd (handlePodEvent exCluster exHalfReset exEvent)
       = [\<lparr>targetWorkload = ''N/Deployment/D'', containers = [''app'' \<mapsto> ''repo/img@sha256:aaa'']\<rparr>]
   \<and> interleaves exCluster (Inr exListing) exSchedule
   \<and> sessionObjChan exSystem = []
   \<and> sessionObjChan (systemRun exCluster exSchedule exSystem)
       = [\<lparr>targetWorkload = ''N/Deployment/D'', containers = [''app'' \<mapsto> ''repo/img@sha256:aaa'']\<rparr>]"
proof -
  have half: "iwMap exHalfReset = Map.empty"
    "wlidsToContainerToImageIDMap exHalfReset exWlid = Some [''app'' \<mapsto> ''repo/img@sha256:aaa'']"
    "hashedInstanceIDs exHalfReset = [''iid-app'']"
    by (simp_all add: ex_half_reset exRegistered_def)
  have queue: "sessionObjChan exSystem = []"
    "sessionObjChan (systemRun exCluster exSchedule exSystem)
       = [\<lparr>targetWorkload = exWlid, containers = [''app'' \<mapsto> ''repo/img@sha256:aaa'']\<rparr>]"
    by (simp_all add: ex_schedule exSystem_def)
  from ex_registered_event ex_duplicate ex_listing_ops half ex_half_event ex_schedule_interleaves queue
  show ?thesis
    by (simp add: exWlid_def exHalfReset_def)
qed

lemma ex_rolling_no_other:
  "pod \<in> set (items exRollingListing) \<Longrightarrow> registeredAs exCluster pod \<noteq> Some ''N/Deployment/Other''"
  using ex_rolling_registered [of pod] by (auto simp: exWlid_def)

theorem cleanup_cycle_witness:
  "cleanUp_ops exCluster (Inl (ErrAPI ''timeout'')) = []
   \<and> cleanUp exCluster (Inl (ErrAPI ''timeout'')) exStore = exStore
   \<and> (\<exists>t. iwMap exStore ''aaa'' = Some t \<and> ''N/Deployment/Other'' \<in> t)
   \<and> \<not> (\<exists>t. iwMap (cleanUp exCluster (Inr exRollingListing) exStore) ''aaa'' = Some t
              \<and> ''N/Deployment/Other'' \<in> t)
   \<and> (\<exists>t. iwMap (cleanUp exCluster (Inr exRollingListing) exStore) ''aaa'' = Some t
            \<and> ''N/Deployment/D'' \<in> t)
   \<and> ''bbb'' \<in> set (hashedInstanceIDs exStore)
   \<and> ''bbb'' \<notin> set (hashedInstanceIDs (cleanUp exCluster (Inr exRollingListing) exStore))
   \<and> ''iid-app'' \<in> set (hashedInstanceIDs (cleanUp exCluster (Inr exRollingListing) exStore))
   \<and> GetContainerToImageIDForWlid (cleanUp exCluster (Inr exRollingListing) exStore)
         ''N/Deployment/D'' ''side'' = None
   \<and> GetContainerToImageIDForWlid (cleanUp exCluster (Inr exRollingListing) exStore)
         ''N/Deployment/D'' ''app'' = Some ''repo/img@sha256:bbb''
   \<and> interleaves exCluster (Inr exListing) exSchedule
   \<and> (\<exists>t. iwMap (handler (systemRun exCluster exSchedule exSystem)) ''aaa'' = Some t
            \<and> ''N/Deployment/D'' \<in> t)
   \<and> GetContainerToImageIDForWlid (handler (systemRun exCluster exSchedule exSystem))
         ''N/Deployment/D'' ''app'' \<noteq> None
   \<and> ''iid-app'' \<in> set (hashedInstanceIDs (handler (systemRun exCluster exSchedule exSystem)))
   \<and> sessionObjChan (systemRun exCluster exSchedule exSystem)
       = sessionObjChan exSystem @ emitted exSchedule"
proof -
  define err where "err = ErrAPI ''timeout''"
  define other where "other = ''N/Deployment/Other''"
  define aaa where "aaa = ''aaa''"
  define bbb where "bbb = ''bbb''"
  define app where "app = ''iid-app''"
  define side where "side = ''side''"
  define after where "after = cleanUp exCluster (Inr exRollingListing) exStore"
  define final where "final = handler (systemRun exCluster exSchedule exSystem)"
  note A = cleanup_cycle [where k = exCluster and err = err and wh = exStore
                          and podsList = exRollingListing, folded after_def]
  note B = cleanup_cycle [where k = exCluster and podsList = exListing and schedule = exSchedule
                          and sys = exSystem, folded final_def]
  note c1 = A [THEN conjunct1]
  note c2 = A [THEN conjunct2, THEN conjunct1]
  note members = A [THEN conjunct2, THEN conjunct2, THEN conjunct2, THEN conjunct2, THEN conjunct2, THEN conjunct2, THEN conjunct2, THEN conjunct2, THEN conjunct2, THEN conjunct2, THEN conjunct2, THEN conjunct2, THEN conjunct1]
  note hashes = A [THEN conjunct2, THEN conjunct2, THEN conjunct2, THEN conjunct2, THEN conjunct2, THEN conjunct2, THEN conjunct2, THEN conjunct2, THEN conjunct2, THEN conjunct2, THEN conjunct2, THEN conjunct2, THEN conjunct2, THEN conjunct1]
  note entries = A [THEN conjunct2, THEN conjunct2, THEN conjunct2, THEN conjunct2, THEN conjunct2, THEN conjunct2, THEN conjunct2, THEN conjunct2, THEN conjunct2, THEN conjunct2, THEN conjunct2, THEN conjunct2, THEN conjunct2, THEN conjunct2, THEN conjunct2, THEN conjunct2, THEN conjunct1]
  note lastw = A [THEN conjunct2, THEN conjunct2, THEN conjunct2, THEN conjunct2, THEN conjunct2, THEN conjunct2, THEN conjunct2, THEN conjunct2, THEN conjunct2, THEN conjunct2, THEN conjunct2, THEN conjunct2, THEN conjunct2, THEN conjunct2, THEN conjunct2, THEN conjunct2, THEN conjunct2, THEN conjunct2, THEN conjunct1]
  note queue = B [THEN conjunct2, THEN conjunct2, THEN conjunct2, THEN conjunct2, THEN conjunct2, THEN conjunct2, THEN conjunct2, THEN conjunct2, THEN conjunct1]
  note woven = B [THEN conjunct2, THEN conjunct2, THEN conjunct2, THEN conjunct2, THEN conjunct2, THEN conjunct2, THEN conjunct2, THEN conjunct2, THEN conjunct2, THEN conjunct2, THEN conjunct2, THEN conjunct2, THEN conjunct2, THEN conjunct2, THEN conjunct2, THEN conjunct2, THEN conjunct2, THEN conjunct2, THEN conjunct2, THEN conjunct1, THEN mp, OF ex_schedule_interleaves]
  have before_iw: "\<exists>t. iwMap exStore aaa = Some t \<and> other \<in> t"
    by (simp add: exStore_iw aaa_def other_def)
  have before_id: "bbb \<in> set (hashedInstanceIDs exStore)"
    by (simp add: exStore_ids bbb_def)
  have no_other: "\<not> (\<exists>pod \<in> set (items exRollingListing). registeredAs exCluster pod = Some other
              \<and> (\<exists>cs \<in> set (containerStatuses pod).
                     csRunning cs \<and> extractImageHash exCluster (csImageID cs) = aaa))"
    using ex_rolling_no_other by (auto simp: other_def)
  from hashes no_other have c4: "\<not> (\<exists>t. iwMap after aaa = Some t \<and> other \<in> t)"
    by blast
  have listed: "exPod \<in> set (items exRollingListing)"
    by (simp add: exRollingListing_def)
  have app_cs: "exApp \<in> set (containerStatuses exPod) \<and> csRunning exApp
                \<and> extractImageHash exCluster (csImageID exApp) = aaa"
    by (simp add: exPod_def exApp_def ex_hash aaa_def)
  from hashes listed ex_registered app_cs have c5: "\<exists>t. iwMap after aaa = Some t \<and> exWlid \<in> t"
    by blast
  have no_bbb: "\<not> (\<exists>pod \<in> set (items exRollingListing). \<exists>wlid ids. registeredAs exCluster pod = Some wlid
              \<and> GenerateInstanceIDFromPod exCluster pod = Inr ids \<and> bbb \<in> set ids)"
  proof
    assume "\<exists>pod \<in> set (items exRollingListing). \<exists>wlid ids. registeredAs exCluster pod = Some wlid
              \<and> GenerateInstanceIDFromPod exCluster pod = Inr ids \<and> bbb \<in> set ids"
    then obtain pod ids where p: "pod \<in> set (items exRollingListing)"
      and g: "GenerateInstanceIDFromPod exCluster pod = Inr ids" and n: "bbb \<in> set ids"
      by blast
    from ex_rolling_ids [OF p] g have "ids = [''iid-app'']" by simp
    with n show False by (simp add: bbb_def)
  qed
  from members no_bbb have c7: "bbb \<notin> set (hashedInstanceIDs after)"
    by blast
  have app_in: "app \<in> set [''iid-app'']"
    by (simp add: app_def)
  from members listed ex_registered ex_generate app_in have c8: "app \<in> set (hashedInstanceIDs after)"
    by blast
  have no_side: "\<not> (\<exists>pod \<in> set (items exRollingListing). registeredAs exCluster pod = Some exWlid
              \<and> (\<exists>cs \<in> set (containerStatuses pod). csRunning cs \<and> csName cs = side))"
    by (auto simp: exRollingListing_def exPod_def exPodNext_def exApp_def exAppNext_def side_def)
  from entries no_side have c9: "GetContainerToImageIDForWlid after exWlid side = None"
    by blast
  have next_cs: "exAppNext \<in> set (containerStatuses exPodNext) \<and> csRunning exAppNext"
    by (simp add: exPodNext_def exAppNext_def)
  have H: "\<forall>q \<in> set (exPodNext # []). registeredAs exCluster q = Some exWlid \<longrightarrow>
              (\<forall>cs' \<in> set (containerStatuses q).
                  csRunning cs' \<and> csName cs' = csName exAppNext \<longrightarrow> csImageID cs' = csImageID exAppNext)"
    by (simp add: exPodNext_def)
  from lastw ex_rolling_items ex_registered_next next_cs H have
    c10: "GetContainerToImageIDForWlid after exWlid (csName exAppNext) = Some (csImageID exAppNext)"
    by blast
  have fields: "csName exAppNext = ''app''" "csImageID exAppNext = ''repo/img@sha256:bbb''"
    "csName exApp = ''app''"
    by (simp_all add: exAppNext_def exApp_def)
  have listed1: "exPod \<in> set (items exListing)"
    by (simp add: exListing_def)
  have app1: "exApp \<in> set (containerStatuses exPod)" "csRunning exApp"
    by (simp_all add: exPod_def exApp_def)
  from woven listed1 ex_registered app1 have
    w1: "(\<exists>t. iwMap final (extractImageHash exCluster (csImageID exApp)) = Some t \<and> exWlid \<in> t)
         \<and> GetContainerToImageIDForWlid final exWlid (csName exApp) \<noteq> None"
    by blast
  from woven listed1 ex_registered ex_generate have "set [''iid-app''] \<subseteq> set (hashedInstanceIDs final)"
    by blast
  then have w2: "app \<in> set (hashedInstanceIDs final)"
    by (simp add: app_def)
  have hash: "extractImageHash exCluster (csImageID exApp) = aaa"
    using app_cs by simp
  from c1 c2 before_iw c4 c5 before_id c7 c8 c9 c10 ex_schedule_interleaves w1 w2 queue
  show ?thesis
    unfolding fields hash
    by (simp add: err_def other_def aaa_def bbb_def app_def side_def after_def final_def exWlid_def)
qed

end
